(* ===== verification/Prelude.thy ===== *)
theory Prelude
  imports
    Main
    "HOL-Library.Multiset"
    "HOL-Library.List_Lexorder"
    "HOL-Library.Char_ord"
    "HOL-Library.AList"
    "HOL-Library.Word"
begin

text \<open>
  Shared vocabulary of the development: Go strings and byte slices, the parts of the
  packages \<open>strings\<close>, \<open>strconv\<close>, \<open>time\<close> and \<open>encoding/base64\<close> the daemon uses, Go
  maps as association lists, and the generic lemmas the component theories share.

  A Go \<open>string\<close> and a Go \<open>[]byte\<close> are both a HOL \<open>string\<close> (a list of 8-bit
  characters). Case folding and white space are those of ASCII: a byte of 128 or more is
  left alone by \<open>to_lower\<close> and is no white space, so the string functions are exact on
  ASCII text, which is what node names, addresses and rule dumps are made of.

  A Go map is an association list with distinct keys. Where the code ranges over a map
  the list order stands for the order of that iteration, which Go leaves open; statements
  about such code speak of sets and lookups, not of that order.
\<close>

named_theorems go_simps
  \<open>equations of the modelled Go standard library used by the component proofs\<close>

type_synonym bytes = string
type_synonym ('k, 'v) gomap = "('k \<times> 'v) list"

section \<open>Errors\<close>

text \<open>
  The sentinel errors of the packages, formatted errors, and errors wrapped with \<open>%w\<close>.
  \<open>err_is\<close> is \<open>errors.Is\<close> for a sentinel.
\<close>

datatype goerr =
    ErrNotStored | ErrNotPublished | ErrUnavailable | ErrInvalidKey | ErrInvalidValue
  | ErrSeal | ErrUnseal | ErrInvalidPubKey | ErrDeviceGone | ErrNoIptables | ErrStunFailed
  | ErrContext | Errorf string | Wrap string goerr

type_synonym 'a res = "goerr + 'a"

fun err_is :: "goerr \<Rightarrow> goerr \<Rightarrow> bool" where
  "err_is (Wrap m e) t = (Wrap m e = t \<or> err_is e t)"
| "err_is e t = (e = t)"

section \<open>Characters\<close>

lemma char_eq_iff: "(c :: char) = d \<longleftrightarrow> (of_char c :: nat) = of_char d"
  by simp

definition is_space :: "char \<Rightarrow> bool" where
  "is_space c \<longleftrightarrow> c = CHR '' '' \<or> (9 \<le> (of_char c :: nat) \<and> (of_char c :: nat) \<le> 13)"

definition is_digit :: "char \<Rightarrow> bool" where
  "is_digit c \<longleftrightarrow> 48 \<le> (of_char c :: nat) \<and> (of_char c :: nat) \<le> 57"

definition is_lower :: "char \<Rightarrow> bool" where
  "is_lower c \<longleftrightarrow> 97 \<le> (of_char c :: nat) \<and> (of_char c :: nat) \<le> 122"

definition is_upper :: "char \<Rightarrow> bool" where
  "is_upper c \<longleftrightarrow> 65 \<le> (of_char c :: nat) \<and> (of_char c :: nat) \<le> 90"

definition lower_char :: "char \<Rightarrow> char" where
  "lower_char c = (if is_upper c then char_of ((of_char c :: nat) + 32) else c)"

lemma of_char_lower_char:
  "(of_char (lower_char c) :: nat) = (if is_upper c then of_char c + 32 else of_char c)"
  by (auto simp: lower_char_def is_upper_def)

lemma lower_char_not_upper [simp]: "\<not> is_upper (lower_char c)"
  using of_char_lower_char [of c] by (auto simp: is_upper_def split: if_splits)

lemma lower_char_idem [simp]: "lower_char (lower_char c) = lower_char c"
  by (simp add: lower_char_def [of "lower_char c"])

lemma is_space_lower_char [simp]: "is_space (lower_char c) = is_space c"
proof (cases "is_upper c")
  case True
  then have "\<not> is_space c" by (auto simp: is_upper_def is_space_def)
  moreover have "\<not> is_space (lower_char c)"
    using True of_char_lower_char [of c] by (auto simp: is_upper_def is_space_def)
  ultimately show ?thesis by simp
qed (simp add: lower_char_def)

section \<open>Package strings\<close>

definition trim_left_space :: "string \<Rightarrow> string" where
  "trim_left_space s = dropWhile is_space s"

definition trim_right_space :: "string \<Rightarrow> string" where
  "trim_right_space s = rev (dropWhile is_space (rev s))"

definition trim_space :: "string \<Rightarrow> string" where
  "trim_space s = trim_right_space (trim_left_space s)"

definition to_lower :: "string \<Rightarrow> string" where
  "to_lower s = map lower_char s"

definition has_prefix :: "string \<Rightarrow> string \<Rightarrow> bool" where
  "has_prefix s p \<longleftrightarrow> take (length p) s = p"

definition trim_prefix :: "string \<Rightarrow> string \<Rightarrow> string" where
  "trim_prefix s p = (if has_prefix s p then drop (length p) s else s)"

fun contains_str :: "string \<Rightarrow> string \<Rightarrow> bool" where
  "contains_str [] p = (p = [])"
| "contains_str (c # s) p = (has_prefix (c # s) p \<or> contains_str s p)"

text \<open>\<open>strings.Trim\<close>, \<open>TrimLeft\<close> and \<open>TrimRight\<close> with a cut set.\<close>

definition trim_left_set :: "string \<Rightarrow> string \<Rightarrow> string" where
  "trim_left_set s cs = dropWhile (\<lambda>c. c \<in> set cs) s"

definition trim_right_set :: "string \<Rightarrow> string \<Rightarrow> string" where
  "trim_right_set s cs = rev (dropWhile (\<lambda>c. c \<in> set cs) (rev s))"

definition trim_set :: "string \<Rightarrow> string \<Rightarrow> string" where
  "trim_set s cs = trim_right_set (trim_left_set s cs) cs"

text \<open>\<open>strings.Split\<close> with a one-character separator: always at least one field.\<close>

fun split_on :: "char \<Rightarrow> string \<Rightarrow> string list" where
  "split_on d [] = [[]]"
| "split_on d (c # s) =
     (if c = d then [] # split_on d s
      else (case split_on d s of [] \<Rightarrow> [[c]] | w # ws \<Rightarrow> (c # w) # ws))"

text \<open>\<open>strings.Fields\<close>: the maximal runs of characters that are not white space.\<close>

definition str_fields :: "string \<Rightarrow> string list" where
  "str_fields s = filter (\<lambda>w. w \<noteq> []) (split_on CHR '' '' (map (\<lambda>c. if is_space c then CHR '' '' else c) s))"

fun join :: "string \<Rightarrow> string list \<Rightarrow> string" where
  "join sep [] = []"
| "join sep [w] = w"
| "join sep (w # ws) = w @ sep @ join sep ws"

text \<open>\<open>strings.SplitN (s, d, 2)[0]\<close>: the part before the first separator.\<close>

definition before :: "char \<Rightarrow> string \<Rightarrow> string" where
  "before d s = takeWhile (\<lambda>c. c \<noteq> d) s"

subsection \<open>Laws\<close>

lemma dropWhile_idem: "dropWhile P (dropWhile P xs) = dropWhile P xs"
  by (induction xs) auto

lemma trim_right_space_Cons:
  "trim_right_space (c # s) =
     (if trim_right_space s = [] \<and> is_space c then [] else c # trim_right_space s)"
proof -
  have "dropWhile is_space (rev s @ [c]) =
          (if dropWhile is_space (rev s) = [] then (if is_space c then [] else [c])
           else dropWhile is_space (rev s) @ [c])"
    by (induction "rev s" arbitrary: s)
       (auto simp: dropWhile_append dropWhile_eq_Nil_conv)
  then show ?thesis
    by (auto simp: trim_right_space_def)
qed

lemma trim_right_space_idem [simp]:
  "trim_right_space (trim_right_space s) = trim_right_space s"
  by (simp add: trim_right_space_def dropWhile_idem)

lemma trim_left_hd: "s = [] \<or> \<not> is_space (hd s) \<Longrightarrow> trim_left_space s = s"
  by (cases s) (auto simp: trim_left_space_def)

lemma trim_right_hd:
  "s \<noteq> [] \<Longrightarrow> \<not> is_space (hd s) \<Longrightarrow>
   trim_right_space s \<noteq> [] \<and> \<not> is_space (hd (trim_right_space s))"
  by (cases s) (auto simp: trim_right_space_Cons)

lemma hd_trim_left: "trim_left_space s = [] \<or> \<not> is_space (hd (trim_left_space s))"
  by (induction s) (auto simp: trim_left_space_def)

lemma trim_space_idem [simp]: "trim_space (trim_space s) = trim_space s"
proof -
  have "trim_left_space (trim_space s) = trim_space s"
    using hd_trim_left [of s] trim_right_hd [of "trim_left_space s"]
    by (cases "trim_left_space s = []")
       (auto simp: trim_space_def trim_right_space_def [of "[]"] intro!: trim_left_hd)
  then show ?thesis
    by (metis trim_right_space_idem trim_space_def)
qed

lemma dropWhile_map_lower:
  "dropWhile is_space (map lower_char s) = map lower_char (dropWhile is_space s)"
  by (induction s) auto

lemma trim_space_to_lower: "trim_space (to_lower s) = to_lower (trim_space s)"
  by (simp add: trim_space_def trim_left_space_def trim_right_space_def to_lower_def
      dropWhile_map_lower rev_map)

lemma to_lower_idem [simp]: "to_lower (to_lower s) = to_lower s"
  by (simp add: to_lower_def comp_def)

lemma set_trim_space: "set (trim_space s) \<subseteq> set s"
  by (auto simp: trim_space_def trim_right_space_def trim_left_space_def dest!: set_dropWhileD)

lemma trim_space_no_space: "(\<forall>c \<in> set s. \<not> is_space c) \<Longrightarrow> trim_space s = s"
proof -
  assume ns: "\<forall>c \<in> set s. \<not> is_space c"
  then have "dropWhile is_space s = s" "dropWhile is_space (rev s) = rev s"
    by (cases s; simp) (cases "rev s"; metis dropWhile.simps(1,2) list.set_intros(1) ns set_rev)
  then show ?thesis
    by (simp add: trim_space_def trim_left_space_def trim_right_space_def)
qed

lemma trim_space_ends: "s \<noteq> [] \<Longrightarrow> \<not> is_space (hd s) \<Longrightarrow> \<not> is_space (last s) \<Longrightarrow> trim_space s = s"
proof -
  assume s: "s \<noteq> []" "\<not> is_space (hd s)" "\<not> is_space (last s)"
  have d: "dropWhile is_space t = t" if "t \<noteq> []" "\<not> is_space (hd t)" for t
    using that by (cases t) auto
  from d [OF s(1,2)] d [of "rev s"] s show ?thesis
    by (simp add: trim_space_def trim_left_space_def trim_right_space_def hd_rev)
qed

lemma split_on_nonempty [simp]: "split_on d s \<noteq> []"
  by (induction s) (auto split: list.splits)

lemma split_on_no_sep: "d \<notin> set s \<Longrightarrow> split_on d s = [s]"
  by (induction s) auto

lemma split_on_append:
  "d \<notin> set w \<Longrightarrow> split_on d (w @ d # s) = w # split_on d s"
  by (induction w) auto

lemma split_on_parts_no_sep: "w \<in> set (split_on d s) \<Longrightarrow> d \<notin> set w"
  by (induction s arbitrary: w) (auto split: if_splits list.splits)

lemma split_on_set: "w \<in> set (split_on d s) \<Longrightarrow> set w \<subseteq> set s"
proof (induction s arbitrary: w)
  case (Cons c s)
  show ?case
  proof (cases "split_on d s")
    case (Cons v vs)
    then have "set v \<subseteq> set s" "\<And>u. u \<in> set vs \<Longrightarrow> set u \<subseteq> set s"
      using Cons.IH by auto
    then show ?thesis
      using Cons.prems Cons by (auto split: if_splits)
  qed simp
qed simp

lemma join_single_Cons: "ws \<noteq> [] \<Longrightarrow> join sep (w # ws) = w @ sep @ join sep ws"
  by (cases ws) auto

lemma split_on_join:
  "ws \<noteq> [] \<Longrightarrow> (\<forall>w \<in> set ws. d \<notin> set w) \<Longrightarrow> split_on d (join [d] ws) = ws"
proof (induction ws rule: induct_list012)
  case (3 w v ws)
  then show ?case by (simp add: split_on_append)
qed (auto simp: split_on_no_sep)

lemma split_on_join_nl:
  "ws \<noteq> [] \<Longrightarrow> (\<forall>w \<in> set ws. d \<notin> set w) \<Longrightarrow>
   split_on d (join [d] ws @ [d]) = ws @ [[]]"
proof (induction ws rule: induct_list012)
  case (3 w v ws)
  then show ?case by (simp add: split_on_append)
qed (auto simp: split_on_append)

lemma before_append [simp]: "d \<notin> set a \<Longrightarrow> before d (a @ d # b) = a"
  by (induction a) (auto simp: before_def)

lemma has_prefix_append [simp]: "has_prefix (p @ s) p"
  by (simp add: has_prefix_def)

lemma has_prefix_iff: "has_prefix s p \<longleftrightarrow> (\<exists>t. s = p @ t)"
  unfolding has_prefix_def by (metis append_eq_conv_conj append_take_drop_id)

section \<open>Words\<close>

lemma word_less_plus_one: "x \<noteq> - 1 \<Longrightarrow> (x :: 'a :: len word) < x + 1"
proof -
  assume "x \<noteq> - 1"
  then have "unat x \<noteq> 2 ^ LENGTH('a) - 1"
    by (metis unsigned_minus_1_eq_mask mask_eq_exp_minus_1 unsigned_word_eqI)
  then have "unat x + 1 < 2 ^ LENGTH('a)"
    using unsigned_less [of x, where ?'a = nat] by linarith
  then show ?thesis by (simp add: word_less_nat_alt unat_word_ariths)
qed

end
