(* ===== verification/Encoding.thy ===== *)
theory Encoding
  imports Prelude
begin

text \<open>
  Printed forms the program reads and writes: decimal numbers (\<open>strconv.Itoa\<close>,
  \<open>FormatUint\<close>, \<open>FormatInt\<close>), lower-case hexadecimal, and standard base64
  (\<open>encoding/base64.StdEncoding\<close>), with their round trips. Saturating time arithmetic of
  package \<open>time\<close> is here too.
\<close>

section \<open>Decimal\<close>

definition digit :: "nat \<Rightarrow> char" where
  "digit n = char_of (48 + n)"

fun nat_str :: "nat \<Rightarrow> string" where
  "nat_str n = (if n < 10 then [digit n] else nat_str (n div 10) @ [digit (n mod 10)])"

declare nat_str.simps [simp del]

definition int_str :: "int \<Rightarrow> string" where
  "int_str i = (if i < 0 then CHR ''-'' # nat_str (nat (- i)) else nat_str (nat i))"

definition digit_val :: "char \<Rightarrow> nat" where
  "digit_val c = of_char c - 48"

definition dec_val :: "string \<Rightarrow> nat" where
  "dec_val s = foldl (\<lambda>n c. n * 10 + digit_val c) 0 s"

lemma of_char_digit [simp]: "n < 10 \<Longrightarrow> (of_char (digit n) :: nat) = 48 + n"
  by (simp add: digit_def)

lemma digit_val_digit [simp]: "n < 10 \<Longrightarrow> digit_val (digit n) = n"
  by (simp add: digit_val_def)

lemma is_digit_digit [simp]: "n < 10 \<Longrightarrow> is_digit (digit n)"
  by (simp add: is_digit_def)

lemma nat_str_digits: "\<forall>c \<in> set (nat_str n). is_digit c"
proof (induction n rule: nat_str.induct)
  case (1 n)
  then show ?case by (cases "n < 10") (auto simp: nat_str.simps [of n])
qed

lemma nat_str_nonempty [simp]: "nat_str n \<noteq> []"
  by (subst nat_str.simps) simp

lemma dec_val_snoc: "dec_val (s @ [c]) = dec_val s * 10 + digit_val c"
  by (simp add: dec_val_def)

lemma dec_val_nat_str [simp]: "dec_val (nat_str n) = n"
proof (induction n rule: nat_str.induct)
  case (1 n)
  show ?case
  proof (cases "n < 10")
    case True
    then show ?thesis by (simp add: nat_str.simps [of n] dec_val_def)
  next
    case False
    with "1.IH" show ?thesis by (simp add: nat_str.simps [of n] dec_val_snoc)
  qed
qed

lemma nat_str_inj [simp]: "nat_str m = nat_str n \<longleftrightarrow> m = n"
  by (metis dec_val_nat_str)

lemma nat_str_no_leading_zero: "0 < n \<Longrightarrow> hd (nat_str n) \<noteq> CHR ''0''"
proof (induction n rule: nat_str.induct)
  case (1 n)
  show ?case
  proof (cases "n < 10")
    case True
    with "1.prems" have "(of_char (digit n) :: nat) \<noteq> of_char (CHR ''0'')" by simp
    then have "digit n \<noteq> CHR ''0''" by metis
    then show ?thesis using True by (simp add: nat_str.simps [of n])
  next
    case False
    with "1.IH" show ?thesis by (simp add: nat_str.simps [of n])
  qed
qed

lemma nat_str_0 [simp]: "nat_str 0 = ''0''"
  by code_simp

lemma is_digit_not: "is_digit c \<Longrightarrow> c \<noteq> CHR ''.'' \<and> c \<noteq> CHR '':'' \<and> c \<noteq> CHR ''/'' \<and> c \<noteq> CHR ''|''"
  by (auto simp: is_digit_def)

section \<open>Hexadecimal\<close>

text \<open>The digit table \<open>"0123456789abcdef"\<close> of \<open>cut40\<close> and \<open>cutHex40\<close>.\<close>

definition hex_char :: "nat \<Rightarrow> char" where
  "hex_char n = (if n < 10 then char_of (48 + n) else char_of (87 + n))"

definition is_hex_char :: "char \<Rightarrow> bool" where
  "is_hex_char c \<longleftrightarrow>
     (let n = (of_char c :: nat) in
      (48 \<le> n \<and> n \<le> 57) \<or> (97 \<le> n \<and> n \<le> 102) \<or> (65 \<le> n \<and> n \<le> 70))"

lemma is_hex_hex_char [simp]: "n < 16 \<Longrightarrow> is_hex_char (hex_char n)"
  by (auto simp: is_hex_char_def hex_char_def)

lemma hex_char_inj: "m < 16 \<Longrightarrow> n < 16 \<Longrightarrow> hex_char m = hex_char n \<Longrightarrow> m = n"
proof -
  assume mn: "m < 16" "n < 16" and eq: "hex_char m = hex_char n"
  have v: "(of_char (hex_char k) :: nat) = (if k < 10 then 48 + k else 87 + k)" if "k < 16" for k
    using that by (simp add: hex_char_def)
  have "(if m < 10 then 48 + m else 87 + m) = (if n < 10 then 48 + n else 87 + n)"
    using v [OF mn(1)] v [OF mn(2)] eq by metis
  then show "m = n" by (simp split: if_splits)
qed

definition hex_byte :: "char \<Rightarrow> string" where
  "hex_byte b = [hex_char (of_char b div 16), hex_char (of_char b mod 16)]"

lemma of_char_lt_256 [simp]: "(of_char c :: nat) < 256"
  using nat_of_char_less_256 by simp

lemma length_hex_byte [simp]: "length (hex_byte b) = 2"
  by (simp add: hex_byte_def)

lemma hex_byte_hex: "c \<in> set (hex_byte b) \<Longrightarrow> is_hex_char c"
  using of_char_lt_256 [of b]
  by (auto simp: hex_byte_def less_mult_imp_div_less intro!: is_hex_hex_char simp del: of_char_lt_256)

lemma hex_byte_inj: "hex_byte a = hex_byte b \<longleftrightarrow> a = b"
proof
  assume eq: "hex_byte a = hex_byte b"
  have lt: "(of_char c :: nat) div 16 < 16" for c
    using of_char_lt_256 [of c] by (simp add: less_mult_imp_div_less del: of_char_lt_256)
  have "(of_char a :: nat) div 16 = of_char b div 16" "(of_char a :: nat) mod 16 = of_char b mod 16"
    using eq hex_char_inj [OF lt lt] hex_char_inj [of "of_char a mod 16" "of_char b mod 16"]
    by (auto simp: hex_byte_def)
  then have "(of_char a :: nat) = of_char b"
    by (metis div_mult_mod_eq)
  then show "a = b" by simp
qed simp

section \<open>Base64\<close>

definition b64_chr :: "nat \<Rightarrow> char" where
  "b64_chr n =
     (if n < 26 then char_of (65 + n)
      else if n < 52 then char_of (71 + n)
      else if n < 62 then char_of (n - 4)
      else if n = 62 then CHR ''+'' else CHR ''/'')"

definition b64_idx :: "char \<Rightarrow> nat option" where
  "b64_idx c =
     (let n = (of_char c :: nat) in
      if 65 \<le> n \<and> n \<le> 90 then Some (n - 65)
      else if 97 \<le> n \<and> n \<le> 122 then Some (n - 71)
      else if 48 \<le> n \<and> n \<le> 57 then Some (n + 4)
      else if n = 43 then Some 62
      else if n = 47 then Some 63 else None)"

fun b64_groups :: "nat list \<Rightarrow> string" where
  "b64_groups [] = []"
| "b64_groups [a] = [b64_chr (a div 4), b64_chr ((a mod 4) * 16), CHR ''='', CHR ''='']"
| "b64_groups [a, b] =
     [b64_chr (a div 4), b64_chr ((a mod 4) * 16 + b div 16), b64_chr ((b mod 16) * 4), CHR ''='']"
| "b64_groups (a # b # c # r) =
     b64_chr (a div 4) # b64_chr ((a mod 4) * 16 + b div 16) #
     b64_chr ((b mod 16) * 4 + c div 64) # b64_chr (c mod 64) # b64_groups r"

definition b64 :: "bytes \<Rightarrow> string" where
  "b64 s = b64_groups (map of_char s)"

text \<open>Decoding skips line ends, wants the padding, and ignores the unused low bits of the
  last group, as the non-strict \<open>StdEncoding\<close> does.\<close>

fun b64dec_groups :: "string \<Rightarrow> nat list option" where
  "b64dec_groups [] = Some []"
| "b64dec_groups (w # x # y # z # r) =
     (case (b64_idx w, b64_idx x) of
        (Some i, Some j) \<Rightarrow>
          (if y = CHR ''='' then
             (if z = CHR ''='' \<and> r = [] then Some [i * 4 + j div 16] else None)
           else (case b64_idx y of
               None \<Rightarrow> None
             | Some k \<Rightarrow>
                 if z = CHR ''='' then
                   (if r = [] then Some [i * 4 + j div 16, (j mod 16) * 16 + k div 4] else None)
                 else (case b64_idx z of
                     None \<Rightarrow> None
                   | Some l \<Rightarrow> map_option
                       (\<lambda>t. (i * 4 + j div 16) # ((j mod 16) * 16 + k div 4) #
                            ((k mod 4) * 64 + l) # t)
                       (b64dec_groups r))))
      | _ \<Rightarrow> None)"
| "b64dec_groups _ = None"

definition b64dec :: "string \<Rightarrow> bytes option" where
  "b64dec s =
     map_option (map char_of) (b64dec_groups (filter (\<lambda>c. c \<noteq> CHR 0x0A \<and> c \<noteq> CHR 0x0D) s))"

lemma of_char_b64_chr:
  "n < 64 \<Longrightarrow> (of_char (b64_chr n) :: nat) =
     (if n < 26 then 65 + n else if n < 52 then 71 + n else if n < 62 then n - 4
      else if n = 62 then 43 else 47)"
  by (auto simp: b64_chr_def)

lemma b64_idx_chr [simp]: "n < 64 \<Longrightarrow> b64_idx (b64_chr n) = Some n"
  by (auto simp: b64_idx_def of_char_b64_chr Let_def)

lemma b64_chr_neq:
  assumes "n < 64"
  shows "b64_chr n \<noteq> CHR ''=''" and "b64_chr n \<noteq> CHR 0x0A" and "b64_chr n \<noteq> CHR 0x0D"
proof -
  have "(of_char (b64_chr n) :: nat) \<notin> {61, 10, 13}"
    using assms by (auto simp: of_char_b64_chr)
  then show "b64_chr n \<noteq> CHR ''=''" "b64_chr n \<noteq> CHR 0x0A" "b64_chr n \<noteq> CHR 0x0D"
    by auto
qed

lemma b64dec_groups_b64_groups:
  "\<forall>a \<in> set xs. a < 256 \<Longrightarrow> b64dec_groups (b64_groups xs) = Some xs"
proof (induction xs rule: b64_groups.induct)
  case (4 a b c r)
  have "a div 4 < 64" "(a mod 4) * 16 + b div 16 < 64" "(b mod 16) * 4 + c div 64 < 64"
    using "4.prems" by auto
  moreover have "((a mod 4) * 16 + b div 16) div 16 = a mod 4" "((a mod 4) * 16 + b div 16) mod 16 = b div 16"
    "((b mod 16) * 4 + c div 64) div 4 = b mod 16" "((b mod 16) * 4 + c div 64) mod 4 = c div 64"
    using "4.prems" by auto
  ultimately show ?case
    using "4" by (simp add: b64_chr_neq)
next
  case (3 a b)
  have "a div 4 < 64" "(a mod 4) * 16 + b div 16 < 64" "(b mod 16) * 4 < 64"
    using "3.prems" by auto
  moreover have "((a mod 4) * 16 + b div 16) div 16 = a mod 4" "((a mod 4) * 16 + b div 16) mod 16 = b div 16"
    using "3.prems" by auto
  ultimately show ?case
    by (simp add: b64_chr_neq)
qed (auto simp: b64_chr_neq)

lemma b64_groups_no_eol:
  "\<forall>a \<in> set xs. a < 256 \<Longrightarrow> c \<in> set (b64_groups xs) \<Longrightarrow> c \<noteq> CHR 0x0A \<and> c \<noteq> CHR 0x0D"
proof (induction xs rule: b64_groups.induct)
  case (4 a b d r)
  have "a div 4 < 64" "(a mod 4) * 16 + b div 16 < 64" "(b mod 16) * 4 + d div 64 < 64"
    using "4.prems" by auto
  then show ?case using "4" by (auto simp: b64_chr_neq)
next
  case (3 a b)
  have "a div 4 < 64" "(a mod 4) * 16 + b div 16 < 64" "(b mod 16) * 4 < 64"
    using "3.prems" by auto
  then show ?case using "3" by (auto simp: b64_chr_neq)
qed (auto simp: b64_chr_neq)

lemma b64dec_b64 [simp, go_simps]: "b64dec (b64 s) = Some s"
proof -
  have r: "\<forall>a \<in> set (map of_char s). (a :: nat) < 256" by auto
  have "filter (\<lambda>c. c \<noteq> CHR 0x0A \<and> c \<noteq> CHR 0x0D) (b64 s) = b64 s"
    using b64_groups_no_eol [OF r] by (simp add: b64_def filter_id_conv)
  then show ?thesis
    using b64dec_groups_b64_groups [OF r]
    by (simp add: b64dec_def b64_def comp_def)
qed

lemma b64_inj [simp]: "b64 a = b64 b \<longleftrightarrow> a = b"
  by (metis b64dec_b64 option.inject)

section \<open>Time\<close>

text \<open>
  A \<open>time.Time\<close> is its number of nanoseconds since the Unix epoch; \<open>zero_time\<close> is the
  zero value (1 January of year 1), which \<open>IsZero\<close> recognises. A \<open>time.Duration\<close> is an
  \<open>int64\<close> of nanoseconds; \<open>time.Since\<close> saturates at its limits.
\<close>

type_synonym time = int
type_synonym duration = int

definition sec :: int where "sec = 1000000000"

definition zero_time :: time where "zero_time = - 62135596800 * 1000000000"

definition max_dur :: int where "max_dur = 9223372036854775807"

definition i64 :: "int \<Rightarrow> int" where
  "i64 n = (n + 9223372036854775808) mod 18446744073709551616 - 9223372036854775808"

definition since :: "time \<Rightarrow> time \<Rightarrow> duration" where
  "since now t = max (- max_dur - 1) (min max_dur (now - t))"

definition unix_sec :: "time \<Rightarrow> int" where
  "unix_sec t = t div 1000000000"

lemma i64_id: "- 9223372036854775808 \<le> n \<Longrightarrow> n < 9223372036854775808 \<Longrightarrow> i64 n = n"
  by (simp add: i64_def)

text \<open>A handshake that never happened is stale for every clock after 1970 and every
  freshness window the duration type can hold short of its maximum.\<close>

lemma since_zero_time: "0 \<le> now \<Longrightarrow> since now zero_time = max_dur"
  by (simp add: since_def zero_time_def max_dur_def)

end
