(* ===== verification/Netaddr.thy ===== *)
theory Netaddr
  imports Encoding
begin

unbundle bit_operations_syntax

text \<open>
  The parts of package \<open>net\<close> the program uses: \<open>IP\<close> (a byte slice of length 0, 4 or 16),
  \<open>To4\<close>, \<open>IP.String\<close>, \<open>ParseIP\<close>, \<open>IPNet\<close> with \<open>ParseCIDR\<close> and \<open>String\<close>, the address
  classes, and \<open>SplitHostPort\<close> / \<open>JoinHostPort\<close>. The masks of the program all come from
  \<open>CIDRMask\<close>, so a mask is its pair of leading ones and total bits. The printer and the
  parser of IPv4 networks are inverse to each other.
\<close>

section \<open>IP addresses\<close>

type_synonym ip = bytes

definition v4_in_v6_prefix :: bytes where
  "v4_in_v6_prefix = replicate 10 (CHR 0x00) @ [CHR 0xFF, CHR 0xFF]"

definition to4 :: "ip \<Rightarrow> ip option" where
  "to4 ip =
     (if length ip = 4 then Some ip
      else if length ip = 16 \<and> take 12 ip = v4_in_v6_prefix then Some (drop 12 ip)
      else None)"

definition byte_at :: "bytes \<Rightarrow> nat \<Rightarrow> nat" where
  "byte_at b i = of_char (b ! i)"

definition dotted :: "ip \<Rightarrow> string" where
  "dotted p = join ''.'' (map (\<lambda>b. nat_str (of_char b)) p)"

fun hex_str :: "nat \<Rightarrow> string" where
  "hex_str n = (if n < 16 then [hex_char n] else hex_str (n div 16) @ [hex_char (n mod 16)])"

declare hex_str.simps [simp del]

fun groups16 :: "bytes \<Rightarrow> nat list" where
  "groups16 (a # b # r) = (of_char a * 256 + of_char b) # groups16 r"
| "groups16 _ = []"

definition zero_run :: "nat list \<Rightarrow> nat" where
  "zero_run gs = length (takeWhile (\<lambda>g. g = 0) gs)"

text \<open>The first longest run of at least two zero groups: start and length.\<close>

fun best_run :: "nat \<Rightarrow> nat list \<Rightarrow> (nat \<times> nat) option" where
  "best_run i [] = None"
| "best_run i (g # gs) =
     (let l = zero_run (g # gs); r = best_run (Suc i) gs in
      if l \<ge> 2 \<and> (case r of None \<Rightarrow> True | Some (_, l') \<Rightarrow> l \<ge> l') then Some (i, l) else r)"

definition ip6_string :: "ip \<Rightarrow> string" where
  "ip6_string p =
     (let gs = groups16 p in
      case best_run 0 gs of
        None \<Rightarrow> join '':'' (map hex_str gs)
      | Some (i, l) \<Rightarrow> join '':'' (map hex_str (take i gs)) @ ''::'' @
                      join '':'' (map hex_str (drop (i + l) gs)))"

definition ip_string :: "ip \<Rightarrow> string" where
  "ip_string ip =
     (if ip = [] then ''<nil>''
      else case to4 ip of
        Some p \<Rightarrow> dotted p
      | None \<Rightarrow> if length ip = 16 then ip6_string ip else ''?'' @ concat (map hex_byte ip))"

subsection \<open>Parsing\<close>

definition parse_octet :: "string \<Rightarrow> nat option" where
  "parse_octet s =
     (if s \<noteq> [] \<and> list_all is_digit s \<and> (length s > 1 \<longrightarrow> hd s \<noteq> CHR ''0'') \<and> dec_val s \<le> 255
      then Some (dec_val s) else None)"

definition parse_ip4 :: "string \<Rightarrow> bytes option" where
  "parse_ip4 s =
     (case map parse_octet (split_on (CHR ''.'') s) of
        [Some a, Some b, Some c, Some d] \<Rightarrow> Some [char_of a, char_of b, char_of c, char_of d]
      | _ \<Rightarrow> None)"

definition hex_val :: "char \<Rightarrow> nat" where
  "hex_val c =
     (let n = (of_char c :: nat) in
      if n \<le> 57 then n - 48 else if 97 \<le> n then n - 87 else n - 55)"

text \<open>
  The field loop of \<open>netip.parseIPv6\<close> after an optional leading \<open>::\<close>: \<open>acc\<close> holds the bytes
  read so far, \<open>ell\<close> the position of the ellipsis; the fuel bounds the eight groups.
\<close>

fun ip6_fields :: "nat \<Rightarrow> bytes \<Rightarrow> nat option \<Rightarrow> string \<Rightarrow> (bytes \<times> nat option) option" where
  "ip6_fields 0 acc ell s = (if s = [] then Some (acc, ell) else None)"
| "ip6_fields (Suc k) acc ell s =
     (let h = takeWhile is_hex_char s; r = dropWhile is_hex_char s;
          v = foldl (\<lambda>n c. n * 16 + hex_val c) 0 h in
      if h = [] \<or> length h > 4 then None
      else if r \<noteq> [] \<and> hd r = CHR ''.'' then
        (if (ell = None \<and> length acc \<noteq> 12) \<or> length acc + 4 > 16 then None
         else case parse_ip4 s of None \<Rightarrow> None | Some q \<Rightarrow> Some (acc @ q, ell))
      else
        (let acc' = acc @ [char_of (v div 256), char_of (v mod 256)] in
         case r of
           [] \<Rightarrow> Some (acc', ell)
         | c # r1 \<Rightarrow>
             if c \<noteq> CHR '':'' \<or> r1 = [] then None
             else if hd r1 = CHR '':'' then
               (if ell \<noteq> None then None
                else if tl r1 = [] then Some (acc', Some (length acc'))
                else ip6_fields k acc' (Some (length acc')) (tl r1))
             else ip6_fields k acc' ell r1))"

definition parse_ip6 :: "string \<Rightarrow> bytes option" where
  "parse_ip6 s =
     (if s = ''::'' then Some (replicate 16 (CHR 0x00))
      else
        (let st = (if has_prefix s ''::'' then ip6_fields 8 [] (Some 0) (drop 2 s)
                   else ip6_fields 8 [] None s) in
         case st of
           None \<Rightarrow> None
         | Some (acc, ell) \<Rightarrow>
             (if length acc < 16 then
                (case ell of
                   None \<Rightarrow> None
                 | Some e \<Rightarrow> Some (take e acc @ replicate (16 - length acc) (CHR 0x00) @ drop e acc))
              else if ell \<noteq> None then None else Some acc)))"

text \<open>
  \<open>netip.ParseAddr\<close> decides the family by the first dot or colon; an address with a zone is
  refused by both callers. The result keeps the family: 4 or 16 bytes.
\<close>

definition parse_addr :: "string \<Rightarrow> bytes option" where
  "parse_addr s =
     (case dropWhile (\<lambda>c. c \<noteq> CHR ''.'' \<and> c \<noteq> CHR '':'' \<and> c \<noteq> CHR ''%'') s of
        [] \<Rightarrow> None
      | c # _ \<Rightarrow> if c = CHR ''.'' then parse_ip4 s
                 else if c = CHR '':'' then (if CHR ''%'' \<in> set s then None else parse_ip6 s)
                 else None)"

definition to16 :: "bytes \<Rightarrow> bytes" where
  "to16 a = (if length a = 4 then v4_in_v6_prefix @ a else a)"

definition parse_ip :: "string \<Rightarrow> ip option" where
  "parse_ip s = map_option to16 (parse_addr s)"

section \<open>Networks\<close>

record ipnet =
  net_ip :: ip
  net_ones :: nat
  net_bits :: nat

text \<open>\<open>IP.Mask\<close> with a CIDR mask: whole bytes kept, one byte cut, the rest zero.\<close>

definition mask_byte :: "nat \<Rightarrow> char \<Rightarrow> char" where
  "mask_byte k b = char_of ((of_char b div 2 ^ (8 - k)) * 2 ^ (8 - k) :: nat)"

fun mask_bytes :: "nat \<Rightarrow> bytes \<Rightarrow> bytes" where
  "mask_bytes n [] = []"
| "mask_bytes n (b # r) =
     (if n \<ge> 8 then b # mask_bytes (n - 8) r else mask_byte n b # mask_bytes 0 r)"

definition dtoi :: "string \<Rightarrow> nat option" where
  "dtoi s = (if s \<noteq> [] \<and> list_all is_digit s \<and> dec_val s < 16777215 then Some (dec_val s) else None)"

definition parse_cidr :: "string \<Rightarrow> (ip \<times> ipnet) option" where
  "parse_cidr s =
     (case split_on (CHR ''/'') s of
        a # m # ms \<Rightarrow>
          (case (parse_addr a, dtoi (join ''/'' (m # ms))) of
             (Some ad, Some n) \<Rightarrow>
               (if n \<le> 8 * length ad
                then Some (to16 ad, \<lparr>net_ip = mask_bytes n ad, net_ones = n, net_bits = 8 * length ad\<rparr>)
                else None)
           | _ \<Rightarrow> None)
      | _ \<Rightarrow> None)"

definition ipnet_string :: "ipnet \<Rightarrow> string" where
  "ipnet_string n =
     (case to4 (net_ip n) of
        Some p \<Rightarrow>
          (if net_bits n = 32 then dotted p @ ''/'' @ nat_str (net_ones n)
           else dotted p @ ''/'' @ nat_str (net_ones n - 96))
      | None \<Rightarrow> (if length (net_ip n) = 16 \<and> net_bits n = 128
                 then ip6_string (net_ip n) @ ''/'' @ nat_str (net_ones n) else ''<nil>''))"

definition host32 :: "ip \<Rightarrow> ipnet" where
  "host32 ip = \<lparr>net_ip = ip, net_ones = 32, net_bits = 32\<rparr>"

section \<open>Address classes\<close>

definition is_loopback :: "ip \<Rightarrow> bool" where
  "is_loopback ip = (case to4 ip of Some p \<Rightarrow> byte_at p 0 = 127
     | None \<Rightarrow> ip = replicate 15 (CHR 0x00) @ [CHR 0x01])"

definition is_link_local :: "ip \<Rightarrow> bool" where
  "is_link_local ip = (case to4 ip of Some p \<Rightarrow> byte_at p 0 = 169 \<and> byte_at p 1 = 254
     | None \<Rightarrow> length ip = 16 \<and> byte_at ip 0 = 254 \<and> byte_at ip 1 div 64 = 2)"

definition is_unspecified :: "ip \<Rightarrow> bool" where
  "is_unspecified ip = (case to4 ip of Some p \<Rightarrow> p = replicate 4 (CHR 0x00)
     | None \<Rightarrow> ip = replicate 16 (CHR 0x00))"

section \<open>Host and port\<close>

definition join_host_port :: "string \<Rightarrow> string \<Rightarrow> string" where
  "join_host_port h p = (if CHR '':'' \<in> set h then ''['' @ h @ '']:'' @ p else h @ '':'' @ p)"

text \<open>\<open>net.SplitHostPort\<close>; every failure is \<open>None\<close>.\<close>

definition split_host_port :: "string \<Rightarrow> (string \<times> string) option" where
  "split_host_port s =
     (if CHR '':'' \<notin> set s then None
      else
        (let port = rev (takeWhile (\<lambda>c. c \<noteq> CHR '':'') (rev s));
             pre = take (length s - length port - 1) s in
         case s of
           [] \<Rightarrow> None
         | c # r \<Rightarrow>
             if c = CHR ''['' then
               (if CHR '']'' \<notin> set r then None
                else
                  (let h = takeWhile (\<lambda>c. c \<noteq> CHR '']'') r in
                   if length pre = length h + 2 \<and> CHR ''['' \<notin> set r \<and> CHR '']'' \<notin> set port
                   then Some (h, port) else None))
             else if CHR '':'' \<in> set pre \<or> CHR ''['' \<in> set s \<or> CHR '']'' \<in> set s then None
             else Some (pre, port)))"

record udpaddr =
  ua_ip :: ip
  ua_port :: int

definition udp_string :: "udpaddr \<Rightarrow> string" where
  "udp_string a = join_host_port (if ua_ip a = [] then [] else ip_string (ua_ip a)) (int_str (ua_port a))"

section \<open>32-bit addresses\<close>

definition be_u32 :: "bytes \<Rightarrow> 32 word" where
  "be_u32 b = of_nat (((byte_at b 0 * 256 + byte_at b 1) * 256 + byte_at b 2) * 256 + byte_at b 3)"

definition put_u32 :: "32 word \<Rightarrow> bytes" where
  "put_u32 w = (let n = unat w in
     [char_of (n div 16777216), char_of (n div 65536 mod 256), char_of (n div 256 mod 256),
      char_of (n mod 256)])"

section \<open>Laws\<close>

lemma parse_octet_nat_str [simp]: "n \<le> 255 \<Longrightarrow> parse_octet (nat_str n) = Some n"
  using nat_str_digits [of n] nat_str_no_leading_zero [of n]
  using dec_val_nat_str [of n]
  by (cases "n = 0") (auto simp: parse_octet_def list_all_iff)

lemma length4E:
  assumes "length p = 4"
  obtains a b c d where "p = [a, b, c, d]"
proof -
  have "length p = Suc (Suc (Suc (Suc 0)))" using assms by simp
  then show ?thesis using that by (auto simp: length_Suc_conv)
qed

lemma nat_str_no_dot: "CHR ''.'' \<notin> set (nat_str n)" "CHR ''/'' \<notin> set (nat_str n)"
  using nat_str_digits [of n] is_digit_not by blast+

lemma split_on_dotted:
  "length p = 4 \<Longrightarrow> split_on (CHR ''.'') (dotted p) = map (\<lambda>b. nat_str (of_char b)) p"
  unfolding dotted_def
  by (rule split_on_join) (use nat_str_no_dot in auto)

lemma of_char_le_255: "(of_char c :: nat) \<le> 255"
  using of_char_lt_256 [of c] by (simp del: of_char_lt_256)

lemma parse_ip4_dotted [simp]: "length p = 4 \<Longrightarrow> parse_ip4 (dotted p) = Some p"
  by (elim length4E) (simp add: parse_ip4_def split_on_dotted of_char_le_255)

lemma dropWhile_digits:
  assumes "\<forall>c \<in> set s. is_digit c"
  shows "dropWhile (\<lambda>c. c \<noteq> CHR ''.'' \<and> c \<noteq> CHR '':'' \<and> c \<noteq> CHR ''%'') (s @ CHR ''.'' # t) = CHR ''.'' # t"
  using assms by (induction s) (auto simp: is_digit_def)

lemma parse_addr_dotted [simp]: "length p = 4 \<Longrightarrow> parse_addr (dotted p) = Some p"
proof -
  assume l: "length p = 4"
  then obtain a b c d where p: "p = [a, b, c, d]" by (rule length4E)
  have "\<exists>t. dropWhile (\<lambda>c. c \<noteq> CHR ''.'' \<and> c \<noteq> CHR '':'' \<and> c \<noteq> CHR ''%'') (dotted p) = CHR ''.'' # t"
    using dropWhile_digits [OF nat_str_digits [of "of_char a"]] by (auto simp: dotted_def p)
  then show ?thesis
    using l by (auto simp: parse_addr_def)
qed

lemma dotted_no_slash: "length p = 4 \<Longrightarrow> CHR ''/'' \<notin> set (dotted p)"
  by (elim length4E) (simp add: dotted_def nat_str_no_dot)

lemma dotted_inj: "length p = 4 \<Longrightarrow> length q = 4 \<Longrightarrow> dotted p = dotted q \<longleftrightarrow> p = q"
  by (metis parse_ip4_dotted option.inject)

lemma dtoi_nat_str [simp]: "n < 16777215 \<Longrightarrow> dtoi (nat_str n) = Some n"
  using nat_str_digits [of n] by (auto simp: dtoi_def list_all_iff)

lemma length_mask_bytes [simp]: "length (mask_bytes n b) = length b"
  by (induction n b rule: mask_bytes.induct) auto

lemma of_char_mask_byte:
  "(of_char (mask_byte k b) :: nat) = (of_char b div 2 ^ (8 - k)) * 2 ^ (8 - k)"
proof -
  have "(of_char b div 2 ^ (8 - k)) * 2 ^ (8 - k) \<le> (of_char b :: nat)"
    by (simp add: div_times_less_eq_dividend)
  then have "(of_char b div 2 ^ (8 - k)) * 2 ^ (8 - k) < (256 :: nat)"
    using of_char_lt_256 [of b] by linarith
  then show ?thesis by (simp add: mask_byte_def)
qed

lemma mask_byte_idem [simp]: "mask_byte k (mask_byte k b) = mask_byte k b"
proof -
  have "(of_char (mask_byte k (mask_byte k b)) :: nat) = of_char (mask_byte k b)"
    by (simp add: of_char_mask_byte)
  then show ?thesis by simp
qed

lemma mask_bytes_idem [simp]: "mask_bytes n (mask_bytes n b) = mask_bytes n b"
  by (induction n b rule: mask_bytes.induct) auto

text \<open>A network as \<open>ParseCIDR\<close> builds it: IPv4, a CIDR mask, the host bits clear.\<close>

definition canon4 :: "ipnet \<Rightarrow> bool" where
  "canon4 n \<longleftrightarrow> length (net_ip n) = 4 \<and> net_bits n = 32 \<and> net_ones n \<le> 32 \<and>
     mask_bytes (net_ones n) (net_ip n) = net_ip n"

lemma ipnet_string_canon4:
  "canon4 n \<Longrightarrow> ipnet_string n = dotted (net_ip n) @ CHR ''/'' # nat_str (net_ones n)"
  by (simp add: ipnet_string_def canon4_def to4_def)

lemma parse_cidr_ipnet_string:
  assumes "canon4 n"
  shows "parse_cidr (ipnet_string n) = Some (to16 (net_ip n), n)"
proof -
  have l: "length (net_ip n) = 4" and ones: "net_ones n \<le> 32" and bits: "net_bits n = 32"
    and mask: "mask_bytes (net_ones n) (net_ip n) = net_ip n"
    using assms by (auto simp: canon4_def)
  have "split_on (CHR ''/'') (ipnet_string n) = [dotted (net_ip n), nat_str (net_ones n)]"
    using l by (simp add: ipnet_string_canon4 [OF assms] split_on_append dotted_no_slash
        split_on_no_sep nat_str_no_dot)
  then show ?thesis
    using l ones bits mask by (simp add: parse_cidr_def)
qed

lemma ipnet_string_inj:
  "canon4 m \<Longrightarrow> canon4 n \<Longrightarrow> ipnet_string m = ipnet_string n \<Longrightarrow> m = n"
  by (metis parse_cidr_ipnet_string option.inject prod.inject)

lemma length_parse_ip4: "parse_ip4 s = Some a \<Longrightarrow> length a = 4"
  by (auto simp: parse_ip4_def split: list.splits option.splits)

lemma parse_cidr_canon4:
  "parse_cidr s = Some (i, n) \<Longrightarrow> net_bits n = 32 \<Longrightarrow> canon4 n"
  by (auto simp: parse_cidr_def canon4_def split: list.splits option.splits if_splits)

lemma to4_length4 [simp]: "length p = 4 \<Longrightarrow> to4 p = Some p"
  by (simp add: to4_def)

lemma ip_string_4 [simp]: "length p = 4 \<Longrightarrow> ip_string p = dotted p"
  by (auto simp: ip_string_def)

lemma length_put_u32 [simp]: "length (put_u32 w) = 4"
  by (simp add: put_u32_def Let_def)

lemma base256_less:
  "(a :: nat) < 256 \<Longrightarrow> b < 256 \<Longrightarrow> c < 256 \<Longrightarrow> d < 256 \<Longrightarrow>
   ((a * 256 + b) * 256 + c) * 256 + d < 4294967296"
  by simp

lemma base256_digits:
  assumes "(n :: nat) < 4294967296"
  shows "((n div 16777216 mod 256 * 256 + n div 65536 mod 256) * 256 + n div 256 mod 256) * 256
           + n mod 256 = n"
proof -
  have d: "n div 65536 = n div 256 div 256" "n div 16777216 = n div 256 div 256 div 256"
    by (simp_all add: div_mult2_eq [symmetric])
  have "n div 16777216 < 256" using assms by (simp add: less_mult_imp_div_less)
  then have "n div 16777216 mod 256 = n div 16777216" by simp
  then show ?thesis
    by (simp only: d div_mult_mod_eq)
qed

lemma base256_parts:
  assumes "(a :: nat) < 256" "b < 256" "c < 256" "d < 256"
  defines "n \<equiv> ((a * 256 + b) * 256 + c) * 256 + d"
  shows "n div 16777216 = a" "n div 65536 mod 256 = b" "n div 256 mod 256 = c" "n mod 256 = d"
proof -
  have s: "(m * 256 + k) div 256 = m" "(m * 256 + k) mod 256 = k" if "k < 256" for m k :: nat
    using that by simp_all
  have d: "n div 65536 = n div 256 div 256" "n div 16777216 = n div 256 div 256 div 256"
    by (simp_all add: div_mult2_eq [symmetric])
  show "n div 16777216 = a" "n div 65536 mod 256 = b" "n div 256 mod 256 = c" "n mod 256 = d"
    unfolding d using assms(1-4) by (simp_all only: n_def s)
qed

definition nat4 :: "bytes \<Rightarrow> nat" where
  "nat4 b = ((byte_at b 0 * 256 + byte_at b 1) * 256 + byte_at b 2) * 256 + byte_at b 3"

lemma nat4_less: "nat4 b < 4294967296"
  unfolding nat4_def byte_at_def by (rule base256_less) simp_all

lemma unat_be_u32: "unat (be_u32 b) = nat4 b"
proof -
  have "be_u32 b = of_nat (nat4 b)" by (simp add: be_u32_def nat4_def)
  moreover have "take_bit 32 (nat4 b) = nat4 b"
    using nat4_less [of b] by (simp add: take_bit_nat_eq_self_iff)
  ultimately show ?thesis by (simp add: unsigned_of_nat)
qed

lemma put_u32_be_u32 [simp]: "length b = 4 \<Longrightarrow> put_u32 (be_u32 b) = b"
proof -
  assume "length b = 4"
  then obtain c0 c1 c2 c3 where b: "b = [c0, c1, c2, c3]" by (rule length4E)
  have n: "nat4 b = ((of_char c0 * 256 + of_char c1) * 256 + of_char c2) * 256 + of_char c3"
    by (simp add: nat4_def byte_at_def b numeral_3_eq_3)
  have "nat4 b div 16777216 = of_char c0" "nat4 b div 65536 mod 256 = of_char c1"
    "nat4 b div 256 mod 256 = of_char c2" "nat4 b mod 256 = of_char c3"
    unfolding n by (rule base256_parts; simp)+
  then show ?thesis
    by (simp add: put_u32_def unat_be_u32 b Let_def del: char_of_mod_256)
qed

lemma nat4_put_u32: "nat4 (put_u32 w) = unat w"
proof -
  have "unat w < 4294967296" using unsigned_less [of w, where ?'a = nat] by simp
  then have "unat w div 16777216 mod 256 = unat w div 16777216"
    by (simp add: less_mult_imp_div_less)
  with base256_digits [OF \<open>unat w < 4294967296\<close>] show ?thesis
    by (simp add: nat4_def put_u32_def byte_at_def Let_def numeral_3_eq_3)
qed

lemma be_u32_put_u32 [simp]: "be_u32 (put_u32 w) = w"
  by (metis nat4_put_u32 unat_be_u32 unsigned_word_eqI)

subsection \<open>Masks as arithmetic\<close>

definition cut :: "nat \<Rightarrow> nat \<Rightarrow> nat" where
  "cut k n = (n div 2 ^ k) * 2 ^ k"

lemma cut_0 [simp]: "cut 0 n = n"
  by (simp add: cut_def)

lemma cut_low: "j \<le> 8 \<Longrightarrow> cut j (m * 256 + d) = m * 256 + cut j d"
proof -
  assume "j \<le> 8"
  then have p: "(256 :: nat) = 2 ^ (8 - j) * 2 ^ j"
    by (simp flip: power_add)
  have "(m * 256 + d) div 2 ^ j = (d + (m * 2 ^ (8 - j)) * 2 ^ j) div 2 ^ j"
    by (simp only: p) (simp add: algebra_simps)
  also have "\<dots> = m * 2 ^ (8 - j) + d div 2 ^ j"
    by simp
  finally show ?thesis
    by (simp only: cut_def p) (simp add: algebra_simps)
qed

lemma cut_high: "d < 256 \<Longrightarrow> cut (8 + k) (m * 256 + d) = cut k m * 256"
proof -
  assume "d < 256"
  then have "(m * 256 + d) div 256 = m" by simp
  then have "(m * 256 + d) div (256 * 2 ^ k) = m div 2 ^ k"
    by (simp only: div_mult2_eq)
  then show ?thesis
    by (simp add: cut_def power_add)
qed

lemma of_char_mask_byte_cut: "(of_char (mask_byte k b) :: nat) = cut (8 - k) (of_char b)"
  by (simp add: of_char_mask_byte cut_def)

lemma cut_8_byte [simp]: "cut 8 (of_char b) = 0"
  by (simp add: cut_def)

lemma nat4_list: "nat4 [a, b, c, d] = ((of_char a * 256 + of_char b) * 256 + of_char c) * 256 + of_char d"
  by (simp add: nat4_def byte_at_def numeral_3_eq_3)

lemma nat4_mask_bytes:
  assumes "length b = 4" "n \<le> 32"
  shows "nat4 (mask_bytes n b) = cut (32 - n) (nat4 b)"
proof -
  obtain c0 c1 c2 c3 where b: "b = [c0, c1, c2, c3]" using assms(1) by (rule length4E)
  have lt: "(of_char c :: nat) < 256" for c by simp
  have z: "(of_char (mask_byte 0 c) :: nat) = 0" for c by (simp add: of_char_mask_byte_cut)
  note cuts = b nat4_list of_char_mask_byte_cut [of "_ - _"] of_char_mask_byte_cut [of n] z
    cut_low cut_high [OF lt] diff_le_self add_0_right
  consider "n = 32" | "24 \<le> n" "n < 32" | "16 \<le> n" "n < 24" | "8 \<le> n" "n < 16" | "n < 8"
    using assms(2) by linarith
  then show ?thesis
  proof cases
    case 2
    then have "32 - n = 8 - (n - 24)" "mask_bytes n b = [c0, c1, c2, mask_byte (n - 24) c3]"
      by (auto simp: b)
    then show ?thesis by (simp only: cuts)
  next
    case 3
    then have "32 - n = 8 + (8 - (n - 16))" "mask_bytes n b = [c0, c1, mask_byte (n - 16) c2, mask_byte 0 c3]"
      by (auto simp: b)
    then show ?thesis by (simp only: cuts)
  next
    case 4
    then have "32 - n = 8 + (8 + (8 - (n - 8)))"
      "mask_bytes n b = [c0, mask_byte (n - 8) c1, mask_byte 0 c2, mask_byte 0 c3]"
      by (auto simp: b)
    then show ?thesis by (simp only: cuts)
  next
    case 5
    then have "32 - n = 8 + (8 + (8 + (8 - n)))"
      "mask_bytes n b = [mask_byte n c0, mask_byte 0 c1, mask_byte 0 c2, mask_byte 0 c3]"
      by (auto simp: b)
    then show ?thesis by (simp only: cuts)
  qed (simp add: b)
qed

lemma nat4_inj: "length a = 4 \<Longrightarrow> length b = 4 \<Longrightarrow> nat4 a = nat4 b \<Longrightarrow> a = b"
  by (metis put_u32_be_u32 unat_be_u32 unsigned_word_eqI)

text \<open>\<open>IPNet.Contains\<close> for an IPv4 network and a 4-byte address.\<close>

definition net_contains :: "ipnet \<Rightarrow> ip \<Rightarrow> bool" where
  "net_contains n ip \<longleftrightarrow> mask_bytes (net_ones n) ip = net_ip n"

lemma hex_val_hex_char [simp]: "n < 16 \<Longrightarrow> hex_val (hex_char n) = n"
  by (auto simp: hex_val_def hex_char_def Let_def)

lemma split_join_host_port:
  assumes "h \<noteq> []" "CHR ''['' \<notin> set h" "CHR '']'' \<notin> set h"
    "CHR '':'' \<notin> set p" "CHR ''['' \<notin> set p" "CHR '']'' \<notin> set p"
  shows "split_host_port (join_host_port h p) = Some (h, p)"
proof -
  have tw: "takeWhile (\<lambda>c. c \<noteq> CHR '':'') (rev p @ CHR '':'' # t) = rev p" for t
    using assms(4) by (subst takeWhile_append2) auto
  have hb: "takeWhile (\<lambda>c. c \<noteq> CHR '']'') (h @ CHR '']'' # t) = h" for t
    using assms(3) by (subst takeWhile_append2) auto
  show ?thesis
  proof (cases "CHR '':'' \<in> set h")
    case True
    then show ?thesis
      using assms tw hb by (simp add: split_host_port_def join_host_port_def Let_def)
  next
    case False
    then show ?thesis
      using assms tw by (cases h) (auto simp: split_host_port_def join_host_port_def Let_def)
  qed
qed

end
