(* ===== verification/Router.thy ===== *)
theory Router
  imports Netaddr
begin

text \<open>
  Kernel routing and firewall state (\<open>internal/mesh/router.go\<close>): the \<open>linuxRouter\<close> with its
  tracked rules, opening the transport port, forwarding, per-spoke and per-announcement
  masquerading, the self-healing of foreign nftables chains, shutdown and the offline
  clean-up, and the scans that warn about blocking firewalls.

  The host is a record of operations over a state: running a firewall command (its output
  and whether it succeeded), reading a rule dump, looking a binary up, reading and writing
  the forwarding switch, and the nftables connection. Log lines are results of the scans and
  dropped elsewhere; \<open>rt_log\<close> says whether a logger is set.

  The locale \<open>iptables\<close> states what the program relies on from the rule commands. Under it
  the masquerade table is at every moment what it was before plus exactly the tracked rules,
  so that \<open>Close\<close> restores it.
\<close>

section \<open>Host operations\<close>

datatype nft_expr =
    MetaExpr string
  | CmpExpr bytes
  | PayloadExpr nat nat
  | VerdictAccept
  | OtherExpr

record nft_chain =
  ch_table :: "string option"
  ch_name :: string
  ch_hook :: "string option"
  ch_policy :: "string option"

record nft_rule =
  nr_chain :: nft_chain
  nr_exprs :: "nft_expr list"
  nr_userdata :: bytes
  nr_handle :: nat
  nr_position :: "nat option"

record 'w fw_ops =
  x_run :: "string \<Rightarrow> string list \<Rightarrow> 'w \<Rightarrow> (bool \<times> string) \<times> 'w"
  x_save :: "string \<Rightarrow> string list \<Rightarrow> 'w \<Rightarrow> string option"
  x_look :: "string \<Rightarrow> 'w \<Rightarrow> bool"
  x_read :: "'w \<Rightarrow> string option"
  x_write :: "string \<Rightarrow> 'w \<Rightarrow> bool \<times> 'w"
  nft_new :: "'w \<Rightarrow> bool"
  nft_chains :: "'w \<Rightarrow> nft_chain list option"
  nft_rules :: "nft_chain \<Rightarrow> 'w \<Rightarrow> nft_rule list option"
  nft_add :: "nft_rule \<Rightarrow> 'w \<Rightarrow> 'w"
  nft_del :: "nft_rule \<Rightarrow> 'w \<Rightarrow> goerr option \<times> 'w"
  nft_flush :: "'w \<Rightarrow> goerr option \<times> 'w"

section \<open>State\<close>

definition nftComment :: string where "nftComment = ''routewire-meshd''"
definition iptComment :: string where "iptComment = ''routewire-meshd''"
definition iptablesBin :: string where "iptablesBin = ''iptables''"
definition ip6tablesBin :: string where "ip6tablesBin = ''ip6tables''"

record linuxRouter =
  rt_iface :: string
  rt_port :: int
  rt_log :: bool
  added :: "string list"
  announceNAT :: "(string, string) gomap"
  fwdSet :: bool
  fwdFixed :: bool
  priorFwd :: string
  hasIP6 :: bool
  selfheal :: bool
  taggedChains :: "nft_chain list"

text \<open>Rule specifications, as the argument lists the code passes.\<close>

definition spoke_spec :: "string \<Rightarrow> string \<Rightarrow> string list" where
  "spoke_spec iface src = [''-s'', src, ''-o'', iface, ''-m'', ''comment'', ''--comment'', iptComment, ''-j'', ''MASQUERADE'']"

definition announce_spec :: "string \<Rightarrow> string \<Rightarrow> string list" where
  "announce_spec src dst = [''-s'', src, ''-d'', dst, ''-m'', ''comment'', ''--comment'', iptComment, ''-j'', ''MASQUERADE'']"

definition port_spec :: "int \<Rightarrow> string list" where
  "port_spec port = [''-p'', ''udp'', ''--dport'', int_str port, ''-j'', ''ACCEPT'']"

section \<open>Running commands\<close>

definition run_bin :: "'w fw_ops \<Rightarrow> string \<Rightarrow> string \<Rightarrow> string list \<Rightarrow> 'w \<Rightarrow> goerr option \<times> 'w" where
  "run_bin fw bin table args w =
     (case x_run fw bin (''-t'' # table # args) w of
        ((True, _), w') \<Rightarrow> (None, w')
      | ((False, out), w') \<Rightarrow> (Some (Errorf (bin @ out)), w'))"

definition run :: "'w fw_ops \<Rightarrow> string \<Rightarrow> string list \<Rightarrow> 'w \<Rightarrow> goerr option \<times> 'w" where
  "run fw table args w = run_bin fw iptablesBin table args w"

definition run6 :: "'w fw_ops \<Rightarrow> string \<Rightarrow> string list \<Rightarrow> 'w \<Rightarrow> goerr option \<times> 'w" where
  "run6 fw table args w = run_bin fw ip6tablesBin table args w"

text \<open>The probe of \<open>delIPTRule\<close>: the first \<open>-D\<close> becomes \<open>-C\<close>.\<close>

fun probe_of :: "string list \<Rightarrow> string list" where
  "probe_of [] = []"
| "probe_of (a # as) = (if a = ''-D'' then ''-C'' # as else a # probe_of as)"

definition delIPTRule :: "'w fw_ops \<Rightarrow> string \<Rightarrow> string list \<Rightarrow> 'w \<Rightarrow> 'w" where
  "delIPTRule fw bin args w =
     (case x_run fw bin (probe_of args) w of
        ((False, _), w1) \<Rightarrow> w1
      | ((True, _), w1) \<Rightarrow> snd (x_run fw bin args w1))"

section \<open>The transport port\<close>

definition open_family :: "'w fw_ops \<Rightarrow> string \<Rightarrow> int \<Rightarrow> 'w \<Rightarrow> goerr option \<times> 'w" where
  "open_family fw bin port w =
     (case run_bin fw bin ''filter'' (''-C'' # ''INPUT'' # port_spec port) w of
        (None, w1) \<Rightarrow> (None, w1)
      | (Some _, w1) \<Rightarrow> run_bin fw bin ''filter'' (''-I'' # ''INPUT'' # ''1'' # port_spec port) w1)"

definition openPort :: "'w fw_ops \<Rightarrow> linuxRouter \<Rightarrow> 'w \<Rightarrow> goerr option \<times> 'w" where
  "openPort fw r w =
     (case open_family fw iptablesBin (rt_port r) w of
        (Some e, w1) \<Rightarrow> (Some e, w1)
      | (None, w1) \<Rightarrow> if hasIP6 r then open_family fw ip6tablesBin (rt_port r) w1 else (None, w1))"

definition ensure_family :: "'w fw_ops \<Rightarrow> int \<Rightarrow> string \<Rightarrow> 'w \<Rightarrow> 'w" where
  "ensure_family fw port bin w =
     (case x_run fw bin (''-C'' # ''INPUT'' # port_spec port) w of
        ((True, _), w1) \<Rightarrow> w1
      | ((False, _), w1) \<Rightarrow> snd (x_run fw bin (''-I'' # ''INPUT'' # ''1'' # port_spec port) w1))"

definition EnsurePort :: "'w fw_ops \<Rightarrow> linuxRouter \<Rightarrow> 'w \<Rightarrow> goerr option \<times> 'w" where
  "EnsurePort fw r w =
     (None, ensure_family fw (rt_port r) ip6tablesBin (ensure_family fw (rt_port r) iptablesBin w))"

section \<open>Foreign nftables chains\<close>

definition portBE :: "int \<Rightarrow> bytes" where
  "portBE port = (let p = nat (port mod 65536) in [char_of (p div 256), char_of (p mod 256)])"

definition ifnameBytes :: "string \<Rightarrow> bytes" where
  "ifnameBytes name = take 16 (name @ replicate 16 (CHR 0x00))"

definition drop_chain :: "string \<Rightarrow> nft_chain \<Rightarrow> bool" where
  "drop_chain hook c \<longleftrightarrow> ch_table c \<noteq> None \<and> ch_hook c = Some hook \<and> ch_policy c = Some ''drop''"

definition tagged :: "nft_rule list \<Rightarrow> bool" where
  "tagged rules = list_ex (\<lambda>r. nr_userdata r = nftComment) rules"

definition top_position :: "nft_rule list \<Rightarrow> nat option" where
  "top_position rules = (case rules of [] \<Rightarrow> None | r # _ \<Rightarrow> Some (nr_handle r))"

definition input_rule :: "int \<Rightarrow> nft_chain \<Rightarrow> nft_rule list \<Rightarrow> nft_rule" where
  "input_rule port c rules =
     \<lparr>nr_chain = c,
      nr_exprs = [MetaExpr ''l4proto'', CmpExpr [CHR 0x11], PayloadExpr 2 2, CmpExpr (portBE port), VerdictAccept],
      nr_userdata = nftComment, nr_handle = 0, nr_position = top_position rules\<rparr>"

definition forward_rule :: "string \<Rightarrow> string \<Rightarrow> nft_chain \<Rightarrow> nft_rule list \<Rightarrow> nft_rule" where
  "forward_rule meta iface c rules =
     \<lparr>nr_chain = c, nr_exprs = [MetaExpr meta, CmpExpr (ifnameBytes iface), VerdictAccept],
      nr_userdata = nftComment, nr_handle = 0, nr_position = top_position rules\<rparr>"

text \<open>A chain is healed by adding the rules and flushing; \<open>True\<close> where that succeeded.\<close>

definition heal_chain ::
  "'w fw_ops \<Rightarrow> string \<Rightarrow> (nft_chain \<Rightarrow> nft_rule list \<Rightarrow> nft_rule list) \<Rightarrow> nft_chain \<Rightarrow> 'w \<Rightarrow> bool option \<times> 'w" where
  "heal_chain fw hook mk c w =
     (if \<not> drop_chain hook c then (None, w)
      else (case nft_rules fw c w of
          None \<Rightarrow> (None, w)
        | Some rules \<Rightarrow>
            if tagged rules then (None, w)
            else (case nft_flush fw (fold (nft_add fw) (mk c rules) w) of
                (Some _, w1) \<Rightarrow> (Some False, w1)
              | (None, w1) \<Rightarrow> (Some True, w1))))"

text \<open>\<open>applyInputSelfHeal\<close> logs without a nil check, so a missing logger panics (\<open>None\<close>) at the
  first chain it tries to open.\<close>

fun heal_inputs :: "'w fw_ops \<Rightarrow> int \<Rightarrow> nft_chain list \<Rightarrow> linuxRouter \<Rightarrow> 'w \<Rightarrow> (linuxRouter \<times> 'w) option" where
  "heal_inputs fw port [] r w = Some (r, w)"
| "heal_inputs fw port (c # cs) r w =
     (case heal_chain fw ''input'' (\<lambda>c rules. [input_rule port c rules]) c w of
        (None, w1) \<Rightarrow> heal_inputs fw port cs r w1
      | (Some ok, w1) \<Rightarrow>
          if \<not> rt_log r then None
          else heal_inputs fw port cs (if ok then r\<lparr>taggedChains := taggedChains r @ [c]\<rparr> else r) w1)"

definition applyInputSelfHeal :: "'w fw_ops \<Rightarrow> int \<Rightarrow> linuxRouter \<Rightarrow> 'w \<Rightarrow> (linuxRouter \<times> 'w) option" where
  "applyInputSelfHeal fw port r w =
     (if \<not> nft_new fw w then Some (r, w)
      else case nft_chains fw w of None \<Rightarrow> Some (r, w) | Some cs \<Rightarrow> heal_inputs fw port cs r w)"

fun heal_forwards :: "'w fw_ops \<Rightarrow> nft_chain list \<Rightarrow> linuxRouter \<Rightarrow> 'w \<Rightarrow> linuxRouter \<times> 'w" where
  "heal_forwards fw [] r w = (r, w)"
| "heal_forwards fw (c # cs) r w =
     (case heal_chain fw ''forward''
        (\<lambda>c rules. [forward_rule ''iifname'' (rt_iface r) c rules, forward_rule ''oifname'' (rt_iface r) c rules]) c w of
        (Some True, w1) \<Rightarrow> heal_forwards fw cs (r\<lparr>taggedChains := taggedChains r @ [c]\<rparr>) w1
      | (_, w1) \<Rightarrow> heal_forwards fw cs r w1)"

definition applyForwardSelfHeal :: "'w fw_ops \<Rightarrow> linuxRouter \<Rightarrow> 'w \<Rightarrow> linuxRouter \<times> 'w" where
  "applyForwardSelfHeal fw r w =
     (if fwdFixed r then (r, w)
      else
        (let r1 = r\<lparr>fwdFixed := True\<rparr> in
         if \<not> nft_new fw w then (r1, w)
         else case nft_chains fw w of None \<Rightarrow> (r1, w) | Some cs \<Rightarrow> heal_forwards fw cs r1 w))"

section \<open>Forwarding\<close>

definition Forwarding :: "'w fw_ops \<Rightarrow> linuxRouter \<Rightarrow> 'w \<Rightarrow> goerr option \<times> linuxRouter \<times> 'w" where
  "Forwarding fw r w =
     (if fwdSet r then (None, r, w)
      else
        (let (ok, w1) = (if map_option trim_space (x_read fw w) = Some ''1'' then (True, w) else x_write fw ''1'' w) in
         if \<not> ok then (Some (Errorf ''router: enable ip_forward''), r, w1)
         else
           (let r1 = r\<lparr>fwdSet := True\<rparr> in
            if selfheal r1 then (case applyForwardSelfHeal fw r1 w1 of (r2, w2) \<Rightarrow> (None, r2, w2))
            else (None, r1, w1))))"

section \<open>Masquerading\<close>

definition AddSource :: "'w fw_ops \<Rightarrow> ip \<Rightarrow> linuxRouter \<Rightarrow> 'w \<Rightarrow> goerr option \<times> linuxRouter \<times> 'w" where
  "AddSource fw spoke r w =
     (case to4 spoke of
        None \<Rightarrow> (Some (Errorf ''router: not IPv4''), r, w)
      | Some ip4 \<Rightarrow>
          (case Forwarding fw r w of
             (_, r1, w1) \<Rightarrow>
               (let src = ip_string ip4 @ ''/32'' in
                if src \<in> set (added r1) then (None, r1, w1)
                else (case run fw ''nat'' (''-I'' # ''POSTROUTING'' # ''1'' # spoke_spec (rt_iface r1) src) w1 of
                    (Some e, w2) \<Rightarrow> (Some e, r1, w2)
                  | (None, w2) \<Rightarrow> (None, r1\<lparr>added := added r1 @ [src]\<rparr>, w2)))))"

definition RemoveSource :: "'w fw_ops \<Rightarrow> ip \<Rightarrow> linuxRouter \<Rightarrow> 'w \<Rightarrow> goerr option \<times> linuxRouter \<times> 'w" where
  "RemoveSource fw spoke r w =
     (case to4 spoke of
        None \<Rightarrow> (None, r, w)
      | Some ip4 \<Rightarrow>
          (let src = ip_string ip4 @ ''/32'' in
           if src \<notin> set (added r) then (None, r, w)
           else (case run fw ''nat'' (''-D'' # ''POSTROUTING'' # spoke_spec (rt_iface r) src) w of
               (Some e, w1) \<Rightarrow> (Some e, r, w1)
             | (None, w1) \<Rightarrow> (None, r\<lparr>added := filter (\<lambda>s. s \<noteq> src) (added r)\<rparr>, w1))))"

definition nat_key :: "ipnet \<Rightarrow> ipnet \<Rightarrow> string" where
  "nat_key overlay sub = ipnet_string overlay @ ''|'' @ ipnet_string sub"

definition wanted_nat :: "ipnet \<Rightarrow> ipnet list \<Rightarrow> (string, string) gomap" where
  "wanted_nat overlay subnets =
     foldl (\<lambda>m sub. if to4 (net_ip sub) = None then m
                    else AList.update (nat_key overlay sub) (ipnet_string sub) m) [] subnets"

text \<open>The two reconciling loops; the first ranges over the tracked rules, the second over the
  wanted ones.\<close>

fun drop_nat :: "'w fw_ops \<Rightarrow> (string, string) gomap \<Rightarrow> (string, string) gomap \<Rightarrow> (string, string) gomap \<Rightarrow> 'w
    \<Rightarrow> (string, string) gomap \<times> 'w" where
  "drop_nat fw want [] m w = (m, w)"
| "drop_nat fw want ((key, dst) # ks) m w =
     (if key \<in> fst ` set want then drop_nat fw want ks m w
      else drop_nat fw want ks (AList.delete key m)
             (snd (run fw ''nat'' (''-D'' # ''POSTROUTING'' # announce_spec (before (CHR ''|'') key) dst) w)))"

fun add_nat :: "'w fw_ops \<Rightarrow> (string, string) gomap \<Rightarrow> (string, string) gomap \<Rightarrow> 'w
    \<Rightarrow> (string, string) gomap \<times> 'w" where
  "add_nat fw [] m w = (m, w)"
| "add_nat fw ((key, dst) # ks) m w =
     (if key \<in> fst ` set m then add_nat fw ks m w
      else (case run fw ''nat'' (''-I'' # ''POSTROUTING'' # ''1'' # announce_spec (before (CHR ''|'') key) dst) w of
          (Some _, w1) \<Rightarrow> add_nat fw ks m w1
        | (None, w1) \<Rightarrow> add_nat fw ks (AList.update key dst m) w1))"

definition AnnounceNAT :: "'w fw_ops \<Rightarrow> ipnet \<Rightarrow> ipnet list \<Rightarrow> linuxRouter \<Rightarrow> 'w \<Rightarrow> goerr option \<times> linuxRouter \<times> 'w" where
  "AnnounceNAT fw overlay subnets r w =
     (let want = wanted_nat overlay subnets in
      case drop_nat fw want (announceNAT r) (announceNAT r) w of
        (m1, w1) \<Rightarrow> (case add_nat fw want m1 w1 of (m2, w2) \<Rightarrow> (None, r\<lparr>announceNAT := m2\<rparr>, w2)))"

section \<open>Shutdown\<close>

definition first_err :: "goerr option \<Rightarrow> goerr option \<Rightarrow> goerr option" where
  "first_err a b = (case a of None \<Rightarrow> b | Some _ \<Rightarrow> a)"

fun del_rules :: "'w fw_ops \<Rightarrow> string list list \<Rightarrow> goerr option \<Rightarrow> 'w \<Rightarrow> goerr option \<times> 'w" where
  "del_rules fw [] e w = (e, w)"
| "del_rules fw (spec # specs) e w =
     (case run fw ''nat'' (''-D'' # ''POSTROUTING'' # spec) w of
        (e1, w1) \<Rightarrow> del_rules fw specs (first_err e e1) w1)"

definition del_tagged :: "'w fw_ops \<Rightarrow> nft_rule list \<Rightarrow> goerr option \<times> 'w \<Rightarrow> goerr option \<times> 'w" where
  "del_tagged fw rules st =
     fold (\<lambda>rule (e, w). case nft_del fw rule w of (e1, w1) \<Rightarrow> (first_err e e1, w1))
       (filter (\<lambda>r. nr_userdata r = nftComment) rules) st"

definition close_nft :: "'w fw_ops \<Rightarrow> nft_chain list \<Rightarrow> goerr option \<Rightarrow> 'w \<Rightarrow> goerr option \<times> 'w" where
  "close_nft fw chs e w =
     (if chs = [] \<or> \<not> nft_new fw w then (e, w)
      else
        (case fold (\<lambda>ch (e, w). case nft_rules fw ch w of None \<Rightarrow> (e, w) | Some rules \<Rightarrow> del_tagged fw rules (e, w))
           chs (e, w) of
           (e1, w1) \<Rightarrow> (case nft_flush fw w1 of (e2, w2) \<Rightarrow> (first_err e1 e2, w2))))"

definition port_del :: "int \<Rightarrow> string list" where
  "port_del port = ''-D'' # ''INPUT'' # port_spec port"

definition announce_specs :: "linuxRouter \<Rightarrow> string list list" where
  "announce_specs r = map (\<lambda>(key, dst). announce_spec (before (CHR ''|'') key) dst) (announceNAT r)"

definition spoke_specs :: "linuxRouter \<Rightarrow> string list list" where
  "spoke_specs r = map (spoke_spec (rt_iface r)) (added r)"

definition Close :: "'w fw_ops \<Rightarrow> linuxRouter \<Rightarrow> 'w \<Rightarrow> goerr option \<times> linuxRouter \<times> 'w" where
  "Close fw r w =
     (let (e1, w1) = del_rules fw (announce_specs r) None w;
          (e2, w2) = del_rules fw (spoke_specs r) e1 w1;
          w3 = delIPTRule fw iptablesBin (port_del (rt_port r)) w2;
          w4 = (if hasIP6 r then delIPTRule fw ip6tablesBin (port_del (rt_port r)) w3 else w3);
          (e5, w5) = close_nft fw (taggedChains r) e2 w4;
          (e6, w6) = (if fwdSet r \<and> priorFwd r \<noteq> []
                      then (case x_write fw (priorFwd r) w5 of
                              (ok, w') \<Rightarrow> (first_err e5 (if ok then None else Some (Errorf ''ip_forward'')), w'))
                      else (e5, w5))
      in (e6, r\<lparr>announceNAT := [], added := [], taggedChains := []\<rparr>, w6))"

section \<open>Construction\<close>

datatype router = NoopRouter | Linux linuxRouter

text \<open>The outer \<open>None\<close> is the panic of a missing logger under self-healing. The scans that only
  log are in \<open>Router_Scan\<close>.\<close>

definition NewLinuxRouter ::
  "'w fw_ops \<Rightarrow> string \<Rightarrow> int \<Rightarrow> bool \<Rightarrow> bool \<Rightarrow> 'w \<Rightarrow> (router option \<times> goerr option \<times> 'w) option" where
  "NewLinuxRouter fw iface port heal logger w =
     (if iface = [] then Some (None, Some (Errorf ''router: empty iface''), w)
      else if port \<le> 0 then Some (None, Some (Errorf ''router: invalid port''), w)
      else case x_read fw w of
        None \<Rightarrow> Some (None, Some (Errorf ''router: read ip_forward''), w)
      | Some prior \<Rightarrow>
          if \<not> x_look fw iptablesBin w then Some (Some NoopRouter, Some (Wrap [] ErrNoIptables), w)
          else
            (let r = \<lparr>rt_iface = iface, rt_port = port, rt_log = logger, added = [], announceNAT = [],
                      fwdSet = False, fwdFixed = False, priorFwd = trim_space prior,
                      hasIP6 = x_look fw ip6tablesBin w, selfheal = heal, taggedChains = []\<rparr> in
             case openPort fw r w of
               (Some e, w1) \<Rightarrow> Some (None, Some (Wrap ''router: open port'' e), w1)
             | (None, w1) \<Rightarrow>
                 if heal then map_option (\<lambda>(r', w2). (Some (Linux r'), None, w2)) (applyInputSelfHeal fw port r w1)
                 else Some (Some (Linux r), None, w1)))"

section \<open>What the rule commands promise\<close>

text \<open>
  \<open>rules w bin table chain\<close> is the rule list of a chain. Inserting at position 1 puts the
  rule first or fails without effect; checking tells whether the rule is there; deleting a
  rule that is there takes its first occurrence away. Commands without \<open>-t\<close> act on the
  filter table. The forwarding switch and the nftables connection are other state.
\<close>

definition same_tracked :: "linuxRouter \<Rightarrow> linuxRouter \<Rightarrow> bool" where
  "same_tracked r r' \<longleftrightarrow> added r' = added r \<and> announceNAT r' = announceNAT r \<and>
     rt_iface r' = rt_iface r \<and> rt_port r' = rt_port r \<and> hasIP6 r' = hasIP6 r \<and>
     priorFwd r' = priorFwd r \<and> selfheal r' = selfheal r"

locale iptables =
  fixes fw :: "'w fw_ops"
    and rules :: "'w \<Rightarrow> string \<Rightarrow> string \<Rightarrow> string \<Rightarrow> string list list"
  assumes insert_law: "x_run fw bin (''-t'' # t # ''-I'' # c # ''1'' # spec) w = ((ok, out), w') \<Longrightarrow>
      rules w' = (if ok then (rules w)(bin := (rules w bin)(t := (rules w bin t)(c := spec # rules w bin t c))) else rules w)"
    and delete_law: "x_run fw bin (''-t'' # t # ''-D'' # c # spec) w = ((ok, out), w') \<Longrightarrow>
      (ok \<longleftrightarrow> spec \<in> set (rules w bin t c)) \<and>
      rules w' = (rules w)(bin := (rules w bin)(t := (rules w bin t)(c := remove1 spec (rules w bin t c))))"
    and check_law: "x_run fw bin (''-t'' # t # ''-C'' # c # spec) w = ((ok, out), w') \<Longrightarrow>
      (ok \<longleftrightarrow> spec \<in> set (rules w bin t c)) \<and> rules w' = rules w"
    and default_table: "op \<in> {''-C'', ''-D'', ''-I''} \<Longrightarrow> x_run fw bin (op # args) w = x_run fw bin (''-t'' # ''filter'' # op # args) w"
    and write_frame: "x_write fw s w = (b, w') \<Longrightarrow> rules w' = rules w"
    and nft_add_frame: "rules (nft_add fw r w) = rules w"
    and nft_del_frame: "nft_del fw r w = (e, w') \<Longrightarrow> rules w' = rules w"
    and nft_flush_frame: "nft_flush fw w = (e, w') \<Longrightarrow> rules w' = rules w"
begin

abbreviation masq :: "'w \<Rightarrow> string list list" where
  "masq w \<equiv> rules w iptablesBin ''nat'' ''POSTROUTING''"

lemma run_insert:
  "run fw ''nat'' (''-I'' # ''POSTROUTING'' # ''1'' # spec) w = (e, w') \<Longrightarrow>
   masq w' = (if e = None then spec # masq w else masq w)"
  by (auto simp: run_def run_bin_def dest!: insert_law split: prod.splits bool.splits if_splits)

lemma run_delete:
  "run fw ''nat'' (''-D'' # ''POSTROUTING'' # spec) w = (e, w') \<Longrightarrow>
   (e = None \<longleftrightarrow> spec \<in> set (masq w)) \<and> masq w' = remove1 spec (masq w)"
  by (auto simp: run_def run_bin_def dest!: delete_law split: prod.splits bool.splits)

lemma fold_nft_add: "rules (fold (nft_add fw) rs w) = rules w"
  by (induction rs arbitrary: w) (auto simp: nft_add_frame)

lemma heal_chain_frame: "heal_chain fw hook mk c w = (b, w') \<Longrightarrow> rules w' = rules w"
  by (auto simp: heal_chain_def fold_nft_add dest!: nft_flush_frame split: if_splits option.splits prod.splits)

lemma heal_forwards_frame:
  "heal_forwards fw cs r w = (r', w') \<Longrightarrow> rules w' = rules w \<and> same_tracked r r'"
proof (induction cs arbitrary: r w)
  case (Cons c cs)
  obtain b w1 where h: "heal_chain fw ''forward''
      (\<lambda>c rules. [forward_rule ''iifname'' (rt_iface r) c rules, forward_rule ''oifname'' (rt_iface r) c rules]) c w = (b, w1)"
    by fastforce
  define r1 where "r1 = (if b = Some True then r\<lparr>taggedChains := taggedChains r @ [c]\<rparr> else r)"
  have "heal_forwards fw cs r1 w1 = (r', w')"
    using Cons.prems h by (auto simp: r1_def split: option.splits bool.splits)
  moreover have "same_tracked r r1" by (simp add: r1_def same_tracked_def)
  ultimately show ?case
    using Cons.IH heal_chain_frame [OF h] by (auto simp: same_tracked_def)
qed (simp add: same_tracked_def)

lemma applyForwardSelfHeal_frame:
  "applyForwardSelfHeal fw r w = (r', w') \<Longrightarrow> rules w' = rules w \<and> same_tracked r r'"
  by (auto simp: applyForwardSelfHeal_def Let_def same_tracked_def dest!: heal_forwards_frame
      split: if_splits option.splits)

lemma Forwarding_frame:
  "Forwarding fw r w = (e, r', w') \<Longrightarrow> rules w' = rules w \<and> same_tracked r r'"
  by (auto simp: Forwarding_def Let_def same_tracked_def dest!: write_frame applyForwardSelfHeal_frame
      split: if_splits prod.splits)

end

section \<open>Balance\<close>

text \<open>The rules a router has in the masquerade chain, and runs of its operations.\<close>

definition ann_rules :: "(string, string) gomap \<Rightarrow> string list multiset" where
  "ann_rules m = mset (map (\<lambda>(key, dst). announce_spec (before (CHR ''|'') key) dst) m)"

definition tracked_rules :: "linuxRouter \<Rightarrow> string list multiset" where
  "tracked_rules r = ann_rules (announceNAT r) + mset (spoke_specs r)"

definition router_ok :: "linuxRouter \<Rightarrow> bool" where
  "router_ok r \<longleftrightarrow> distinct (map fst (announceNAT r)) \<and> distinct (added r)"

inductive router_step :: "'w fw_ops \<Rightarrow> linuxRouter \<times> 'w \<Rightarrow> linuxRouter \<times> 'w \<Rightarrow> bool" for fw where
  step_Forwarding: "Forwarding fw r w = (e, r', w') \<Longrightarrow> router_step fw (r, w) (r', w')"
| step_AddSource: "AddSource fw ip r w = (e, r', w') \<Longrightarrow> router_step fw (r, w) (r', w')"
| step_RemoveSource: "RemoveSource fw ip r w = (e, r', w') \<Longrightarrow> router_step fw (r, w) (r', w')"
| step_AnnounceNAT: "AnnounceNAT fw overlay subnets r w = (e, r', w') \<Longrightarrow> router_step fw (r, w) (r', w')"
| step_EnsurePort: "EnsurePort fw r w = (e, w') \<Longrightarrow> router_step fw (r, w) (r, w')"

inductive_cases router_stepE: "router_step fw (r, w) (r', w')"

lemma ann_rules_Nil [simp]: "ann_rules [] = {#}"
  by (simp add: ann_rules_def)

lemma ann_rules_Cons [simp]:
  "ann_rules ((k, d) # m) = add_mset (announce_spec (before (CHR ''|'') k) d) (ann_rules m)"
  by (simp add: ann_rules_def)

lemma delete_notin: "k \<notin> fst ` set m \<Longrightarrow> AList.delete k m = m"
  by (induction m) (auto simp: AList.delete_eq)

lemma update_notin: "k \<notin> fst ` set m \<Longrightarrow> AList.update k d m = m @ [(k, d)]"
  by (induction m) auto

lemma ann_rules_delete:
  "distinct (map fst m) \<Longrightarrow> (k, d) \<in> set m \<Longrightarrow>
   ann_rules m = add_mset (announce_spec (before (CHR ''|'') k) d) (ann_rules (AList.delete k m))"
proof (induction m)
  case (Cons x m)
  obtain k' d' where x: "x = (k', d')" by (cases x)
  show ?case
  proof (cases "k' = k")
    case True
    then have nk: "k \<notin> fst ` set m" using Cons.prems(1) x by simp
    then have "(k, d) \<notin> set m" by (metis fst_conv image_eqI)
    then have "d' = d" using Cons.prems(2) x True by simp
    with True x delete_notin [OF nk] show ?thesis by simp
  next
    case False
    with Cons x show ?thesis by (auto simp: add_mset_commute)
  qed
qed simp

lemma ann_rules_update:
  "k \<notin> fst ` set m \<Longrightarrow>
   ann_rules (AList.update k d m) = add_mset (announce_spec (before (CHR ''|'') k) d) (ann_rules m)"
  by (simp add: update_notin ann_rules_def)

lemma delete_keys:
  "distinct (map fst m) \<Longrightarrow> distinct (map fst (AList.delete k m))"
  "fst ` set (AList.delete k m) = fst ` set m - {k}"
  "(j, d) \<in> set m \<Longrightarrow> j \<noteq> k \<Longrightarrow> (j, d) \<in> set (AList.delete k m)"
  by (simp add: distinct_delete) (auto simp: AList.delete_eq)

lemma mset_map_filter_neq:
  "distinct xs \<Longrightarrow> x \<in> set xs \<Longrightarrow> mset (map f xs) = add_mset (f x) (mset (map f (filter (\<lambda>y. y \<noteq> x) xs)))"
proof (induction xs)
  case (Cons y xs)
  show ?case
  proof (cases "y = x")
    case True
    with Cons.prems(1) have "filter (\<lambda>z. z \<noteq> x) xs = xs" by (auto simp: filter_id_conv)
    with True show ?thesis by simp
  next
    case False
    with Cons show ?thesis by (auto simp: add_mset_commute)
  qed
qed simp

context iptables
begin

abbreviation balanced :: "string list multiset \<Rightarrow> linuxRouter \<Rightarrow> 'w \<Rightarrow> bool" where
  "balanced base r w \<equiv> mset (masq w) = base + tracked_rules r \<and> router_ok r"

lemma drop_nat_balanced:
  "drop_nat fw want ks m w = (m', w') \<Longrightarrow> mset (masq w) = base + ann_rules m \<Longrightarrow>
   distinct (map fst m) \<Longrightarrow> distinct (map fst ks) \<Longrightarrow> set ks \<subseteq> set m \<Longrightarrow>
   mset (masq w') = base + ann_rules m' \<and> distinct (map fst m') \<and>
   fst ` set m' = fst ` set m - (fst ` set ks - fst ` set want)"
proof (induction ks arbitrary: m w)
  case (Cons kd ks)
  obtain key dst where kd: "kd = (key, dst)" by (cases kd)
  show ?case
  proof (cases "key \<in> fst ` set want")
    case True
    with Cons.prems Cons.IH [of m w] kd show ?thesis by auto
  next
    case False
    let ?spec = "announce_spec (before (CHR ''|'') key) dst"
    let ?m = "AList.delete key m"
    obtain e w1 where d: "run fw ''nat'' (''-D'' # ''POSTROUTING'' # ?spec) w = (e, w1)" by fastforce
    have rest: "drop_nat fw want ks ?m w1 = (m', w')" using Cons.prems(1) False d kd by simp
    have "ann_rules m = add_mset ?spec (ann_rules ?m)"
      using Cons.prems(3,5) kd by (intro ann_rules_delete) auto
    then have b: "mset (masq w1) = base + ann_rules ?m"
      using run_delete [OF d] Cons.prems(2) by simp
    have "set ks \<subseteq> set ?m"
    proof
      fix x assume x: "x \<in> set ks"
      then have "fst x \<noteq> key" using Cons.prems(4) kd by (metis distinct.simps(2) fst_conv image_eqI list.simps(9) set_map)
      with x Cons.prems(5) kd delete_keys(3) [of "fst x" "snd x" m key] show "x \<in> set ?m" by auto
    qed
    from Cons.IH [OF rest b _ _ this] Cons.prems(3,4) False kd show ?thesis
      by (auto simp: delete_keys)
  qed
qed simp

lemma add_nat_balanced:
  "add_nat fw ks m w = (m', w') \<Longrightarrow> mset (masq w) = base + ann_rules m \<Longrightarrow>
   distinct (map fst m) \<Longrightarrow>
   mset (masq w') = base + ann_rules m' \<and> distinct (map fst m') \<and>
   fst ` set m \<subseteq> fst ` set m' \<and> fst ` set m' \<subseteq> fst ` set m \<union> fst ` set ks \<and>
   ((\<forall>spec w. fst (run fw ''nat'' (''-I'' # ''POSTROUTING'' # ''1'' # spec) w) = None) \<longrightarrow>
      fst ` set m' = fst ` set m \<union> fst ` set ks)"
proof (induction ks arbitrary: m w)
  case (Cons kd ks)
  obtain key dst where kd: "kd = (key, dst)" by (cases kd)
  show ?case
  proof (cases "key \<in> fst ` set m")
    case True
    then have "add_nat fw ks m w = (m', w')" using Cons.prems(1) kd by simp
    from Cons.IH [OF this Cons.prems(2,3)] True kd show ?thesis by auto
  next
    case False
    let ?spec = "announce_spec (before (CHR ''|'') key) dst"
    obtain e w1 where d: "run fw ''nat'' (''-I'' # ''POSTROUTING'' # ''1'' # ?spec) w = (e, w1)" by fastforce
    define m1 where "m1 = (if e = None then AList.update key dst m else m)"
    have rest: "add_nat fw ks m1 w1 = (m', w')"
      using Cons.prems(1) False d kd by (auto simp: m1_def split: option.splits)
    have b: "mset (masq w1) = base + ann_rules m1"
      using run_insert [OF d] Cons.prems(2) False by (simp add: m1_def ann_rules_update)
    have k: "distinct (map fst m1)" "fst ` set m1 = (if e = None then insert key (fst ` set m) else fst ` set m)"
      using Cons.prems(3) False by (auto simp: m1_def distinct_update update_notin)
    have "e = None" if "\<forall>spec w. fst (run fw ''nat'' (''-I'' # ''POSTROUTING'' # ''1'' # spec) w) = None"
      using that d by (metis fst_conv)
    with Cons.IH [OF rest b k(1)] k kd show ?thesis by (auto split: if_splits)
  qed
qed simp

lemma AnnounceNAT_balanced:
  assumes "AnnounceNAT fw overlay subnets r w = (e, r', w')" "balanced base r w"
  shows "balanced base r' w'" and "added r' = added r"
    and "fst ` set (announceNAT r') \<subseteq> fst ` set (wanted_nat overlay subnets)"
    and "(\<forall>spec w. fst (run fw ''nat'' (''-I'' # ''POSTROUTING'' # ''1'' # spec) w) = None) \<Longrightarrow>
      fst ` set (announceNAT r') = fst ` set (wanted_nat overlay subnets)"
proof -
  let ?want = "wanted_nat overlay subnets" and ?m = "announceNAT r"
  obtain m1 w1 where d: "drop_nat fw ?want ?m ?m w = (m1, w1)" by fastforce
  obtain m2 where a: "add_nat fw ?want m1 w1 = (m2, w')" and r': "r' = r\<lparr>announceNAT := m2\<rparr>"
    using assms(1) d by (auto simp: AnnounceNAT_def Let_def split: prod.splits)
  have b0: "mset (masq w) = (base + mset (spoke_specs r)) + ann_rules ?m" and ok: "router_ok r"
    using assms(2) by (auto simp: tracked_rules_def)
  note d' = drop_nat_balanced [OF d b0]
  have m1: "mset (masq w1) = (base + mset (spoke_specs r)) + ann_rules m1" "distinct (map fst m1)"
    "fst ` set m1 = fst ` set ?m - (fst ` set ?m - fst ` set ?want)"
    using d' ok by (auto simp: router_ok_def)
  note a' = add_nat_balanced [OF a m1(1,2)]
  show "balanced base r' w'"
    using a' ok by (simp add: r' tracked_rules_def spoke_specs_def router_ok_def)
  show "added r' = added r" by (simp add: r')
  show "fst ` set (announceNAT r') \<subseteq> fst ` set ?want"
    using a' m1(3) by (auto simp: r')
  show "fst ` set (announceNAT r') = fst ` set ?want"
    if "\<forall>spec w. fst (run fw ''nat'' (''-I'' # ''POSTROUTING'' # ''1'' # spec) w) = None"
    using a' m1(3) that by (auto simp: r')
qed

lemma AddSource_balanced:
  assumes "AddSource fw ip r w = (e, r', w')" "balanced base r w"
  shows "balanced base r' w'"
proof (cases "to4 ip")
  case None
  with assms show ?thesis by (simp add: AddSource_def)
next
  case (Some ip4)
  let ?src = "ip_string ip4 @ ''/32''"
  obtain e1 r1 w1 where f: "Forwarding fw r w = (e1, r1, w1)" by (cases "Forwarding fw r w")
  have b1: "balanced base r1 w1"
    using Forwarding_frame [OF f] assms(2)
    by (simp add: same_tracked_def tracked_rules_def spoke_specs_def router_ok_def)
  show ?thesis
  proof (cases "?src \<in> set (added r1)")
    case True
    with assms(1) Some f b1 show ?thesis by (simp add: AddSource_def)
  next
    case False
    obtain e2 w2 where i: "run fw ''nat'' (''-I'' # ''POSTROUTING'' # ''1'' # spoke_spec (rt_iface r1) ?src) w1 = (e2, w2)"
      by fastforce
    with run_insert [OF i] assms(1) Some f False b1 show ?thesis
      by (auto simp: AddSource_def Let_def tracked_rules_def spoke_specs_def router_ok_def split: option.splits)
  qed
qed

lemma RemoveSource_balanced:
  assumes "RemoveSource fw ip r w = (e, r', w')" "balanced base r w"
  shows "balanced base r' w'"
proof (cases "to4 ip")
  case None
  with assms show ?thesis by (simp add: RemoveSource_def)
next
  case (Some ip4)
  let ?src = "ip_string ip4 @ ''/32''"
  show ?thesis
  proof (cases "?src \<in> set (added r)")
    case False
    with assms Some show ?thesis by (simp add: RemoveSource_def)
  next
    case True
    obtain e2 w2 where i: "run fw ''nat'' (''-D'' # ''POSTROUTING'' # spoke_spec (rt_iface r) ?src) w = (e2, w2)"
      by fastforce
    have m: "mset (spoke_specs r) = add_mset (spoke_spec (rt_iface r) ?src)
        (mset (map (spoke_spec (rt_iface r)) (filter (\<lambda>s. s \<noteq> ?src) (added r))))"
      unfolding spoke_specs_def using assms(2) True by (intro mset_map_filter_neq) (auto simp: router_ok_def)
    then have "spoke_spec (rt_iface r) ?src \<in># mset (masq w)"
      using assms(2) by (simp add: tracked_rules_def)
    then have "e2 = None" using run_delete [OF i] by simp
    then have r': "r' = r\<lparr>added := filter (\<lambda>s. s \<noteq> ?src) (added r)\<rparr>" "w' = w2"
      using assms(1) Some True i by (simp_all add: RemoveSource_def Let_def)
    show ?thesis
      using run_delete [OF i] assms(2) m
      by (simp add: r' tracked_rules_def spoke_specs_def router_ok_def)
  qed
qed

lemma ensure_family_masq: "masq (ensure_family fw port bin w) = masq w"
proof -
  obtain ok out w1 where c: "x_run fw bin (''-C'' # ''INPUT'' # port_spec port) w = ((ok, out), w1)"
    by (metis surj_pair)
  obtain ok' out' w2 where i: "x_run fw bin (''-I'' # ''INPUT'' # ''1'' # port_spec port) w1 = ((ok', out'), w2)"
    by (metis surj_pair)
  have "rules w1 = rules w" using check_law c by (metis default_table insertI1)
  moreover have "masq w2 = masq w1"
    using insert_law [OF i [unfolded default_table [of "''-I''", simplified]]] by simp
  ultimately show ?thesis
    using c i by (cases ok) (simp_all add: ensure_family_def)
qed

lemma delIPTRule_port_masq: "masq (delIPTRule fw bin (port_del port) w) = masq w"
proof -
  obtain ok out w1 where c: "x_run fw bin (''-C'' # ''INPUT'' # port_spec port) w = ((ok, out), w1)"
    by (metis surj_pair)
  obtain ok' out' w2 where i: "x_run fw bin (''-D'' # ''INPUT'' # port_spec port) w1 = ((ok', out'), w2)"
    by (metis surj_pair)
  have "rules w1 = rules w" using check_law c by (metis default_table insertI1)
  moreover have "masq w2 = masq w1"
    using delete_law [OF i [unfolded default_table [of "''-D''", simplified]]] by simp
  ultimately show ?thesis
    using c i by (cases ok) (simp_all add: delIPTRule_def port_del_def)
qed

lemma router_step_balanced: "router_step fw (r, w) (r', w') \<Longrightarrow> balanced base r w \<Longrightarrow> balanced base r' w'"
proof (erule router_stepE)
  fix e
  assume "Forwarding fw r w = (e, r', w')" "balanced base r w"
  then show "balanced base r' w'"
    using Forwarding_frame
    by (fastforce simp: same_tracked_def tracked_rules_def spoke_specs_def router_ok_def)
next
  fix e
  assume "EnsurePort fw r w = (e, w')" "balanced base r w" "r' = r"
  then show "balanced base r' w'" by (auto simp: EnsurePort_def ensure_family_masq)
next
  fix overlay subnets e
  assume a: "AnnounceNAT fw overlay subnets r w = (e, r', w')" and b: "balanced base r w"
  show "balanced base r' w'" by (rule AnnounceNAT_balanced(1) [OF a b])
qed (use AddSource_balanced RemoveSource_balanced in blast)+

lemma router_run_balanced:
  "(router_step fw)\<^sup>*\<^sup>* s t \<Longrightarrow> balanced base (fst s) (snd s) \<Longrightarrow> balanced base (fst t) (snd t)"
  by (induction rule: rtranclp_induct) (auto dest: router_step_balanced)

lemma del_rules_removes:
  "del_rules fw specs e0 w = (e, w') \<Longrightarrow> mset (masq w) = base + mset specs \<Longrightarrow>
   mset (masq w') = base \<and> e = e0"
proof (induction specs arbitrary: e0 w)
  case (Cons spec specs)
  obtain e1 w1 where d: "run fw ''nat'' (''-D'' # ''POSTROUTING'' # spec) w = (e1, w1)" by fastforce
  have "spec \<in># mset (masq w)" unfolding Cons.prems(2) by simp
  then have "spec \<in> set (masq w)" by simp
  then have e1: "e1 = None" using run_delete [OF d] by simp
  have b: "mset (masq w1) = base + mset specs" using run_delete [OF d] Cons.prems(2) by simp
  have "del_rules fw specs e0 w1 = (e, w')"
    using Cons.prems(1) d e1 by (cases e0) (simp_all add: first_err_def)
  from Cons.IH [OF this b] show ?case .
qed simp

lemma close_nft_rules: "close_nft fw chs e w = (e', w') \<Longrightarrow> rules w' = rules w"
proof -
  have t: "rules (snd (del_tagged fw rs st)) = rules (snd st)" for rs st
  proof -
    have "rules (snd (fold (\<lambda>rule (e, w). case nft_del fw rule w of (e1, w1) \<Rightarrow> (first_err e e1, w1)) qs st)) =
        rules (snd st)" for qs
      by (induction qs arbitrary: st) (auto split: prod.splits dest: nft_del_frame)
    then show ?thesis by (simp add: del_tagged_def)
  qed
  have f: "rules (snd (fold (\<lambda>ch (e, w). case nft_rules fw ch w of None \<Rightarrow> (e, w) | Some rules \<Rightarrow> del_tagged fw rules (e, w))
      cs st)) = rules (snd st)" for cs st
    by (induction cs arbitrary: st) (auto split: prod.splits option.splits simp: t)
  assume c: "close_nft fw chs e w = (e', w')"
  show "rules w' = rules w"
  proof (cases "chs = [] \<or> \<not> nft_new fw w")
    case True
    with c show ?thesis by (auto simp: close_nft_def)
  next
    case False
    obtain e1 w1 where g: "fold (\<lambda>ch (e, w). case nft_rules fw ch w of None \<Rightarrow> (e, w) | Some rules \<Rightarrow> del_tagged fw rules (e, w))
        chs (e, w) = (e1, w1)" by fastforce
    obtain e2 w2 where h: "nft_flush fw w1 = (e2, w2)" by fastforce
    have "w' = w2" using c False g h by (simp add: close_nft_def)
    then show ?thesis using f [of chs "(e, w)"] g nft_flush_frame [OF h] by simp
  qed
qed

lemma Close_restores:
  assumes "Close fw r w = (e, r', w')" "balanced base r w"
  shows "mset (masq w') = base \<and> tracked_rules r' = {#} \<and> taggedChains r' = []"
proof -
  obtain e1 w1 where a: "del_rules fw (announce_specs r) None w = (e1, w1)" by fastforce
  obtain e2 w2 where b: "del_rules fw (spoke_specs r) e1 w1 = (e2, w2)" by fastforce
  define w3 where "w3 = delIPTRule fw iptablesBin (port_del (rt_port r)) w2"
  define w4 where "w4 = (if hasIP6 r then delIPTRule fw ip6tablesBin (port_del (rt_port r)) w3 else w3)"
  obtain e5 w5 where c: "close_nft fw (taggedChains r) e2 w4 = (e5, w5)" by fastforce
  have bal: "mset (masq w) = (base + mset (spoke_specs r)) + mset (announce_specs r)"
    using assms(2) by (simp add: tracked_rules_def ann_rules_def announce_specs_def)
  have "mset (masq w2) = base"
    using del_rules_removes [OF b] del_rules_removes [OF a bal] by simp
  then have "mset (masq w5) = base"
    using close_nft_rules [OF c] by (simp add: w4_def w3_def delIPTRule_port_masq)
  moreover obtain e6 w6 where x: "x_write fw (priorFwd r) w5 = (e6, w6)" by fastforce
  moreover have "w' \<in> {w5, w6}" "r' = r\<lparr>announceNAT := [], added := [], taggedChains := []\<rparr>"
    using assms(1) unfolding Close_def a b w3_def [symmetric] Let_def prod.case w4_def [symmetric] c x
    by (auto split: if_splits)
  ultimately show ?thesis
    using write_frame [OF x] by (auto simp: tracked_rules_def spoke_specs_def)
qed

end

section \<open>A host in memory\<close>

text \<open>Rule tables as a function, the forwarding switch as a string, no nftables. The dump of the
  nat table lists its POSTROUTING rules.\<close>

record mem_host =
  mh_rules :: "string \<Rightarrow> string \<Rightarrow> string \<Rightarrow> string list list"
  mh_fwd :: string

definition set_chain :: "string \<Rightarrow> string \<Rightarrow> string \<Rightarrow> string list list \<Rightarrow> mem_host \<Rightarrow> mem_host" where
  "set_chain bin t c rs w =
     w\<lparr>mh_rules := (mh_rules w)(bin := (mh_rules w bin)(t := (mh_rules w bin t)(c := rs)))\<rparr>"

definition mem_op :: "string \<Rightarrow> string \<Rightarrow> string \<Rightarrow> string \<Rightarrow> string list \<Rightarrow> mem_host \<Rightarrow> (bool \<times> string) \<times> mem_host" where
  "mem_op bin t op c args w =
     (let rs = mh_rules w bin t c in
      if op = ''-C'' then ((args \<in> set rs, []), w)
      else if op = ''-D'' then ((args \<in> set rs, []), set_chain bin t c (remove1 args rs) w)
      else if op = ''-I'' \<and> args \<noteq> [] \<and> hd args = ''1'' then ((True, []), set_chain bin t c (tl args # rs) w)
      else ((False, ''bad command''), w))"

definition mem_exec :: "string \<Rightarrow> string list \<Rightarrow> mem_host \<Rightarrow> (bool \<times> string) \<times> mem_host" where
  "mem_exec bin args w =
     (case args of
        a # b # r \<Rightarrow>
          if a = ''-t'' then (case r of op # c # spec \<Rightarrow> mem_op bin b op c spec w | _ \<Rightarrow> ((False, ''bad command''), w))
          else mem_op bin ''filter'' a b r w
      | _ \<Rightarrow> ((False, ''bad command''), w))"

definition rule_line :: "string list \<Rightarrow> string" where
  "rule_line spec = ''-A POSTROUTING '' @ join '' '' spec"

definition mem_save :: "string \<Rightarrow> string list \<Rightarrow> mem_host \<Rightarrow> string option" where
  "mem_save tool args w =
     (if args = [''-t'', ''nat''] then
        Some (join [CHR 0x0A] (map rule_line
          (mh_rules w (if tool = ''iptables-save'' then iptablesBin else ip6tablesBin) ''nat'' ''POSTROUTING'')))
      else None)"

definition mem_fw :: "mem_host fw_ops" where
  "mem_fw = \<lparr>x_run = mem_exec, x_save = mem_save, x_look = \<lambda>b w. True,
     x_read = \<lambda>w. Some (mh_fwd w), x_write = \<lambda>s w. (True, w\<lparr>mh_fwd := s\<rparr>),
     nft_new = \<lambda>w. False, nft_chains = \<lambda>w. None, nft_rules = \<lambda>c w. None, nft_add = \<lambda>r w. w,
     nft_del = \<lambda>r w. (None, w), nft_flush = \<lambda>w. (None, w)\<rparr>"

definition empty_host :: mem_host where
  "empty_host = \<lparr>mh_rules = \<lambda>_ _ _. [], mh_fwd = ''0''\<rparr>"

interpretation memhost: iptables mem_fw mh_rules
proof
  fix op :: string and bin args and w :: mem_host
  assume "op \<in> {''-C'', ''-D'', ''-I''}"
  then show "x_run mem_fw bin (op # args) w = x_run mem_fw bin (''-t'' # ''filter'' # op # args) w"
    by (cases args) (auto simp: mem_fw_def mem_exec_def)
qed (auto simp: mem_fw_def mem_exec_def mem_op_def set_chain_def Let_def)

section \<open>Properties\<close>


definition demo_router :: linuxRouter where
  "demo_router = \<lparr>rt_iface = ''wgmesh0'', rt_port = 51820, rt_log = True, added = [], announceNAT = [],
     fwdSet = False, fwdFixed = False, priorFwd = ''0'', hasIP6 = True, selfheal = False, taggedChains = []\<rparr>"




text \<open>Re-asserting the transport port puts the accept rule first in the INPUT chain of both
  families where it is missing and changes nothing where it is present, so that repeating it
  every tick never piles rules up.\<close>

theorem ensure_port_idempotent:
  assumes "EnsurePort mem_fw r w = (e, w')"
  shows "e = None \<and>
     (\<forall>bin \<in> {iptablesBin, ip6tablesBin}. mh_rules w' bin ''filter'' ''INPUT'' =
        (if port_spec (rt_port r) \<in> set (mh_rules w bin ''filter'' ''INPUT'') then mh_rules w bin ''filter'' ''INPUT''
         else port_spec (rt_port r) # mh_rules w bin ''filter'' ''INPUT'')) \<and>
     EnsurePort mem_fw r w' = (None, w')"
proof -
  have f: "ensure_family mem_fw port bin v =
      (if port_spec port \<in> set (mh_rules v bin ''filter'' ''INPUT'') then v
       else set_chain bin ''filter'' ''INPUT'' (port_spec port # mh_rules v bin ''filter'' ''INPUT'') v)" for port bin v
    by (simp add: ensure_family_def mem_fw_def mem_exec_def mem_op_def Let_def)
  show ?thesis
    using assms by (auto simp: EnsurePort_def f set_chain_def iptablesBin_def ip6tablesBin_def)
qed

theorem ensure_port_idempotent_witness:
  "\<exists>w'. EnsurePort mem_fw demo_router empty_host = (None, w') \<and> EnsurePort mem_fw demo_router w' = (None, w')"
proof -
  obtain e w' where a: "EnsurePort mem_fw demo_router empty_host = (e, w')" by fastforce
  from ensure_port_idempotent [OF a] a show ?thesis by auto
qed

text \<open>Closing the router deletes the accept rule for its port even when the rule was the
  operator's own, which opening the port found in place and did not add.\<close>

theorem close_deletes_foreign_accept:
  "\<exists>r w w'. NewLinuxRouter mem_fw ''wgmesh0'' 51820 False True
        (set_chain iptablesBin ''filter'' ''INPUT'' [port_spec 51820] empty_host) = Some (Some (Linux r), None, w) \<and>
     mh_rules w iptablesBin ''filter'' ''INPUT'' = [port_spec 51820] \<and>
     Close mem_fw r w = (None, r, w') \<and> mh_rules w' iptablesBin ''filter'' ''INPUT'' = []"
  by (simp add: NewLinuxRouter_def openPort_def open_family_def run_bin_def mem_fw_def mem_exec_def mem_op_def
      set_chain_def empty_host_def Let_def iptablesBin_def ip6tablesBin_def Close_def announce_specs_def spoke_specs_def
      delIPTRule_def port_del_def close_nft_def)

end
