(* ===== verification/Router_Scan.thy ===== *)
theory Router_Scan
  imports Router
begin

text \<open>
  The scans of \<open>internal/mesh/router.go\<close> that warn about blocking firewalls, and the offline
  clean-up of \<open>meshd stop\<close>. A scan returns the chains it warns about; \<open>None\<close> is the panic of
  indexing the fields of a rule line, which is proved never to happen.
\<close>

section \<open>Scanning rule dumps\<close>

definition mentionsPort :: "string \<Rightarrow> string \<Rightarrow> bool" where
  "mentionsPort line port = list_ex (\<lambda>f. trim_set f '','' = port) (str_fields (trim_set line ''{}''))"

record scan =
  sc_chain :: string
  sc_policy :: string
  sc_body :: "string list"

definition no_scan :: scan where
  "no_scan = \<lparr>sc_chain = [], sc_policy = [], sc_body = []\<rparr>"

text \<open>The closure \<open>found\<close>: a tracked chain with a DROP policy and no excusing rule is reported.\<close>

definition found :: "(string \<Rightarrow> bool) \<Rightarrow> scan \<Rightarrow> string list" where
  "found excused s =
     (if sc_chain s = [] \<or> sc_policy s \<noteq> ''DROP'' then []
      else if list_ex excused (sc_body s) then [] else [sc_chain s])"

definition scan_line :: "string \<Rightarrow> (string \<Rightarrow> bool) \<Rightarrow> string \<Rightarrow> scan \<Rightarrow> (string list \<times> scan) option" where
  "scan_line hook excused line0 s =
     (let line = trim_space line0 in
      if has_prefix line '':'' then
        (case str_fields (trim_prefix line '':'') of
           c # p # _ \<Rightarrow> Some (found excused s, if c = hook then \<lparr>sc_chain = c, sc_policy = p, sc_body = []\<rparr> else no_scan)
         | _ \<Rightarrow> Some (found excused s, no_scan))
      else if has_prefix line ''-A '' then
        (case str_fields line of
           _ # c # _ \<Rightarrow> Some ([], if c = hook then s\<lparr>sc_body := sc_body s @ [line]\<rparr> else s)
         | _ \<Rightarrow> None)
      else if has_prefix line ''COMMIT'' then Some (found excused s, no_scan)
      else Some ([], s))"

fun scan_lines :: "string \<Rightarrow> (string \<Rightarrow> bool) \<Rightarrow> string list \<Rightarrow> scan \<Rightarrow> string list option" where
  "scan_lines hook excused [] s = Some (found excused s)"
| "scan_lines hook excused (l # ls) s =
     (case scan_line hook excused l s of
        None \<Rightarrow> None
      | Some (ws, s') \<Rightarrow> map_option (\<lambda>r. ws @ r) (scan_lines hook excused ls s'))"

definition warnBlockedFromSave :: "string \<Rightarrow> string \<Rightarrow> string list option" where
  "warnBlockedFromSave port dump =
     scan_lines ''INPUT'' (\<lambda>l. mentionsPort l port) (split_on (CHR 0x0A) dump) no_scan"

definition warnBlockedPort :: "'w fw_ops \<Rightarrow> bool \<Rightarrow> int \<Rightarrow> 'w \<Rightarrow> (string \<times> string list option) list" where
  "warnBlockedPort fw logger port w =
     (if \<not> logger then []
      else List.map_filter
        (\<lambda>tool. map_option (\<lambda>out. (tool, warnBlockedFromSave (int_str port) out)) (x_save fw tool [] w))
        [''iptables-save'', ''ip6tables-save''])"

definition warnLegacyForward :: "'w fw_ops \<Rightarrow> linuxRouter \<Rightarrow> 'w \<Rightarrow> (string \<times> string list option) list" where
  "warnLegacyForward fw r w =
     List.map_filter
       (\<lambda>tool. map_option (\<lambda>out. (tool,
            scan_lines ''FORWARD'' (\<lambda>l. contains_str l (''-i '' @ rt_iface r) \<or> contains_str l (''-o '' @ rt_iface r))
              (split_on (CHR 0x0A) out) no_scan)) (x_save fw tool [] w))
       [''iptables-save'', ''ip6tables-save'']"

section \<open>Scanning nftables\<close>

definition rule_compares :: "bytes \<Rightarrow> nft_rule \<Rightarrow> bool" where
  "rule_compares b r = list_ex (\<lambda>e. e = CmpExpr b) (nr_exprs r)"

text \<open>Chains that would drop the port; a chain whose rules cannot be read counts as blocking.\<close>

definition warnBlockedInputNft :: "'w fw_ops \<Rightarrow> int \<Rightarrow> 'w \<Rightarrow> nft_chain list" where
  "warnBlockedInputNft fw port w =
     (if \<not> nft_new fw w then []
      else case nft_chains fw w of
        None \<Rightarrow> []
      | Some cs \<Rightarrow> filter (\<lambda>c. drop_chain ''input'' c \<and>
            (case nft_rules fw c w of None \<Rightarrow> True | Some rs \<Rightarrow> \<not> list_ex (rule_compares (portBE port)) rs)) cs)"

definition warnForwardNft :: "'w fw_ops \<Rightarrow> linuxRouter \<Rightarrow> 'w \<Rightarrow> nft_chain list" where
  "warnForwardNft fw r w =
     (if \<not> nft_new fw w then []
      else case nft_chains fw w of
        None \<Rightarrow> []
      | Some cs \<Rightarrow> filter (\<lambda>c. drop_chain ''forward'' c \<and>
            (case nft_rules fw c w of None \<Rightarrow> False | Some rs \<Rightarrow> \<not> list_ex (rule_compares (ifnameBytes (rt_iface r))) rs)) cs)"

section \<open>Offline clean-up\<close>

text \<open>The sweep turns the saved rules that carry the comment into deletions; both dumps are
  swept with the IPv4 command.\<close>

definition sweep_args :: "string \<Rightarrow> string list option" where
  "sweep_args line0 =
     (let line = trim_space line0 in
      if has_prefix line ''-A POSTROUTING'' \<and> contains_str line iptComment
      then Some (''-t'' # ''nat'' # str_fields (''-D POSTROUTING'' @ drop 14 line)) else None)"

definition sweep_tool :: "'w fw_ops \<Rightarrow> string \<Rightarrow> 'w \<Rightarrow> 'w" where
  "sweep_tool fw tool w =
     (case x_save fw tool [''-t'', ''nat''] w of
        None \<Rightarrow> w
      | Some out \<Rightarrow> fold (delIPTRule fw iptablesBin) (List.map_filter sweep_args (split_on (CHR 0x0A) out)) w)"

definition sweep_chain :: "'w fw_ops \<Rightarrow> nft_chain \<Rightarrow> bool \<times> 'w \<Rightarrow> bool \<times> 'w" where
  "sweep_chain fw c st =
     (case nft_rules fw c (snd st) of
        None \<Rightarrow> st
      | Some rs \<Rightarrow>
          fold (\<lambda>r (flush, w). case nft_del fw r w of (None, w1) \<Rightarrow> (True, w1) | (Some _, w1) \<Rightarrow> (flush, w1))
            (filter (\<lambda>r. nr_userdata r = nftComment) rs) st)"

definition sweep_nft :: "'w fw_ops \<Rightarrow> 'w \<Rightarrow> 'w" where
  "sweep_nft fw w =
     (if \<not> nft_new fw w then w
      else case nft_chains fw w of
        None \<Rightarrow> w
      | Some cs \<Rightarrow> (case fold (sweep_chain fw) cs (False, w) of
          (flush, w1) \<Rightarrow> if flush then snd (nft_flush fw w1) else w1))"

definition spoke_del :: "string \<Rightarrow> ip \<Rightarrow> string list option" where
  "spoke_del iface ip = map_option
     (\<lambda>ip4. ''-t'' # ''nat'' # ''-D'' # ''POSTROUTING'' # spoke_spec iface (ip_string ip4 @ ''/32'')) (to4 ip)"

definition announce_del :: "ipnet \<Rightarrow> ipnet \<Rightarrow> string list option" where
  "announce_del overlay sub =
     (if to4 (net_ip sub) = None then None
      else Some (''-t'' # ''nat'' # ''-D'' # ''POSTROUTING'' # announce_spec (ipnet_string overlay) (ipnet_string sub)))"

definition CleanupFirewall ::
  "'w fw_ops \<Rightarrow> string \<Rightarrow> int \<Rightarrow> ipnet option \<Rightarrow> ipnet list \<Rightarrow> ip list \<Rightarrow> 'w \<Rightarrow> 'w" where
  "CleanupFirewall fw iface port overlay announce spokeIPs w =
     (let w1 = fold (\<lambda>fam. delIPTRule fw fam (port_del port)) [iptablesBin, ip6tablesBin] w;
          w2 = fold (delIPTRule fw iptablesBin) (List.map_filter (spoke_del iface) spokeIPs) w1;
          w3 = (case overlay of None \<Rightarrow> w2
                | Some o' \<Rightarrow> fold (delIPTRule fw iptablesBin) (List.map_filter (announce_del o') announce) w2);
          w4 = fold (sweep_tool fw) [''iptables-save'', ''ip6tables-save''] w3
      in sweep_nft fw w4)"

section \<open>Laws\<close>

lemma split_on_ex_nonempty: "\<exists>c \<in> set s. c \<noteq> d \<Longrightarrow> \<exists>w \<in> set (split_on d s). w \<noteq> []"
  by (induction s) (auto split: list.splits)

lemma last_trim_right: "trim_right_space s \<noteq> [] \<Longrightarrow> \<not> is_space (last (trim_right_space s))"
  unfolding trim_right_space_def by (simp add: last_rev hd_dropWhile)

lemma str_fields_rule_line:
  assumes "has_prefix (trim_space l) ''-A ''"
  shows "\<exists>a c r. str_fields (trim_space l) = a # c # r"
proof -
  obtain t where t: "trim_space l = ''-A '' @ t" using assms by (auto simp: has_prefix_iff)
  have "\<not> is_space (last (trim_space l))"
    using last_trim_right [of "trim_left_space l"] t by (simp add: trim_space_def)
  then have "t \<noteq> []" and last: "\<not> is_space (last t)"
    using t by (auto simp: is_space_def split: if_splits)
  define g where "g = (\<lambda>c. if is_space c then CHR '' '' else c)"
  have "last t \<in> set t" using \<open>t \<noteq> []\<close> by simp
  moreover have "g (last t) \<noteq> CHR '' ''" using last by (auto simp: g_def is_space_def)
  ultimately obtain w where w: "w \<in> set (split_on (CHR '' '') (map g t))" "w \<noteq> []"
    using split_on_ex_nonempty [of "map g t"] by (metis image_eqI list.set_map)
  have "map g (trim_space l) = ''-A'' @ CHR '' '' # map g t"
    by (simp add: t g_def is_space_def)
  then have "str_fields (trim_space l) = ''-A'' # filter (\<lambda>w. w \<noteq> []) (split_on (CHR '' '') (map g t))"
    using split_on_append [of "CHR '' ''" "''-A''" "map g t"] by (simp add: str_fields_def g_def)
  moreover have "filter (\<lambda>w. w \<noteq> []) (split_on (CHR '' '') (map g t)) \<noteq> []"
    using w by (auto simp: filter_empty_conv)
  ultimately show ?thesis by (metis neq_Nil_conv)
qed

lemma scan_line_no_panic: "scan_line hook ex l s \<noteq> None"
  using str_fields_rule_line [of l] by (auto simp: scan_line_def Let_def split: list.splits)

lemma scan_lines_no_panic: "scan_lines hook ex ls s \<noteq> None"
proof (induction ls arbitrary: s)
  case (Cons l ls)
  then show ?case using scan_line_no_panic [of hook ex l s] by (auto split: option.splits)
qed simp

section \<open>Properties\<close>

text \<open>The scan of a rule dump never indexes past the fields of a line: on every dump, also
  a malformed one, it ends with a list of warnings.\<close>

theorem firewall_scan_total: "\<exists>ws. warnBlockedFromSave port dump = Some ws"
  using scan_lines_no_panic by (simp add: warnBlockedFromSave_def)

text \<open>In a dump as \<open>iptables-save\<close> prints it, with every chain of the table declared before the
  first rule, the scan reports INPUT as blocking the port although a rule accepts it: the next
  chain declaration closes the block before its rules are read.\<close>

theorem firewall_scan_false_alarm:
  "warnBlockedFromSave ''51820''
     (join [CHR 0x0A] [''*filter'', '':INPUT DROP [0:0]'', '':FORWARD ACCEPT [0:0]'', '':OUTPUT ACCEPT [0:0]'',
        ''-A INPUT -p udp --dport 51820 -j ACCEPT'', ''COMMIT'']) = Some [''INPUT''] \<and>
   warnBlockedFromSave ''51820''
     (join [CHR 0x0A] [''*filter'', '':INPUT DROP [0:0]'', ''-A INPUT -p udp --dport 51820 -j ACCEPT'', ''COMMIT'']) = Some []"
  by code_simp

end
