(* ===== verification/Cleanup.thy ===== *)
theory Cleanup
  imports Router_Scan
begin

text \<open>
  What \<open>CleanupFirewall\<close> of \<open>internal/mesh/router.go\<close> leaves behind. It runs without the books
  of a daemon: from the configuration, and from the tag every masquerade rule of the program
  carries.

  The locale \<open>iptables_save\<close> adds to the laws of the rule commands what a dump of the nat table
  lists, for rules whose words are not empty and hold no space; the memory host is an
  interpretation.
\<close>

section \<open>Rules and their lines\<close>

definition words_ok :: "string list \<Rightarrow> bool" where
  "words_ok spec \<longleftrightarrow> spec \<noteq> [] \<and> (\<forall>w \<in> set spec. w \<noteq> [] \<and> (\<forall>c \<in> set w. \<not> is_space c))"

definition tagged_rule :: "string list \<Rightarrow> bool" where
  "tagged_rule spec \<longleftrightarrow> contains_str (rule_line spec) iptComment"

definition masq_del :: "string list \<Rightarrow> string list" where
  "masq_del spec = ''-t'' # ''nat'' # ''-D'' # ''POSTROUTING'' # spec"

lemma space_words: "\<not> is_space c \<Longrightarrow> c \<noteq> CHR '' ''"
  by (auto simp: is_space_def)

lemma map_space_join:
  "(\<forall>w \<in> set ws. \<forall>c \<in> set w. \<not> is_space c) \<Longrightarrow>
   map (\<lambda>c. if is_space c then CHR '' '' else c) (join '' '' ws) = join '' '' ws"
proof (induction ws)
  case (Cons w ws)
  have "map (\<lambda>c. if is_space c then CHR '' '' else c) w = w" using Cons.prems by (intro map_idI) auto
  with Cons show ?case by (cases "ws = []") (simp_all add: join_single_Cons is_space_def)
qed simp

lemma str_fields_join: "words_ok ws \<Longrightarrow> str_fields (join '' '' ws) = ws"
proof -
  assume w: "words_ok ws"
  then have "\<forall>w \<in> set ws. CHR '' '' \<notin> set w" by (auto simp: words_ok_def is_space_def)
  with w show ?thesis
    using split_on_join [of ws "CHR '' ''"] by (auto simp: str_fields_def map_space_join words_ok_def filter_id_conv)
qed

lemma last_join: "ws \<noteq> [] \<Longrightarrow> last ws \<noteq> [] \<Longrightarrow> join sep ws \<noteq> [] \<and> last (join sep ws) = last (last ws)"
  by (induction sep ws rule: join.induct) (auto simp: last_append)

lemma trim_rule_line: "words_ok s \<Longrightarrow> trim_space (rule_line s) = rule_line s"
proof -
  assume w: "words_ok s"
  then have l: "last s \<in> set s" by (simp add: words_ok_def)
  with w have "last s \<noteq> []" by (auto simp: words_ok_def)
  then have "last (last s) \<in> set (last s)" by simp
  with w l have "\<not> is_space (last (last s))" unfolding words_ok_def by blast
  with last_join [of s "'' ''"] \<open>last s \<noteq> []\<close> w have "join '' '' s \<noteq> []" "\<not> is_space (last (join '' '' s))"
    by (auto simp: words_ok_def)
  then show ?thesis by (intro trim_space_ends) (simp_all add: rule_line_def is_space_def)
qed

lemma sweep_args_line: "words_ok s \<Longrightarrow> sweep_args (rule_line s) = (if tagged_rule s then Some (masq_del s) else None)"
proof -
  assume w: "words_ok s"
  then have "words_ok (''-D'' # ''POSTROUTING'' # s)" by (simp add: words_ok_def is_space_def)
  moreover have "join '' '' (''-D'' # ''POSTROUTING'' # s) = ''-D POSTROUTING'' @ drop 14 (rule_line s)"
    using w by (simp add: words_ok_def rule_line_def join_single_Cons)
  ultimately have "str_fields (''-D POSTROUTING'' @ drop 14 (rule_line s)) = ''-D'' # ''POSTROUTING'' # s"
    using str_fields_join by metis
  moreover have "has_prefix (rule_line s) ''-A POSTROUTING''" by (simp add: rule_line_def has_prefix_def)
  ultimately show ?thesis
    by (simp add: sweep_args_def trim_rule_line [OF w] tagged_rule_def masq_del_def)
qed

lemma sweep_args_other: "\<not> has_prefix (trim_space l) ''-A POSTROUTING'' \<Longrightarrow> sweep_args l = None"
  by (simp add: sweep_args_def)

lemma map_filter_sweep:
  "List.map_filter sweep_args ls = List.map_filter sweep_args (filter (\<lambda>l. has_prefix (trim_space l) ''-A POSTROUTING'') ls)"
  by (induction ls) (auto simp: map_filter_simps sweep_args_other split: option.splits)

lemma map_filter_rule_lines:
  "\<forall>s \<in> set ss. words_ok s \<Longrightarrow> List.map_filter sweep_args (map rule_line ss) = map masq_del (filter tagged_rule ss)"
  by (induction ss) (auto simp: map_filter_simps sweep_args_line)

section \<open>Deleting rules\<close>

definition drop_rule :: "string \<Rightarrow> string \<Rightarrow> string \<Rightarrow> string list \<Rightarrow> (string \<Rightarrow> string \<Rightarrow> string \<Rightarrow> string list list)
    \<Rightarrow> (string \<Rightarrow> string \<Rightarrow> string \<Rightarrow> string list list)" where
  "drop_rule bin t c spec R = R(bin := (R bin)(t := (R bin t)(c := remove1 spec (R bin t c))))"

lemma drop_rule_masq: "drop_rule iptablesBin ''nat'' ''POSTROUTING'' spec R iptablesBin ''nat'' ''POSTROUTING'' =
    remove1 spec (R iptablesBin ''nat'' ''POSTROUTING'')"
  by (simp add: drop_rule_def)

lemma drop_rule_other: "(bin', t', c') \<noteq> (bin, t, c) \<Longrightarrow> drop_rule bin t c spec R bin' t' c' = R bin' t' c'"
  by (auto simp: drop_rule_def)

context iptables
begin

lemma delIPTRule_masq:
  "rules (delIPTRule fw iptablesBin (masq_del spec) w) = drop_rule iptablesBin ''nat'' ''POSTROUTING'' spec (rules w)"
proof -
  obtain ok out w1 where c: "x_run fw iptablesBin (''-t'' # ''nat'' # ''-C'' # ''POSTROUTING'' # spec) w = ((ok, out), w1)"
    by (metis surj_pair)
  obtain ok' out' w2 where d: "x_run fw iptablesBin (''-t'' # ''nat'' # ''-D'' # ''POSTROUTING'' # spec) w1 = ((ok', out'), w2)"
    by (metis surj_pair)
  show ?thesis
    using check_law [OF c] delete_law [OF d] c d
    by (cases ok) (auto simp: delIPTRule_def masq_del_def drop_rule_def remove1_idem)
qed

lemma delIPTRule_port:
  "rules (delIPTRule fw bin (port_del port) w) = drop_rule bin ''filter'' ''INPUT'' (port_spec port) (rules w)"
proof -
  obtain ok out w1 where c: "x_run fw bin (''-C'' # ''INPUT'' # port_spec port) w = ((ok, out), w1)"
    by (metis surj_pair)
  obtain ok' out' w2 where d: "x_run fw bin (''-D'' # ''INPUT'' # port_spec port) w1 = ((ok', out'), w2)"
    by (metis surj_pair)
  show ?thesis
    using check_law [OF c [unfolded default_table [of "''-C''", simplified]]]
      delete_law [OF d [unfolded default_table [of "''-D''", simplified]]] c d
    by (cases ok) (auto simp: delIPTRule_def port_del_def drop_rule_def remove1_idem)
qed

lemma fold_masq_del:
  "mset (masq (fold (delIPTRule fw iptablesBin) (map masq_del specs) w)) = mset (masq w) - mset specs"
proof (induction specs arbitrary: w)
  case (Cons s specs)
  have "mset (masq (delIPTRule fw iptablesBin (masq_del s) w)) = mset (masq w) - {#s#}"
    by (simp add: delIPTRule_masq drop_rule_masq)
  with Cons [of "delIPTRule fw iptablesBin (masq_del s) w"] show ?case by simp
qed simp

lemma fold_masq_del_other:
  "(bin, t) \<noteq> (iptablesBin, ''nat'') \<Longrightarrow> rules (fold (delIPTRule fw iptablesBin) (map masq_del specs) w) bin t = rules w bin t"
proof (induction specs arbitrary: w)
  case (Cons s specs)
  have "rules (delIPTRule fw iptablesBin (masq_del s) w) bin t = rules w bin t"
    using Cons.prems by (intro ext) (auto simp: delIPTRule_masq drop_rule_other)
  with Cons show ?case by simp
qed simp

lemma sweep_nft_rules: "rules (sweep_nft fw w) = rules w"
proof -
  have dels: "rules (snd (fold (\<lambda>r (flush, w). case nft_del fw r w of (None, w1) \<Rightarrow> (True, w1) | (Some _, w1) \<Rightarrow> (flush, w1)) rs st)) =
      rules (snd st)" for rs st
  proof (induction rs arbitrary: st)
    case (Cons r rs)
    then show ?case by (cases st; cases "nft_del fw r (snd st)") (auto dest: nft_del_frame split: option.splits)
  qed simp
  have "rules (snd (fold (sweep_chain fw) cs st)) = rules (snd st)" for cs st
    by (induction cs arbitrary: st) (simp_all add: sweep_chain_def dels split: option.splits)
  from this [of _ "(False, w)"] show ?thesis
    by (auto simp: sweep_nft_def dest: nft_flush_frame split: option.splits prod.splits)
       (metis nft_flush_frame prod.collapse snd_conv)+
qed

end

lemma contains_mid: "contains_str (a @ p @ b) p"
proof (induction a)
  case Nil
  have "has_prefix (p @ b) p" by (simp add: has_prefix_def)
  then show ?case by (cases "p @ b") auto
qed simp

lemma own_rules_tagged: "tagged_rule (spoke_spec iface src)" "tagged_rule (announce_spec src dst)"
proof -
  have "rule_line (spoke_spec iface src) = (''-A POSTROUTING -s '' @ src @ '' -o '' @ iface @ '' -m comment --comment '') @ iptComment @ '' -j MASQUERADE''"
    "rule_line (announce_spec src dst) = (''-A POSTROUTING -s '' @ src @ '' -d '' @ dst @ '' -m comment --comment '') @ iptComment @ '' -j MASQUERADE''"
    by (simp_all add: rule_line_def spoke_spec_def announce_spec_def)
  with contains_mid show "tagged_rule (spoke_spec iface src)" "tagged_rule (announce_spec src dst)"
    unfolding tagged_rule_def by metis+
qed

lemma config_dels:
  "\<exists>specs. List.map_filter (spoke_del iface) ips = map masq_del specs \<and> list_all tagged_rule specs"
  "\<exists>specs. List.map_filter (announce_del ov) subs = map masq_del specs \<and> list_all tagged_rule specs"
proof -
  have *: "\<exists>specs. List.map_filter f xs = map masq_del specs \<and> list_all tagged_rule specs"
    if "\<And>x a. f x = Some a \<Longrightarrow> \<exists>s. a = masq_del s \<and> tagged_rule s" for f :: "'x \<Rightarrow> string list option" and xs
  proof (induction xs)
    case (Cons x xs)
    then obtain specs where "List.map_filter f xs = map masq_del specs" "list_all tagged_rule specs" by blast
    then show ?case
    proof (cases "f x")
      case (Some a)
      with that obtain s where "a = masq_del s" "tagged_rule s" by blast
      with Some \<open>List.map_filter f xs = map masq_del specs\<close> \<open>list_all tagged_rule specs\<close> show ?thesis
        by (intro exI [of _ "s # specs"]) (simp add: map_filter_simps)
    qed (simp add: map_filter_simps, blast)
  qed (simp add: map_filter_simps)
  show "\<exists>specs. List.map_filter (spoke_del iface) ips = map masq_del specs \<and> list_all tagged_rule specs"
    by (rule *) (auto simp: spoke_del_def masq_del_def own_rules_tagged)
  show "\<exists>specs. List.map_filter (announce_del ov) subs = map masq_del specs \<and> list_all tagged_rule specs"
    by (rule *) (auto simp: announce_del_def masq_del_def own_rules_tagged split: if_splits)
qed

section \<open>Sweeping\<close>

text \<open>The lines of a dump that name the masquerade chain are its rules, in order.\<close>

locale iptables_save = iptables +
  assumes save_law: "(tool, bin) \<in> {(''iptables-save'', iptablesBin), (''ip6tables-save'', ip6tablesBin)} \<Longrightarrow>
      \<forall>s \<in> set (rules w bin ''nat'' ''POSTROUTING''). words_ok s \<Longrightarrow>
      \<exists>out. x_save fw tool [''-t'', ''nat''] w = Some out \<and>
        filter (\<lambda>l. has_prefix (trim_space l) ''-A POSTROUTING'') (split_on (CHR 0x0A) out) =
          map rule_line (rules w bin ''nat'' ''POSTROUTING'')"
begin

lemma sweep_tool_del:
  assumes "(tool, bin) \<in> {(''iptables-save'', iptablesBin), (''ip6tables-save'', ip6tablesBin)}"
    "\<forall>s \<in> set (rules w bin ''nat'' ''POSTROUTING''). words_ok s"
  shows "sweep_tool fw tool w = fold (delIPTRule fw iptablesBin) (map masq_del (filter tagged_rule (rules w bin ''nat'' ''POSTROUTING''))) w"
proof -
  obtain out where "x_save fw tool [''-t'', ''nat''] w = Some out"
    "filter (\<lambda>l. has_prefix (trim_space l) ''-A POSTROUTING'') (split_on (CHR 0x0A) out) = map rule_line (rules w bin ''nat'' ''POSTROUTING'')"
    using save_law [OF assms] by blast
  then show ?thesis using map_filter_sweep [of "split_on (CHR 0x0A) out"] map_filter_rule_lines [OF assms(2)]
    by (simp add: sweep_tool_def)
qed

lemma CleanupFirewall_rules:
  assumes "CleanupFirewall fw iface port ov announce ips w = w'"
    "\<forall>bin \<in> {iptablesBin, ip6tablesBin}. \<forall>s \<in> set (rules w bin ''nat'' ''POSTROUTING''). words_ok s"
  shows "mset (masq w') = filter_mset (\<lambda>s. \<not> tagged_rule s) (mset (masq w))"
    "bin \<in> {iptablesBin, ip6tablesBin} \<Longrightarrow> rules w' bin ''filter'' ''INPUT'' = remove1 (port_spec port) (rules w bin ''filter'' ''INPUT'')"
proof -
  define w1 where "w1 = fold (\<lambda>fam. delIPTRule fw fam (port_del port)) [iptablesBin, ip6tablesBin] w"
  obtain d2 where d2: "List.map_filter (spoke_del iface) ips = map masq_del d2" "list_all tagged_rule d2" using config_dels(1) by blast
  define w2 where "w2 = fold (delIPTRule fw iptablesBin) (map masq_del d2) w1"
  obtain d3 where d3: "(case ov of None \<Rightarrow> [] | Some o' \<Rightarrow> List.map_filter (announce_del o') announce) = map masq_del d3" "list_all tagged_rule d3"
    using config_dels(2) [of _ announce] by (cases ov) (auto intro: that [of "[]"])
  define w3 where "w3 = fold (delIPTRule fw iptablesBin) (map masq_del d3) w2"
  define d4 where "d4 = filter tagged_rule (masq w3)"
  define w4 where "w4 = fold (delIPTRule fw iptablesBin) (map masq_del d4) w3"
  define d5 where "d5 = filter tagged_rule (rules w4 ip6tablesBin ''nat'' ''POSTROUTING'')"
  define w5 where "w5 = fold (delIPTRule fw iptablesBin) (map masq_del d5) w4"
  have bins: "iptablesBin \<noteq> ip6tablesBin" by (simp add: iptablesBin_def ip6tablesBin_def)
  have r1: "rules w1 bin t = (if t = ''filter'' then (rules w bin t)(''INPUT'' := remove1 (port_spec port) (rules w bin t ''INPUT'')) else rules w bin t)"
    if "bin \<in> {iptablesBin, ip6tablesBin}" for bin t
    using that bins by (auto simp: w1_def delIPTRule_port drop_rule_def)
  have nat: "rules v ip6tablesBin ''nat'' = rules w ip6tablesBin ''nat''" if "v \<in> {w1, w2, w3, w4}" for v
    using that bins r1 [of ip6tablesBin] by (auto simp: w2_def w3_def w4_def fold_masq_del_other)
  have m3: "mset (masq w3) = mset (masq w) - mset d2 - mset d3"
    using r1 [of iptablesBin "''nat''"] by (simp add: w3_def w2_def fold_masq_del)
  then have "\<forall>s \<in> set (masq w3). words_ok s" using assms(2) by (metis in_diffD insertI1 set_mset_mset)
  then have s4: "sweep_tool fw ''iptables-save'' w3 = w4" using sweep_tool_del by (simp add: w4_def d4_def)
  have s5: "sweep_tool fw ''ip6tables-save'' w4 = w5"
    using sweep_tool_del [of "''ip6tables-save''" ip6tablesBin w4] assms(2) nat by (simp add: w5_def d5_def)
  have "(case ov of None \<Rightarrow> w2 | Some o' \<Rightarrow> fold (delIPTRule fw iptablesBin) (List.map_filter (announce_del o') announce) w2) = w3"
    using d3(1) by (cases ov) (simp_all add: w3_def)
  then have "CleanupFirewall fw iface port ov announce ips w = sweep_nft fw w5"
    unfolding CleanupFirewall_def Let_def w1_def [symmetric] d2(1) w2_def [symmetric] using s4 s5 by simp
  then have w': "rules w' = rules w5" using assms(1) sweep_nft_rules by simp
  have tag: "filter_mset (\<lambda>s. \<not> tagged_rule s) (mset d) = {#}" if "list_all tagged_rule d" for d
    using that by (induction d) auto
  let ?M = "filter_mset (\<lambda>s. \<not> tagged_rule s) (mset (masq w))"
  have "mset (masq w4) = mset (masq w3) - filter_mset tagged_rule (mset (masq w3))"
    by (simp add: w4_def d4_def fold_masq_del)
  also have "\<dots> = filter_mset (\<lambda>s. \<not> tagged_rule s) (mset (masq w3))"
    using multiset_partition [of "mset (masq w3)" tagged_rule] by (metis add_diff_cancel_left')
  also have "\<dots> = ?M" unfolding m3 filter_diff_mset tag [OF d2(2)] tag [OF d3(2)] by simp
  finally have m4: "mset (masq w4) = ?M" .
  have "mset (masq w5) = ?M - mset d5" by (simp add: w5_def fold_masq_del m4)
  also have "\<dots> = ?M"
  proof (rule multiset_eqI)
    fix s
    have "tagged_rule s \<or> count (mset d5) s = 0" unfolding count_eq_zero_iff by (auto simp: d5_def)
    then show "count (?M - mset d5) s = count ?M s" by (elim disjE) (simp_all only: count_diff count_filter_mset, simp_all)
  qed
  finally show "mset (masq w') = ?M" by (simp add: w')
  show "bin \<in> {iptablesBin, ip6tablesBin} \<Longrightarrow> rules w' bin ''filter'' ''INPUT'' = remove1 (port_spec port) (rules w bin ''filter'' ''INPUT'')"
    using r1 [of bin "''filter''"] by (simp add: w' w5_def w4_def w3_def w2_def fold_masq_del_other)
qed

end

lemma rule_line_no_nl: "words_ok s \<Longrightarrow> CHR 0x0A \<notin> set (rule_line s)"
proof -
  have sp: "is_space (CHR 0x0A)" by (simp add: is_space_def)
  have "CHR 0x0A \<notin> set (join '' '' ws)" if "\<forall>w \<in> set ws. \<forall>c \<in> set w. \<not> is_space c" for ws
    using that sp
  proof (induction ws)
    case (Cons w ws)
    then show ?case by (cases "ws = []") (auto simp: join_single_Cons)
  qed simp
  then show "words_ok s \<Longrightarrow> CHR 0x0A \<notin> set (rule_line s)" by (auto simp: rule_line_def words_ok_def)
qed

interpretation memsave: iptables_save mem_fw mh_rules
proof
  fix tool bin and w :: mem_host
  let ?rs = "mh_rules w bin ''nat'' ''POSTROUTING''"
  assume tb: "(tool, bin) \<in> {(''iptables-save'', iptablesBin), (''ip6tables-save'', ip6tablesBin)}" and ok: "\<forall>s \<in> set ?rs. words_ok s"
  let ?out = "join [CHR 0x0A] (map rule_line ?rs)"
  have "x_save mem_fw tool [''-t'', ''nat''] w = Some ?out" using tb by (auto simp: mem_fw_def mem_save_def)
  moreover have "filter (\<lambda>l. has_prefix (trim_space l) ''-A POSTROUTING'') (split_on (CHR 0x0A) ?out) = map rule_line ?rs"
  proof (cases "?rs = []")
    case True
    then show ?thesis by (simp add: trim_space_no_space has_prefix_def)
  next
    case False
    have "has_prefix (trim_space l) ''-A POSTROUTING''" if "l \<in> rule_line ` set ?rs" for l
      using that ok trim_rule_line by (auto simp: rule_line_def has_prefix_def)
    with False split_on_join [of "map rule_line ?rs" "CHR 0x0A"] ok rule_line_no_nl show ?thesis
      by (simp add: filter_id_conv)
  qed
  ultimately show "\<exists>out. x_save mem_fw tool [''-t'', ''nat''] w = Some out \<and>
      filter (\<lambda>l. has_prefix (trim_space l) ''-A POSTROUTING'') (split_on (CHR 0x0A) out) = map rule_line ?rs" by blast
qed

section \<open>Properties\<close>

lemma tracked_tagged: "s \<in># tracked_rules r \<Longrightarrow> tagged_rule s"
  by (auto simp: tracked_rules_def ann_rules_def spoke_specs_def own_rules_tagged)



end
