(* ===== verification/Derive.thy ===== *)
theory Derive
  imports Netaddr
begin

unbundle bit_operations_syntax

text \<open>
  Everything a node derives from the mesh secret and its name
  (\<open>internal/mesh/crypto.go\<close>), the node identity (\<open>internal/engine/identity.go\<close>) and the
  sealed boxes the roster is stored in (\<open>internal/engine/crypto.go\<close>).

  The primitives themselves (HKDF, SHA-256, Curve25519, Ed25519, secretbox) are the
  parameter \<open>crypto\<close>: every definition takes them as an argument. What the program relies on
  is stated by \<open>crypto_ok\<close>: the documented output lengths, that a signature verifies under
  the matching public key, and that a box opens under the key and nonce it was sealed with.
  Randomness (\<open>crypto/rand\<close>) is an argument too: \<open>None\<close> where the reader fails.
\<close>

section \<open>Primitives\<close>

record crypto =
  hkdf_read :: "bytes \<Rightarrow> bytes \<Rightarrow> bytes \<Rightarrow> nat \<Rightarrow> bytes"
  sha256 :: "bytes \<Rightarrow> bytes"
  wg_public :: "bytes \<Rightarrow> bytes"
  ed_public :: "bytes \<Rightarrow> bytes"
  ed_sign :: "bytes \<Rightarrow> bytes \<Rightarrow> bytes"
  ed_verify :: "bytes \<Rightarrow> bytes \<Rightarrow> bytes \<Rightarrow> bool"
  box_seal :: "bytes \<Rightarrow> bytes \<Rightarrow> bytes \<Rightarrow> bytes"
  box_open :: "bytes \<Rightarrow> bytes \<Rightarrow> bytes \<Rightarrow> bytes option"

definition lengths_ok :: "crypto \<Rightarrow> bool" where
  "lengths_ok cr \<longleftrightarrow>
     (\<forall>k s i n. n \<le> 8160 \<longrightarrow> length (hkdf_read cr k s i n) = n) \<and> (\<forall>m. length (sha256 cr m) = 32) \<and>
     (\<forall>s. length (ed_public cr s) = 32) \<and> (\<forall>s m. length (ed_sign cr s m) = 64)"

definition signatures_ok :: "crypto \<Rightarrow> bool" where
  "signatures_ok cr \<longleftrightarrow> (\<forall>s m. ed_verify cr (ed_public cr s) m (ed_sign cr s m))"

definition boxes_ok :: "crypto \<Rightarrow> bool" where
  "boxes_ok cr \<longleftrightarrow>
     (\<forall>k n m. box_open cr k n (box_seal cr k n m) = Some m) \<and>
     (\<forall>k n m. length (box_seal cr k n m) = length m + 16)"

definition crypto_ok :: "crypto \<Rightarrow> bool" where
  "crypto_ok cr \<longleftrightarrow> lengths_ok cr \<and> signatures_ok cr \<and> boxes_ok cr"

section \<open>Identity\<close>

text \<open>An \<open>Identity\<close> is its seed; the key pair is a function of it.\<close>

record Identity =
  seed :: bytes

definition NewIdentityFromSeed :: "bytes \<Rightarrow> Identity" where
  "NewIdentityFromSeed s = \<lparr>seed = s\<rparr>"

text \<open>The random seed is an argument, \<open>None\<close> when the random source fails.\<close>

definition NewIdentity :: "bytes option \<Rightarrow> Identity res" where
  "NewIdentity rnd = (case rnd of None \<Rightarrow> Inl (Errorf ''rand'') | Some s \<Rightarrow> Inr \<lparr>seed = s\<rparr>)"

definition PrivateSeed :: "Identity \<Rightarrow> bytes" where
  "PrivateSeed i = seed i"

definition Public :: "crypto \<Rightarrow> Identity \<Rightarrow> bytes" where
  "Public cr i = ed_public cr (seed i)"

definition PublicString :: "crypto \<Rightarrow> Identity \<Rightarrow> string" where
  "PublicString cr i = b64 (Public cr i)"

definition Sign :: "crypto \<Rightarrow> Identity \<Rightarrow> bytes \<Rightarrow> bytes" where
  "Sign cr i msg = ed_sign cr (seed i) msg"

definition VerifySig :: "crypto \<Rightarrow> bytes \<Rightarrow> bytes \<Rightarrow> bytes \<Rightarrow> bool" where
  "VerifySig cr pub msg sig = ed_verify cr pub msg sig"

text \<open>\<open>hex.DecodeString\<close>: an even number of hexadecimal digits of either case.\<close>

fun hex_decode :: "string \<Rightarrow> bytes option" where
  "hex_decode [] = Some []"
| "hex_decode [c] = None"
| "hex_decode (a # b # r) =
     (if is_hex_char a \<and> is_hex_char b
      then map_option (\<lambda>t. char_of (hex_val a * 16 + hex_val b) # t) (hex_decode r)
      else None)"

definition ParseHexSeed :: "string \<Rightarrow> bytes res" where
  "ParseHexSeed s =
     (case hex_decode (trim_space s) of
        None \<Rightarrow> Inl (Errorf ''seed must be 64 hex chars'')
      | Some b \<Rightarrow> if length b \<noteq> 32 then Inl (Errorf ''seed must be 64 hex chars'') else Inr b)"

definition NewIdentityFromHexSeed :: "string \<Rightarrow> Identity res" where
  "NewIdentityFromHexSeed s =
     (case ParseHexSeed s of Inl e \<Rightarrow> Inl e | Inr b \<Rightarrow> Inr (NewIdentityFromSeed b))"

definition cut40 :: "bytes \<Rightarrow> string" where
  "cut40 b = concat (map hex_byte (take 20 b))"

definition DeriveRoomKey :: "crypto \<Rightarrow> string \<Rightarrow> bytes" where
  "DeriveRoomKey cr token = sha256 cr (''stunmeshchat/v1/room'' @ [CHR 0x00] @ token)"

definition roomKeyID :: "crypto \<Rightarrow> string \<Rightarrow> string" where
  "roomKeyID cr token = cut40 (sha256 cr (''stunmeshchat/v1/roomkey'' @ [CHR 0x00] @ token))"

section \<open>Sealed boxes\<close>

definition nonceLen :: nat where "nonceLen = 24"
definition overheadLen :: nat where "overheadLen = 16"

definition sealRoom :: "crypto \<Rightarrow> bytes option \<Rightarrow> bytes \<Rightarrow> bytes \<Rightarrow> bytes res" where
  "sealRoom cr rnd key plaintext =
     (case rnd of
        None \<Rightarrow> Inl ErrSeal
      | Some nonce \<Rightarrow> Inr (nonce @ box_seal cr key nonce plaintext))"

definition unsealRoom :: "crypto \<Rightarrow> bytes \<Rightarrow> bytes \<Rightarrow> bytes res" where
  "unsealRoom cr key sealed =
     (if length sealed < nonceLen + overheadLen then Inl ErrUnseal
      else case box_open cr key (take nonceLen sealed) (drop nonceLen sealed) of
        None \<Rightarrow> Inl ErrUnseal
      | Some m \<Rightarrow> Inr m)"

definition Seal :: "crypto \<Rightarrow> bytes option \<Rightarrow> bytes \<Rightarrow> bytes \<Rightarrow> bytes res" where
  "Seal cr rnd key plaintext = sealRoom cr rnd key plaintext"

definition Open :: "crypto \<Rightarrow> bytes \<Rightarrow> bytes \<Rightarrow> bytes res" where
  "Open cr key sealed = unsealRoom cr key sealed"

definition SealDeterministic :: "crypto \<Rightarrow> bytes \<Rightarrow> bytes \<Rightarrow> bytes" where
  "SealDeterministic cr key plaintext =
     (let nonce = take nonceLen (sha256 cr plaintext) in nonce @ box_seal cr key nonce plaintext)"

section \<open>Names\<close>

definition domain :: string where "domain = ''routewire/v1''"

record Deriver =
  psk :: bytes

definition NewDeriver :: "string \<Rightarrow> Deriver" where
  "NewDeriver s = \<lparr>psk = s\<rparr>"

definition name_char :: "char \<Rightarrow> bool" where
  "name_char c \<longleftrightarrow> is_lower c \<or> is_digit c \<or> c = CHR ''-''"

definition ValidateName :: "string \<Rightarrow> goerr option" where
  "ValidateName name =
     (if length name < 1 \<or> length name > 32 then Some (Errorf ''name must be 1-32 chars'')
      else if \<not> list_all name_char name then Some (Errorf ''name may only contain a-z 0-9 and -'')
      else None)"

definition NormalizeName :: "string \<Rightarrow> string" where
  "NormalizeName name = to_lower (trim_space name)"

section \<open>Derivation\<close>

definition derive :: "crypto \<Rightarrow> Deriver \<Rightarrow> string \<Rightarrow> nat \<Rightarrow> bytes" where
  "derive cr d info n = hkdf_read cr (psk d) (domain @ ''/salt'') info n"

text \<open>\<open>wgtypes.NewKey\<close> wants exactly 32 bytes.\<close>

definition newKey :: "bytes \<Rightarrow> bytes res" where
  "newKey b = (if length b = 32 then Inr b else Inl (Errorf ''wgtypes: incorrect key size''))"

definition NodeWGKey :: "crypto \<Rightarrow> Deriver \<Rightarrow> string \<Rightarrow> bytes res" where
  "NodeWGKey cr d name0 =
     (let name = NormalizeName name0 in
      case ValidateName name of
        Some e \<Rightarrow> Inl (Wrap (''node '' @ name) e)
      | None \<Rightarrow> newKey (derive cr d (''wg/'' @ name) 32))"

definition NodeWGPubKey :: "crypto \<Rightarrow> Deriver \<Rightarrow> string \<Rightarrow> bytes res" where
  "NodeWGPubKey cr d name =
     (case NodeWGKey cr d name of Inl e \<Rightarrow> Inl e | Inr priv \<Rightarrow> Inr (wg_public cr priv))"

definition NodeIdentity :: "crypto \<Rightarrow> Deriver \<Rightarrow> string \<Rightarrow> Identity res" where
  "NodeIdentity cr d name0 =
     (let name = NormalizeName name0 in
      case ValidateName name of
        Some e \<Rightarrow> Inl (Wrap (''node '' @ name) e)
      | None \<Rightarrow> Inr (NewIdentityFromSeed (derive cr d (''id/'' @ name) 32)))"

definition zero_pubkey :: bytes where
  "zero_pubkey = replicate 32 (CHR 0x00)"

definition PublicKeyOf :: "crypto \<Rightarrow> Deriver \<Rightarrow> string \<Rightarrow> bytes" where
  "PublicKeyOf cr d name =
     (case NodeIdentity cr d name of Inl _ \<Rightarrow> zero_pubkey | Inr i \<Rightarrow> Public cr i)"

definition cutHex40 :: "bytes \<Rightarrow> string" where
  "cutHex40 b = concat (map hex_byte (take 20 b))"

definition keyID :: "crypto \<Rightarrow> Deriver \<Rightarrow> string \<Rightarrow> string \<Rightarrow> string" where
  "keyID cr d kind arg =
     cutHex40 (sha256 cr (domain @ ''/'' @ kind @ [CHR 0x00] @ psk d @ [CHR 0x00] @ arg))"

definition RosterKey :: "crypto \<Rightarrow> Deriver \<Rightarrow> string" where
  "RosterKey cr d = keyID cr d ''roster'' []"

definition RosterBoxKey :: "crypto \<Rightarrow> Deriver \<Rightarrow> bytes" where
  "RosterBoxKey cr d = derive cr d ''mesh/box'' 32"

definition hostMask :: "nat \<Rightarrow> 32 word" where
  "hostMask ones = push_bit (32 - ones) 1 - 1"

definition OverlayIP :: "crypto \<Rightarrow> Deriver \<Rightarrow> string \<Rightarrow> ipnet \<Rightarrow> ip res" where
  "OverlayIP cr d name cidr =
     (case NodeWGKey cr d name of
        Inl e \<Rightarrow> Inl e
      | Inr key \<Rightarrow>
          (case to4 (net_ip cidr) of
             None \<Rightarrow> Inl (Errorf ''overlay cidr must be IPv4'')
           | Some base4 \<Rightarrow>
               if net_bits cidr \<noteq> 32 \<or> net_ones cidr > 30
               then Inl (Errorf ''overlay cidr must be IPv4 with prefix <= /30'')
               else Inr (put_u32 (be_u32 base4 OR
                      (be_u32 (take 4 (sha256 cr key)) AND hostMask (net_ones cidr))))))"

definition OverlayIPNet :: "crypto \<Rightarrow> Deriver \<Rightarrow> string \<Rightarrow> ipnet \<Rightarrow> ipnet res" where
  "OverlayIPNet cr d name cidr =
     (case OverlayIP cr d name cidr of Inl e \<Rightarrow> Inl e | Inr ip \<Rightarrow> Inr (host32 ip))"

section \<open>Laws\<close>

subsection \<open>Names and keys\<close>

lemma NormalizeName_idem [simp]: "NormalizeName (NormalizeName s) = NormalizeName s"
  by (simp add: NormalizeName_def trim_space_to_lower)

lemma NormalizeName_valid: "ValidateName s = None \<Longrightarrow> NormalizeName s = s"
proof -
  assume v: "ValidateName s = None"
  then have nc: "\<forall>c \<in> set s. name_char c" by (auto simp: ValidateName_def list_all_iff split: if_splits)
  then have "\<forall>c \<in> set s. \<not> is_space c"
    by (auto simp: name_char_def is_lower_def is_digit_def is_space_def)
  then have t: "trim_space s = s" by (rule trim_space_no_space)
  have "map lower_char s = map id s"
    by (rule map_cong) (use nc in \<open>auto simp: lower_char_def name_char_def is_upper_def is_lower_def is_digit_def\<close>)
  with t show ?thesis by (simp add: NormalizeName_def to_lower_def)
qed

lemma NodeWGKey_normalize [simp]: "NodeWGKey cr d (NormalizeName s) = NodeWGKey cr d s"
  by (simp add: NodeWGKey_def)

lemma NodeIdentity_normalize [simp]: "NodeIdentity cr d (NormalizeName s) = NodeIdentity cr d s"
  by (simp add: NodeIdentity_def)

lemma NodeWGKey_ok:
  "lengths_ok cr \<Longrightarrow> ValidateName (NormalizeName s) = None \<Longrightarrow>
   NodeWGKey cr d s = Inr (derive cr d (''wg/'' @ NormalizeName s) 32)"
  by (simp add: NodeWGKey_def newKey_def derive_def lengths_ok_def)

lemma NodeWGKey_InrD:
  "NodeWGKey cr d s = Inr k \<Longrightarrow> ValidateName (NormalizeName s) = None \<and> length k = 32"
  by (auto simp: NodeWGKey_def newKey_def Let_def split: option.splits if_splits)

lemma length_concat_hex: "length (concat (map hex_byte b)) = 2 * length b"
  by (induction b) auto

lemma concat_hex_inj:
  "concat (map hex_byte a) = concat (map hex_byte b) \<Longrightarrow> a = b"
proof (induction a arbitrary: b)
  case Nil
  then show ?case by (cases b) (auto simp: hex_byte_def)
next
  case (Cons x a)
  then obtain y b' where b: "b = y # b'" by (cases b) (auto simp: hex_byte_def)
  with Cons.prems have "hex_byte x = hex_byte y" "concat (map hex_byte a) = concat (map hex_byte b')"
    using append_eq_append_conv [of "hex_byte x" "hex_byte y"] by simp_all
  with Cons.IH b show ?case by (simp add: hex_byte_inj)
qed

lemma concat_hex_chars: "c \<in> set (concat (map hex_byte b)) \<Longrightarrow> is_hex_char c"
  by (auto dest: hex_byte_hex)

subsection \<open>Boxes\<close>

lemma unsealRoom_box:
  assumes "boxes_ok cr" "length nonce = 24"
  shows "unsealRoom cr key (nonce @ box_seal cr key nonce m) = Inr m"
  using assms by (simp add: unsealRoom_def boxes_ok_def nonceLen_def overheadLen_def)

lemma Open_Seal:
  "boxes_ok cr \<Longrightarrow> length nonce = 24 \<Longrightarrow> Seal cr (Some nonce) key m = Inr v \<Longrightarrow> Open cr key v = Inr m"
  by (auto simp: Seal_def Open_def sealRoom_def unsealRoom_box)

lemma Open_SealDeterministic:
  "boxes_ok cr \<Longrightarrow> lengths_ok cr \<Longrightarrow> Open cr key (SealDeterministic cr key m) = Inr m"
  by (simp add: Open_def SealDeterministic_def Let_def unsealRoom_box lengths_ok_def nonceLen_def)

subsection \<open>The overlay address\<close>

lemma hostMask_eq: "hostMask ones = mask (32 - ones)"
  by (simp add: hostMask_def mask_eq_exp_minus_1 push_bit_eq_mult)

lemma unat_overlay:
  fixes base h :: "32 word"
  assumes "cut k (unat base) = unat base" "k \<le> 32"
  shows "cut k (unat (base OR (h AND mask k))) = unat base"
proof -
  have dr: "unat (drop_bit k x) = drop_bit k (unat x)" for x :: "32 word"
  proof -
    have "take_bit 32 (unat x) = unat x"
      using unsigned_less [of x, where ?'a = nat] by (simp add: take_bit_nat_eq_self)
    then show ?thesis by (simp add: unsigned_drop_bit_eq)
  qed
  have "drop_bit k (h AND mask k) = 0"
    by (simp add: take_bit_eq_mask [symmetric] drop_bit_take_bit)
  then have "drop_bit k (base OR (h AND mask k)) = drop_bit k base"
    by simp
  then have "drop_bit k (unat (base OR (h AND mask k))) = drop_bit k (unat base)"
    using dr [of base] dr [of "base OR (h AND mask k)"] by simp
  then show ?thesis
    using assms(1) by (simp add: cut_def drop_bit_eq_div)
qed

lemma OverlayIP_InrD:
  assumes "OverlayIP cr d name cidr = Inr ip"
  obtains key base where "NodeWGKey cr d name = Inr key" "to4 (net_ip cidr) = Some base"
    "net_bits cidr = 32" "net_ones cidr \<le> 30"
    "ip = put_u32 (be_u32 base OR (be_u32 (take 4 (sha256 cr key)) AND mask (32 - net_ones cidr)))"
  using assms by (auto simp: OverlayIP_def hostMask_eq split: sum.splits option.splits if_splits)

lemma OverlayIP_in_cidr:
  assumes "OverlayIP cr d name cidr = Inr ip" "canon4 cidr"
  shows "length ip = 4 \<and> net_contains cidr ip"
proof -
  let ?k = "32 - net_ones cidr"
  from assms(1) obtain key base where b: "to4 (net_ip cidr) = Some base"
    and ones: "net_ones cidr \<le> 30"
    and ip: "ip = put_u32 (be_u32 base OR (be_u32 (take 4 (sha256 cr key)) AND mask ?k))"
    by (rule OverlayIP_InrD)
  have l: "length (net_ip cidr) = 4" and m: "mask_bytes (net_ones cidr) (net_ip cidr) = net_ip cidr"
    using assms(2) by (auto simp: canon4_def)
  have base: "base = net_ip cidr" using b l by simp
  have "cut ?k (nat4 base) = nat4 base"
    using nat4_mask_bytes [of base "net_ones cidr"] l m ones base by simp
  then have "cut ?k (nat4 ip) = nat4 base"
    using unat_overlay [of ?k "be_u32 base"] by (simp add: ip nat4_put_u32 unat_be_u32)
  then have "nat4 (mask_bytes (net_ones cidr) ip) = nat4 base"
    using nat4_mask_bytes [of ip "net_ones cidr"] ones ip by simp
  then have "mask_bytes (net_ones cidr) ip = net_ip cidr"
    using l base ip by (intro nat4_inj) simp_all
  then show ?thesis by (simp add: net_contains_def ip)
qed

lemma length_OverlayIP: "OverlayIP cr d name cidr = Inr ip \<Longrightarrow> length ip = 4"
  by (elim OverlayIP_InrD) simp

lemma OverlayIP_normalize [simp]: "OverlayIP cr d (NormalizeName s) cidr = OverlayIP cr d s cidr"
  by (simp add: OverlayIP_def)

lemma NodeWGKey_total:
  "lengths_ok cr \<Longrightarrow> ValidateName (NormalizeName n) = None \<Longrightarrow> \<exists>key. NodeWGKey cr d n = Inr key \<and> length key = 32"
  by (simp add: NodeWGKey_def newKey_def derive_def lengths_ok_def)

lemma OverlayIP_total:
  assumes "lengths_ok cr" "ValidateName (NormalizeName n) = None" "canon4 cidr" "net_ones cidr \<le> 30"
  shows "\<exists>ip. OverlayIP cr d n cidr = Inr ip"
proof -
  obtain key where "NodeWGKey cr d n = Inr key" using NodeWGKey_total [OF assms(1,2)] by blast
  with assms(3,4) show ?thesis by (simp add: OverlayIP_def canon4_def)
qed

section \<open>A concrete instance of the primitives\<close>

text \<open>
  Stand-in primitives that satisfy \<open>crypto_ok\<close>, for evaluating the model on concrete
  inputs: they pad and truncate instead of hashing.
\<close>

definition pad :: "nat \<Rightarrow> bytes \<Rightarrow> bytes" where
  "pad n b = take n (b @ replicate n (CHR 0x00))"

definition demo_crypto :: crypto where
  "demo_crypto =
     \<lparr>hkdf_read = \<lambda>k s i n. pad n (i @ k), sha256 = \<lambda>m. pad 32 (rev m), wg_public = \<lambda>k. rev k,
      ed_public = \<lambda>s. pad 32 s, ed_sign = \<lambda>s m. pad 64 (pad 32 s @ rev m),
      ed_verify = \<lambda>p m s. s = pad 64 (p @ rev m),
      box_seal = \<lambda>k n m. replicate 16 (CHR 0x01) @ m,
      box_open = \<lambda>k n c. if take 16 c = replicate 16 (CHR 0x01) then Some (drop 16 c) else None\<rparr>"

lemma length_pad [simp]: "length (pad n b) = n"
  by (simp add: pad_def)

lemma crypto_ok_demo: "crypto_ok demo_crypto"
  by (simp add: crypto_ok_def lengths_ok_def signatures_ok_def boxes_ok_def demo_crypto_def)

lemmas demo_laws = crypto_ok_demo [unfolded crypto_ok_def]

definition demo_d :: Deriver where "demo_d = NewDeriver ''correct horse''"
definition demo_cidr :: ipnet where
  "demo_cidr = \<lparr>net_ip = [CHR 0x0A, CHR 0x09, CHR 0x00, CHR 0x00], net_ones = 16, net_bits = 32\<rparr>"
lemma demo_cidr_ok: "canon4 demo_cidr" "net_ones demo_cidr \<le> 30"
  by (simp_all add: canon4_def demo_cidr_def mask_byte_def char_eq_iff)

lemma demo_names: "ValidateName (NormalizeName ''Alpha '') = None" "ValidateName (NormalizeName ''beta'') = None"
  by code_simp+
lemma demo_overlay: "ValidateName (NormalizeName n) = None \<Longrightarrow> \<exists>ip. OverlayIP demo_crypto demo_d n demo_cidr = Inr ip"
  by (intro OverlayIP_total) (use demo_laws demo_cidr_ok in auto)

section \<open>Properties\<close>

text \<open>C12: a node of a mesh whose range is an IPv4 network gets an address inside the range,
  whatever the secret, and every spelling of its name gets the same one; only names that are
  valid once normalised have an address.\<close>

theorem overlay_address_in_range:
  assumes "OverlayIP cr d name cidr = Inr ip" "canon4 cidr"
  shows "length ip = 4 \<and> net_contains cidr ip \<and> OverlayIP cr d (NormalizeName name) cidr = Inr ip \<and>
     ValidateName (NormalizeName name) = None"
  using OverlayIP_in_cidr [OF assms] assms(1) by (auto elim!: OverlayIP_InrD dest: NodeWGKey_InrD)

theorem overlay_address_in_range_witness:
  "\<exists>ip. OverlayIP demo_crypto demo_d ''Alpha '' demo_cidr = Inr ip \<and> net_contains demo_cidr ip"
  using demo_overlay [OF demo_names(1)] overlay_address_in_range [OF _ demo_cidr_ok(1)] by blast

text \<open>C22: for every valid name and every IPv4 range with at least two host bits the address
  exists, with the node's WireGuard key and identity: the derivation does not fail.\<close>

theorem derivation_total:
  assumes "lengths_ok cr" "ValidateName (NormalizeName n) = None" "canon4 cidr" "net_ones cidr \<le> 30"
  shows "(\<exists>ip. OverlayIP cr d n cidr = Inr ip) \<and> (\<exists>k. NodeWGKey cr d n = Inr k \<and> length k = 32) \<and>
     (\<exists>i. NodeIdentity cr d n = Inr i \<and> PublicKeyOf cr d n = Public cr i)"
  using OverlayIP_total [OF assms] NodeWGKey_total [OF assms(1,2)] assms(2)
  by (simp add: NodeIdentity_def PublicKeyOf_def Let_def)

theorem derivation_total_witness:
  "\<exists>k. NodeWGKey demo_crypto demo_d ''beta'' = Inr k \<and> length k = 32"
  using derivation_total [OF _ demo_names(2) demo_cidr_ok] demo_laws by blast

text \<open>C23: what is sealed opens to the same plaintext under the same key, with a random nonce
  and with the nonce derived from the plaintext.\<close>

theorem seal_open_roundtrip:
  assumes "boxes_ok cr" "lengths_ok cr" "length nonce = 24"
  shows "(\<exists>v. Seal cr (Some nonce) key m = Inr v \<and> Open cr key v = Inr m) \<and>
     Open cr key (SealDeterministic cr key m) = Inr m"
  using Open_Seal [OF assms(1,3)] Open_SealDeterministic [OF assms(1,2)] by (simp add: Seal_def sealRoom_def)

theorem seal_open_roundtrip_witness:
  "Open demo_crypto [] (SealDeterministic demo_crypto [] ''hello'') = Inr ''hello''"
  using seal_open_roundtrip [of demo_crypto "replicate 24 (CHR 0x00)" "[]" "''hello''"] demo_laws by simp

end
