(* ===== verification/Json.thy ===== *)
theory Json
  imports Encoding
begin

text \<open>
  What the program uses of \<open>encoding/json\<close>: the compact printing of \<open>json.Marshal\<close> with its
  string escapes, the syntax \<open>json.Unmarshal\<close> accepts, and the decoding of a value into a
  string, a signed or unsigned 64-bit integer or a list of them. Invalid UTF-8 becomes the
  replacement character in both directions, and object keys match field names up to case
  folding. The nesting limit of 10000 levels is not modelled.

  \<open>parse_print\<close> is the round trip, for values whose strings are ASCII and whose numbers are
  printed integers.
\<close>

section \<open>Values\<close>

datatype json =
    JNull
  | JBool bool
  | JNum string
  | JStr string
  | JArr "json list"
  | JObj "(string \<times> json) list"

section \<open>UTF-8\<close>

text \<open>\<open>utf8.DecodeRune\<close>: the rune at the front and its width, \<open>None\<close> when it is invalid.\<close>

definition cont :: "nat \<Rightarrow> bool" where
  "cont b \<longleftrightarrow> 128 \<le> b \<and> b < 192"

fun decode_rune :: "nat list \<Rightarrow> (nat \<times> nat) option" where
  "decode_rune (a # bs) =
     (if a < 128 then Some (a, 1)
      else if 194 \<le> a \<and> a < 224 then
        (case bs of b # _ \<Rightarrow> if cont b then Some ((a - 192) * 64 + (b - 128), 2) else None | _ \<Rightarrow> None)
      else if 224 \<le> a \<and> a < 240 then
        (case bs of b # c # _ \<Rightarrow>
           (let r = (a - 224) * 4096 + (b - 128) * 64 + (c - 128) in
            if cont b \<and> cont c \<and> 2048 \<le> r \<and> \<not> (55296 \<le> r \<and> r < 57344) then Some (r, 3) else None) | _ \<Rightarrow> None)
      else if 240 \<le> a \<and> a < 245 then
        (case bs of b # c # d # _ \<Rightarrow>
           (let r = (a - 240) * 262144 + (b - 128) * 4096 + (c - 128) * 64 + (d - 128) in
            if cont b \<and> cont c \<and> cont d \<and> 65536 \<le> r \<and> r < 1114112 then Some (r, 4) else None) | _ \<Rightarrow> None)
      else None)"
| "decode_rune [] = None"

definition encode_rune :: "nat \<Rightarrow> bytes" where
  "encode_rune r = map char_of
     (if r < 128 then [r]
      else if r < 2048 then [192 + r div 64, 128 + r mod 64]
      else if r < 65536 then [224 + r div 4096, 128 + r div 64 mod 64, 128 + r mod 64]
      else [240 + r div 262144, 128 + r div 4096 mod 64, 128 + r div 64 mod 64, 128 + r mod 64])"

definition rune_error :: nat where "rune_error = 65533"

definition next_rune :: "bytes \<Rightarrow> nat \<times> nat" where
  "next_rune s = (case decode_rune (map of_char (take 4 s)) of Some x \<Rightarrow> x | None \<Rightarrow> (rune_error, 1))"

section \<open>Printing\<close>

definition u_escape :: "nat \<Rightarrow> string" where
  "u_escape n = [CHR 0x5C, CHR ''u'', hex_char (n div 4096), hex_char (n div 256 mod 16),
     hex_char (n div 16 mod 16), hex_char (n mod 16)]"

text \<open>One ASCII character of a string.\<close>

definition esc_char :: "char \<Rightarrow> string" where
  "esc_char c =
     (let n = (of_char c :: nat) in
      if c = CHR 0x22 \<or> c = CHR 0x5C then [CHR 0x5C, c]
      else if n = 8 then [CHR 0x5C, CHR ''b'']
      else if n = 12 then [CHR 0x5C, CHR ''f'']
      else if n = 10 then [CHR 0x5C, CHR ''n'']
      else if n = 13 then [CHR 0x5C, CHR ''r'']
      else if n = 9 then [CHR 0x5C, CHR ''t'']
      else if n < 32 \<or> c \<in> set ''<>&'' then u_escape n
      else [c])"

function esc_string :: "bytes \<Rightarrow> string" where
  "esc_string [] = []"
| "esc_string (c # s) =
     (if (of_char c :: nat) < 128 then esc_char c @ esc_string s
      else case decode_rune (map of_char (take 4 (c # s))) of
        None \<Rightarrow> u_escape rune_error @ esc_string s
      | Some (r, n) \<Rightarrow>
          (if r = 8232 \<or> r = 8233 then u_escape r else take n (c # s)) @ esc_string (drop (n - 1) s))"
  by pat_completeness auto
termination by (relation "measure length") auto

definition print_string :: "bytes \<Rightarrow> string" where
  "print_string s = CHR 0x22 # esc_string s @ [CHR 0x22]"

fun print_json :: "json \<Rightarrow> string" where
  "print_json JNull = ''null''"
| "print_json (JBool b) = (if b then ''true'' else ''false'')"
| "print_json (JNum n) = n"
| "print_json (JStr s) = print_string s"
| "print_json (JArr js) = CHR ''['' # join '','' (map print_json js) @ '']''"
| "print_json (JObj ms) =
     CHR ''{'' # join '','' (map (\<lambda>(k, v). print_string k @ CHR '':'' # print_json v) ms) @ ''}''"

section \<open>Parsing\<close>

definition is_ws :: "char \<Rightarrow> bool" where
  "is_ws c \<longleftrightarrow> c \<in> {CHR '' '', CHR 0x09, CHR 0x0A, CHR 0x0D}"

definition skip_ws :: "string \<Rightarrow> string" where
  "skip_ws s = dropWhile is_ws s"

definition hex_digit :: "char \<Rightarrow> nat option" where
  "hex_digit c =
     (let n = (of_char c :: nat) in
      if 48 \<le> n \<and> n \<le> 57 then Some (n - 48)
      else if 97 \<le> n \<and> n \<le> 102 then Some (n - 87)
      else if 65 \<le> n \<and> n \<le> 70 then Some (n - 55)
      else None)"

fun hex4 :: "string \<Rightarrow> (nat \<times> string) option" where
  "hex4 (a # b # c # d # r) =
     (case (hex_digit a, hex_digit b, hex_digit c, hex_digit d) of
        (Some p, Some q, Some x, Some y) \<Rightarrow> Some (p * 4096 + q * 256 + x * 16 + y, r)
      | _ \<Rightarrow> None)"
| "hex4 _ = None"

definition surrogate :: "nat \<Rightarrow> bool" where
  "surrogate r \<longleftrightarrow> 55296 \<le> r \<and> r < 57344"

text \<open>After a \<open>\u\<close> escape of a surrogate: the pair with the next escape, or the replacement
  character.\<close>

definition low_half :: "nat \<Rightarrow> string \<Rightarrow> nat \<times> string" where
  "low_half r s =
     (case s of a # b # t \<Rightarrow>
        if a = CHR 0x5C \<and> b = CHR ''u'' then
          (case hex4 t of
             Some (r2, u) \<Rightarrow>
               if r < 56320 \<and> 56320 \<le> r2 \<and> r2 < 57344
               then (65536 + (r - 55296) * 1024 + (r2 - 56320), u) else (rune_error, s)
           | None \<Rightarrow> (rune_error, s))
        else (rune_error, s)
      | _ \<Rightarrow> (rune_error, s))"

definition simple_escape :: "char \<Rightarrow> char option" where
  "simple_escape c =
     (if c \<in> {CHR 0x22, CHR 0x5C, CHR ''/''} then Some c
      else if c = CHR ''b'' then Some (CHR 0x08) else if c = CHR ''f'' then Some (CHR 0x0C)
      else if c = CHR ''n'' then Some (CHR 0x0A) else if c = CHR ''r'' then Some (CHR 0x0D)
      else if c = CHR ''t'' then Some (CHR 0x09) else None)"

text \<open>The body of a string after its opening quote.\<close>

fun p_chars :: "nat \<Rightarrow> string \<Rightarrow> (bytes \<times> string) option" where
  "p_chars 0 s = None"
| "p_chars (Suc k) [] = None"
| "p_chars (Suc k) (c # s) =
     (if c = CHR 0x22 then Some ([], s)
      else if c = CHR 0x5C then
        (case s of
           [] \<Rightarrow> None
         | e # t \<Rightarrow>
             if e = CHR ''u'' then
               (case hex4 t of
                  None \<Rightarrow> None
                | Some (r, u) \<Rightarrow>
                    (case (if surrogate r then low_half r u else (r, u)) of
                       (r', u') \<Rightarrow> map_option (\<lambda>(x, v). (encode_rune r' @ x, v)) (p_chars k u')))
             else (case simple_escape e of
                 None \<Rightarrow> None
               | Some d \<Rightarrow> map_option (\<lambda>(x, v). (d # x, v)) (p_chars k t)))
      else if (of_char c :: nat) < 32 then None
      else if (of_char c :: nat) < 128 then map_option (\<lambda>(x, v). (c # x, v)) (p_chars k s)
      else (case next_rune (c # s) of
          (r, n) \<Rightarrow> map_option (\<lambda>(x, v). (encode_rune r @ x, v)) (p_chars k (drop (n - 1) s))))"

definition p_string :: "string \<Rightarrow> (bytes \<times> string) option" where
  "p_string s = (case s of [] \<Rightarrow> None | c # t \<Rightarrow> if c = CHR 0x22 then p_chars (Suc (length t)) t else None)"

text \<open>Numbers: the literal and the rest.\<close>

definition p_digits :: "string \<Rightarrow> string \<times> string" where
  "p_digits s = (takeWhile is_digit s, dropWhile is_digit s)"

definition p_int :: "string \<Rightarrow> (string \<times> string) option" where
  "p_int s = (case s of [] \<Rightarrow> None
     | c # t \<Rightarrow> if c = CHR ''0'' then Some ([c], t)
                else if is_digit c then Some (p_digits s) else None)"

definition p_frac :: "string \<Rightarrow> (string \<times> string) option" where
  "p_frac s = (case s of [] \<Rightarrow> Some ([], s)
     | c # t \<Rightarrow> if c = CHR ''.'' then (case p_digits t of (d, r) \<Rightarrow> if d = [] then None else Some (c # d, r))
                else Some ([], s))"

definition p_exp :: "string \<Rightarrow> (string \<times> string) option" where
  "p_exp s = (case s of [] \<Rightarrow> Some ([], s)
     | c # t \<Rightarrow> if c = CHR ''e'' \<or> c = CHR ''E'' then
                  (let (sg, t') = (case t of x # y \<Rightarrow> if x = CHR ''+'' \<or> x = CHR ''-'' then ([x], y) else ([], t) | [] \<Rightarrow> ([], t));
                       (d, r) = p_digits t'
                   in if d = [] then None else Some (c # sg @ d, r))
                else Some ([], s))"

definition p_number :: "string \<Rightarrow> (string \<times> string) option" where
  "p_number s =
     (let (sg, s1) = (case s of c # t \<Rightarrow> if c = CHR ''-'' then ([c], t) else ([], s) | [] \<Rightarrow> ([], s)) in
      case p_int s1 of
        None \<Rightarrow> None
      | Some (i, s2) \<Rightarrow>
          (case p_frac s2 of
             None \<Rightarrow> None
           | Some (f, s3) \<Rightarrow>
               (case p_exp s3 of None \<Rightarrow> None | Some (e, s4) \<Rightarrow> Some (sg @ i @ f @ e, s4))))"

definition p_literal :: "string \<Rightarrow> (json \<times> string) option" where
  "p_literal s =
     (if has_prefix s ''null'' then Some (JNull, drop 4 s)
      else if has_prefix s ''true'' then Some (JBool True, drop 4 s)
      else if has_prefix s ''false'' then Some (JBool False, drop 5 s)
      else map_option (\<lambda>(n, r). (JNum n, r)) (p_number s))"

text \<open>Values, elements of an array and members of an object. Fuel above twice the length
  of the input is enough (\<open>p_value_fuel\<close>).\<close>

fun p_value :: "nat \<Rightarrow> string \<Rightarrow> (json \<times> string) option"
  and p_elems :: "nat \<Rightarrow> string \<Rightarrow> (json list \<times> string) option"
  and p_members :: "nat \<Rightarrow> string \<Rightarrow> ((string \<times> json) list \<times> string) option" where
  "p_value 0 s = None"
| "p_value (Suc k) s =
     (case skip_ws s of
        [] \<Rightarrow> None
      | c # t \<Rightarrow>
          if c = CHR ''['' then
            (case skip_ws t of
               d # u \<Rightarrow> if d = CHR '']'' then Some (JArr [], u) else map_option (\<lambda>(js, v). (JArr js, v)) (p_elems k (d # u))
             | [] \<Rightarrow> None)
          else if c = CHR ''{'' then
            (case skip_ws t of
               d # u \<Rightarrow> if d = CHR ''}'' then Some (JObj [], u) else map_option (\<lambda>(ms, v). (JObj ms, v)) (p_members k (d # u))
             | [] \<Rightarrow> None)
          else if c = CHR 0x22 then map_option (\<lambda>(x, v). (JStr x, v)) (p_string (c # t))
          else p_literal (c # t))"
| "p_elems 0 s = None"
| "p_elems (Suc k) s =
     (case p_value k s of
        None \<Rightarrow> None
      | Some (j, r) \<Rightarrow>
          (case skip_ws r of
             [] \<Rightarrow> None
           | c # t \<Rightarrow> if c = CHR '']'' then Some ([j], t)
                      else if c = CHR '','' then map_option (\<lambda>(js, v). (j # js, v)) (p_elems k t)
                      else None))"
| "p_members 0 s = None"
| "p_members (Suc k) s =
     (case p_string (skip_ws s) of
        None \<Rightarrow> None
      | Some (key, r) \<Rightarrow>
          (case skip_ws r of
             [] \<Rightarrow> None
           | c # t \<Rightarrow>
               if c \<noteq> CHR '':'' then None
               else (case p_value k t of
                   None \<Rightarrow> None
                 | Some (j, u) \<Rightarrow>
                     (case skip_ws u of
                        [] \<Rightarrow> None
                      | d # v \<Rightarrow> if d = CHR ''}'' then Some ([(key, j)], v)
                                 else if d = CHR '','' then map_option (\<lambda>(ms, x). ((key, j) # ms, x)) (p_members k v)
                                 else None))))"

definition parse_json :: "string \<Rightarrow> json option" where
  "parse_json s =
     (case p_value (Suc (2 * length s)) s of
        Some (j, r) \<Rightarrow> if skip_ws r = [] then Some j else None
      | None \<Rightarrow> None)"

section \<open>Round trip\<close>

definition ascii :: "string \<Rightarrow> bool" where
  "ascii s = list_all (\<lambda>c. (of_char c :: nat) < 128) s"

lemma ascii_simps [simp]: "ascii []" "ascii (c # s) \<longleftrightarrow> (of_char c :: nat) < 128 \<and> ascii s"
  by (simp_all add: ascii_def)

fun json_ok :: "json \<Rightarrow> bool" where
  "json_ok (JNum n) = (\<exists>i. n = int_str i)"
| "json_ok (JStr s) = ascii s"
| "json_ok (JArr js) = (\<forall>j \<in> set js. json_ok j)"
| "json_ok (JObj ms) = (\<forall>(k, v) \<in> set ms. ascii k \<and> json_ok v)"
| "json_ok _ = True"

subsection \<open>Strings\<close>

lemma hex_digit_hex_char [simp]: "n < 16 \<Longrightarrow> hex_digit (hex_char n) = Some n"
  by (auto simp: hex_digit_def hex_char_def Let_def)

lemma hex4_u_escape: "n < 65536 \<Longrightarrow> hex4 (drop 2 (u_escape n) @ r) = Some (n, r)"
proof -
  assume n: "n < 65536"
  have "n = n div 16 * 16 + n mod 16" "n div 16 = n div 256 * 16 + n div 16 mod 16"
    "n div 256 = n div 4096 * 16 + n div 256 mod 16"
    using div_mult_mod_eq [of n 16] div_mult_mod_eq [of "n div 16" 16] div_mult_mod_eq [of "n div 256" 16]
    by (simp_all flip: div_mult2_eq)
  then have "n div 4096 * 4096 + n div 256 mod 16 * 256 + n div 16 mod 16 * 16 + n mod 16 = n"
    by linarith
  with n show ?thesis by (simp add: u_escape_def)
qed

lemma p_chars_u_escape:
  "n < 128 \<Longrightarrow> p_chars (Suc k) (u_escape n @ t) = map_option (\<lambda>(x, v). (char_of n # x, v)) (p_chars k t)"
  using hex4_u_escape [of n t]
  by (simp add: u_escape_def surrogate_def encode_rune_def split: option.split)

lemma p_chars_esc_char:
  assumes "(of_char c :: nat) < 128"
  shows "p_chars (Suc k) (esc_char c @ t) = map_option (\<lambda>(x, v). (c # x, v)) (p_chars k t)"
proof -
  let ?n = "of_char c :: nat"
  have c: "c = char_of ?n" by simp
  consider "c = CHR 0x22 \<or> c = CHR 0x5C" | "?n \<in> {8, 9, 10, 12, 13}"
    | "?n \<notin> {8, 9, 10, 12, 13}" "\<not> (c = CHR 0x22 \<or> c = CHR 0x5C)" "?n < 32 \<or> c \<in> set ''<>&''"
    | "32 \<le> ?n" "c \<notin> set ''<>&''" "\<not> (c = CHR 0x22 \<or> c = CHR 0x5C)"
    by (cases "?n < 32") auto
  then show ?thesis
  proof cases
    case 1
    then show ?thesis by (auto simp: esc_char_def simple_escape_def)
  next
    case 2
    then have "c \<in> {CHR 0x08, CHR 0x09, CHR 0x0A, CHR 0x0C, CHR 0x0D}"
      by (auto simp: char_eq_iff)
    then show ?thesis by (auto simp: esc_char_def simple_escape_def)
  next
    case 3
    then have "esc_char c = u_escape ?n" by (simp add: esc_char_def Let_def)
    with p_chars_u_escape [OF assms] show ?thesis by simp
  next
    case 4
    then have "esc_char c = [c]" by (simp add: esc_char_def Let_def)
    with 4 assms show ?thesis by simp
  qed
qed

lemma p_chars_esc_string:
  "ascii s \<Longrightarrow> length s < k \<Longrightarrow> p_chars k (esc_string s @ CHR 0x22 # r) = Some (s, r)"
proof (induction s arbitrary: k)
  case Nil
  then show ?case by (cases k) auto
next
  case (Cons c s)
  then obtain m where k: "k = Suc m" "length s < m" by (cases k) auto
  with Cons p_chars_esc_char [of c m "esc_string s @ CHR 0x22 # r"] show ?case by simp
qed

lemma length_esc_char: "0 < length (esc_char c)"
  by (simp add: esc_char_def u_escape_def Let_def)

lemma length_esc_string: "ascii s \<Longrightarrow> length s \<le> length (esc_string s)"
proof (induction s)
  case (Cons c s)
  then show ?case using length_esc_char [of c] by (simp del: length_greater_0_conv)
qed simp

lemma p_string_print: "ascii s \<Longrightarrow> p_string (print_string s @ r) = Some (s, r)"
proof -
  assume a: "ascii s"
  have "length s < Suc (length (esc_string s @ CHR 0x22 # r))" using length_esc_string [OF a] by simp
  from p_chars_esc_string [OF a this] show ?thesis by (simp add: p_string_def print_string_def)
qed

subsection \<open>Numbers\<close>

definition follows :: "string \<Rightarrow> bool" where
  "follows r \<longleftrightarrow> r = [] \<or> hd r \<in> {CHR '','', CHR '']'', CHR ''}''}"

lemma p_digits_append: "\<forall>c \<in> set d. is_digit c \<Longrightarrow> r = [] \<or> \<not> is_digit (hd r) \<Longrightarrow> p_digits (d @ r) = (d, r)"
  by (cases r) (auto simp: p_digits_def)

lemma follows_digit: "follows r \<Longrightarrow> r = [] \<or> \<not> is_digit (hd r)"
  by (auto simp: follows_def is_digit_def)

lemma p_int_nat_str: "follows r \<Longrightarrow> p_int (nat_str n @ r) = Some (nat_str n, r)"
proof (cases "n = 0")
  case True
  then show ?thesis by (simp add: nat_str.simps p_int_def digit_def char_eq_iff)
next
  case False
  assume f: "follows r"
  obtain c t where ct: "nat_str n = c # t" by (cases "nat_str n") auto
  have "c \<noteq> CHR ''0''" using nat_str_no_leading_zero [of n] False ct by simp
  moreover have "is_digit c" using nat_str_digits [of n] ct by simp
  ultimately have "p_int (nat_str n @ r) = Some (p_digits (nat_str n @ r))" by (simp add: p_int_def ct)
  with p_digits_append [OF nat_str_digits follows_digit [OF f]] show ?thesis by simp
qed

lemma p_number_int_str: "follows r \<Longrightarrow> p_number (int_str i @ r) = Some (int_str i, r)"
proof -
  assume f: "follows r"
  then have fe: "p_frac r = Some ([], r)" "p_exp r = Some ([], r)"
    by (auto simp: follows_def p_frac_def p_exp_def split: list.splits)
  have m: "\<exists>c t. nat_str n = c # t \<and> c \<noteq> CHR ''-''" for n
    using nat_str_digits [of n] by (cases "nat_str n") (auto simp: is_digit_def)
  show ?thesis
  proof (cases "i < 0")
    case True
    with p_int_nat_str [OF f] fe show ?thesis by (simp add: int_str_def p_number_def)
  next
    case False
    obtain c t where ct: "nat_str (nat i) = c # t" "c \<noteq> CHR ''-''" using m by blast
    with p_int_nat_str [OF f, of "nat i"] fe False show ?thesis by (simp add: int_str_def p_number_def)
  qed
qed

subsection \<open>Values\<close>

text \<open>A printed value starts with neither blank nor closing bracket.\<close>

lemma int_str_hd: "\<exists>c t. int_str i = c # t \<and> (c = CHR ''-'' \<or> is_digit c)"
  using nat_str_digits [of "nat i"] by (cases "nat_str (nat i)") (auto simp: int_str_def)

lemma print_json_hd:
  assumes "json_ok j"
  obtains c t where "print_json j = c # t" "\<not> is_ws c" "c \<noteq> CHR '']''" "c \<noteq> CHR ''}''"
proof (cases j)
  case (JNum n)
  with assms obtain i where n: "n = int_str i" by auto
  obtain c t where "int_str i = c # t" "c = CHR ''-'' \<or> is_digit c" using int_str_hd by blast
  moreover from this(2) have "\<not> is_ws c" "c \<noteq> CHR '']''" "c \<noteq> CHR ''}''"
    by (auto simp: is_ws_def is_digit_def)
  ultimately show ?thesis using JNum n that [of c t] by simp
next
  case (JBool b)
  then show ?thesis using that by (cases b) (auto simp: is_ws_def)
qed (use that in \<open>auto simp: is_ws_def print_string_def\<close>)

lemma skip_ws_print: "json_ok j \<Longrightarrow> skip_ws (print_json j @ r) = print_json j @ r"
  by (elim print_json_hd) (simp add: skip_ws_def)

lemma skip_ws_Cons [simp]: "\<not> is_ws c \<Longrightarrow> skip_ws (c # s) = c # s"
  by (simp add: skip_ws_def)

lemma not_ws [simp]: "\<not> is_ws (CHR '','')" "\<not> is_ws (CHR '']'')" "\<not> is_ws (CHR ''}'')" "\<not> is_ws (CHR '':'')"
  "\<not> is_ws (CHR ''['')" "\<not> is_ws (CHR ''{'')" "\<not> is_ws (CHR 0x22)"
  by (simp_all add: is_ws_def)

lemma p_value_number:
  assumes "follows r"
  shows "p_value (Suc k) (int_str i @ r) = Some (JNum (int_str i), r)"
proof -
  obtain c t where ct: "int_str i = c # t" "c = CHR ''-'' \<or> is_digit c" using int_str_hd by blast
  then have d: "c \<noteq> CHR ''[''" "c \<noteq> CHR ''{''" "c \<noteq> CHR 0x22" "\<not> is_ws c"
    "c \<noteq> CHR ''n''" "c \<noteq> CHR ''t''" "c \<noteq> CHR ''f''"
    by (auto simp: is_digit_def is_ws_def)
  with ct p_number_int_str [OF assms, of i] show ?thesis
    by (simp add: p_literal_def has_prefix_def)
qed

lemma follows_Cons [simp]: "follows (c # r) \<longleftrightarrow> c \<in> {CHR '','', CHR '']'', CHR ''}''}"
  by (simp add: follows_def)

definition reads :: "json \<Rightarrow> bool" where
  "reads j \<longleftrightarrow> (\<forall>k r. follows r \<longrightarrow> length (print_json j) < k \<longrightarrow> p_value k (print_json j @ r) = Some (j, r))"

lemma p_elems_print:
  "js \<noteq> [] \<Longrightarrow> \<forall>j \<in> set js. reads j \<Longrightarrow> length (join '','' (map print_json js)) + 1 < k \<Longrightarrow>
   p_elems k (join '','' (map print_json js) @ CHR '']'' # r) = Some (js, r)"
proof (induction js arbitrary: k)
  case (Cons j js)
  then obtain m where k: "k = Suc m" by (cases k) auto
  show ?case
  proof (cases "js = []")
    case True
    have "p_value m (print_json j @ CHR '']'' # r) = Some (j, CHR '']'' # r)"
      using Cons.prems(2,3) k True by (simp add: reads_def)
    with True k show ?thesis by simp
  next
    case False
    let ?t = "join '','' (map print_json js)"
    have l: "length (print_json j) < m" "length ?t + 1 < m"
      using Cons.prems(3) k False by (simp_all add: join_single_Cons)
    have "p_value m (print_json j @ CHR '','' # ?t @ CHR '']'' # r) = Some (j, CHR '','' # ?t @ CHR '']'' # r)"
      using Cons.prems(2) l(1) by (simp add: reads_def)
    moreover have "p_elems m (?t @ CHR '']'' # r) = Some (js, r)"
      using Cons.IH [OF False _ l(2)] Cons.prems(2) by simp
    ultimately show ?thesis using k False by (simp add: join_single_Cons)
  qed
qed simp

abbreviation member :: "string \<times> json \<Rightarrow> string" where
  "member kv \<equiv> (case kv of (key, v) \<Rightarrow> print_string key @ CHR '':'' # print_json v)"

lemma skip_ws_print_string [simp]: "skip_ws (print_string s @ r) = print_string s @ r"
  by (simp add: print_string_def)

lemma p_members_print:
  "ms \<noteq> [] \<Longrightarrow> \<forall>(key, v) \<in> set ms. ascii key \<and> reads v \<Longrightarrow> length (join '','' (map member ms)) + 1 < k \<Longrightarrow>
   p_members k (join '','' (map member ms) @ CHR ''}'' # r) = Some (ms, r)"
proof (induction ms arbitrary: k)
  case (Cons x ms)
  obtain key v where x: "x = (key, v)" by (cases x)
  obtain m where k: "k = Suc m" using Cons.prems(3) by (cases k) auto
  have p: "p_string (print_string key @ u) = Some (key, u)" for u
    using Cons.prems(2) x by (simp add: p_string_print)
  show ?case
  proof (cases "ms = []")
    case True
    have "p_value m (print_json v @ CHR ''}'' # r) = Some (v, CHR ''}'' # r)"
      using Cons.prems(2,3) k True x by (simp add: reads_def)
    with True k x p show ?thesis by simp
  next
    case False
    let ?t = "join '','' (map member ms)"
    have l: "length (print_json v) < m" "length ?t + 1 < m"
      using Cons.prems(3) k False x by (simp_all add: join_single_Cons)
    have "p_value m (print_json v @ CHR '','' # ?t @ CHR ''}'' # r) = Some (v, CHR '','' # ?t @ CHR ''}'' # r)"
      using Cons.prems(2) l(1) x by (simp add: reads_def)
    moreover have "p_members m (?t @ CHR ''}'' # r) = Some (ms, r)"
      using Cons.IH [OF False _ l(2)] Cons.prems(2) by simp
    ultimately show ?thesis using k False x p by (simp add: join_single_Cons)
  qed
qed simp

lemma readsI:
  "(\<And>m r. follows r \<Longrightarrow> length (print_json j) \<le> m \<Longrightarrow> p_value (Suc m) (print_json j @ r) = Some (j, r)) \<Longrightarrow> reads j"
proof -
  assume h: "\<And>m r. follows r \<Longrightarrow> length (print_json j) \<le> m \<Longrightarrow> p_value (Suc m) (print_json j @ r) = Some (j, r)"
  show ?thesis
    unfolding reads_def
  proof (intro allI impI)
    fix k r
    assume f: "follows r" and l: "length (print_json j) < k"
    then obtain m where "k = Suc m" "length (print_json j) \<le> m" by (cases k) auto
    with h [OF f] show "p_value k (print_json j @ r) = Some (j, r)" by blast
  qed
qed

lemma join_hd: "ws \<noteq> [] \<Longrightarrow> hd ws \<noteq> [] \<Longrightarrow> \<exists>t. join sep ws = hd (hd ws) # t"
  by (cases ws; cases "tl ws") (auto simp: neq_Nil_conv)

lemma reads_print: "json_ok j \<Longrightarrow> reads j"
proof (induction j)
  case JNull
  show ?case by (rule readsI) (simp add: is_ws_def p_literal_def has_prefix_def)
next
  case (JBool b)
  show ?case by (rule readsI) (simp add: is_ws_def p_literal_def has_prefix_def)
next
  case (JNum n)
  then show ?case by (intro readsI) (auto simp: p_value_number simp del: p_value.simps)
next
  case (JStr s)
  then show ?case
    by (intro readsI) (use p_string_print [of s] in \<open>simp add: print_string_def\<close>)
next
  case (JArr js)
  show ?case
  proof (rule readsI)
    fix m r
    assume f: "follows r" and l: "length (print_json (JArr js)) \<le> m"
    show "p_value (Suc m) (print_json (JArr js) @ r) = Some (JArr js, r)"
    proof (cases js)
      case (Cons j js')
      have ok: "json_ok j" using JArr.prems Cons by simp
      obtain c t where c: "print_json j = c # t" "\<not> is_ws c" "c \<noteq> CHR '']''" by (rule print_json_hd [OF ok])
      obtain u where u: "join '','' (map print_json js) = c # u"
        using join_hd [of "map print_json js" "'',''"] c Cons by auto
      have "p_elems m (join '','' (map print_json js) @ CHR '']'' # r) = Some (js, r)"
        using p_elems_print [of js m r] JArr l Cons by simp
      with u c show ?thesis by simp
    qed (simp)
  qed
next
  case (JObj ms)
  show ?case
  proof (rule readsI)
    fix m r
    assume f: "follows r" and l: "length (print_json (JObj ms)) \<le> m"
    show "p_value (Suc m) (print_json (JObj ms) @ r) = Some (JObj ms, r)"
    proof (cases ms)
      case (Cons x ms')
      obtain u where u: "join '','' (map member ms) = CHR 0x22 # u"
        using join_hd [of "map member ms" "'',''"] Cons by (cases x) (auto simp: print_string_def)
      have "\<forall>(key, v) \<in> set ms. ascii key \<and> reads v" using JObj by fastforce
      then have "p_members m (join '','' (map member ms) @ CHR ''}'' # r) = Some (ms, r)"
        using p_members_print [of ms m r] l Cons by simp
      with u show ?thesis by simp
    qed (simp)
  qed
qed

lemma parse_print_json: "json_ok j \<Longrightarrow> parse_json (print_json j) = Some j"
proof -
  assume "json_ok j"
  from reads_print [OF this] have "p_value (Suc (2 * length (print_json j))) (print_json j @ []) = Some (j, [])"
    unfolding reads_def by (auto simp: follows_def simp del: p_value.simps append_Nil2)
  then show ?thesis by (simp add: parse_json_def skip_ws_def del: p_value.simps)
qed

section \<open>Decoding into fields\<close>

text \<open>Keys match field names up to the case folding of Go, which also folds the Kelvin sign
  and the long s.\<close>

fun fold_key :: "bytes \<Rightarrow> string" where
  "fold_key (a # b # c # s) =
     (if (a, b, c) = (CHR 0xE2, CHR 0x84, CHR 0xAA) then CHR ''k'' # fold_key s
      else if (a, b) = (CHR 0xC5, CHR 0xBF) then CHR ''s'' # fold_key (c # s)
      else lower_char a # fold_key (b # c # s))"
| "fold_key [a, b] = (if (a, b) = (CHR 0xC5, CHR 0xBF) then [CHR ''s''] else [lower_char a, lower_char b])"
| "fold_key s = to_lower s"

definition key_is :: "string \<Rightarrow> bytes \<Rightarrow> bool" where
  "key_is name key \<longleftrightarrow> fold_key key = name"

text \<open>A null leaves a scalar field as it is; a value of another type is an error.\<close>

definition dec_str :: "string \<Rightarrow> json \<Rightarrow> string option" where
  "dec_str cur j = (case j of JNull \<Rightarrow> Some cur | JStr s \<Rightarrow> Some s | _ \<Rightarrow> None)"

definition all_digits :: "string \<Rightarrow> bool" where
  "all_digits s \<longleftrightarrow> s \<noteq> [] \<and> list_all is_digit s"

text \<open>\<open>strconv.ParseInt\<close> and \<open>ParseUint\<close> on a JSON number.\<close>

definition parse_i64 :: "string \<Rightarrow> int option" where
  "parse_i64 s =
     (let (neg, d) = (case s of c # t \<Rightarrow> if c = CHR ''-'' then (True, t) else (False, s) | [] \<Rightarrow> (False, s));
          n = int (dec_val d); v = (if neg then - n else n)
      in if all_digits d \<and> - 9223372036854775808 \<le> v \<and> v < 9223372036854775808 then Some v else None)"

definition parse_u64 :: "string \<Rightarrow> 64 word option" where
  "parse_u64 s = (if all_digits s \<and> dec_val s < 18446744073709551616 then Some (of_nat (dec_val s)) else None)"

definition dec_i64 :: "int \<Rightarrow> json \<Rightarrow> int option" where
  "dec_i64 cur j = (case j of JNull \<Rightarrow> Some cur | JNum n \<Rightarrow> parse_i64 n | _ \<Rightarrow> None)"

definition dec_u64 :: "64 word \<Rightarrow> json \<Rightarrow> 64 word option" where
  "dec_u64 cur j = (case j of JNull \<Rightarrow> Some cur | JNum n \<Rightarrow> parse_u64 n | _ \<Rightarrow> None)"

text \<open>An array is decoded over the elements the slice has, new elements start at zero; a
  null makes the slice nil.\<close>

fun dec_elems :: "('a \<Rightarrow> json \<Rightarrow> 'a option) \<Rightarrow> 'a \<Rightarrow> 'a list \<Rightarrow> json list \<Rightarrow> 'a list option" where
  "dec_elems dec zero cur [] = Some []"
| "dec_elems dec zero cur (j # js) =
     (case dec (case cur of [] \<Rightarrow> zero | c # _ \<Rightarrow> c) j of
        None \<Rightarrow> None
      | Some x \<Rightarrow> map_option (\<lambda>xs. x # xs) (dec_elems dec zero (tl cur) js))"

definition dec_list :: "('a \<Rightarrow> json \<Rightarrow> 'a option) \<Rightarrow> 'a \<Rightarrow> 'a list \<Rightarrow> json \<Rightarrow> 'a list option" where
  "dec_list dec zero cur j = (case j of JNull \<Rightarrow> Some [] | JArr js \<Rightarrow> dec_elems dec zero cur js | _ \<Rightarrow> None)"

text \<open>A struct: the members in order, each into the field its key names; unknown keys are
  skipped.\<close>

fun dec_members :: "(bytes \<Rightarrow> 'a \<Rightarrow> json \<Rightarrow> 'a option) \<Rightarrow> 'a \<Rightarrow> (bytes \<times> json) list \<Rightarrow> 'a option" where
  "dec_members field cur [] = Some cur"
| "dec_members field cur ((key, j) # ms) =
     (case field key cur j of None \<Rightarrow> None | Some cur' \<Rightarrow> dec_members field cur' ms)"

definition dec_struct :: "(bytes \<Rightarrow> 'a \<Rightarrow> json \<Rightarrow> 'a option) \<Rightarrow> 'a \<Rightarrow> json \<Rightarrow> 'a option" where
  "dec_struct field cur j = (case j of JNull \<Rightarrow> Some cur | JObj ms \<Rightarrow> dec_members field cur ms | _ \<Rightarrow> None)"

definition jint :: "int \<Rightarrow> json" where
  "jint i = JNum (int_str i)"

lemma json_ok_jint [simp]: "json_ok (jint i)"
  by (auto simp: jint_def)

lemma all_digits_nat_str [simp]: "all_digits (nat_str n)"
  using nat_str_digits [of n] by (simp add: all_digits_def list_all_iff)

lemma parse_i64_int_str:
  assumes "- 9223372036854775808 \<le> i" "i < 9223372036854775808"
  shows "parse_i64 (int_str i) = Some i"
proof (cases "i < 0")
  case True
  with assms show ?thesis by (simp add: parse_i64_def int_str_def)
next
  case False
  obtain c t where ct: "nat_str (nat i) = c # t" by (cases "nat_str (nat i)") auto
  moreover from this have "c \<noteq> CHR ''-''" using nat_str_digits [of "nat i"] by (auto simp: is_digit_def)
  ultimately have "(case nat_str (nat i) of [] \<Rightarrow> (False, nat_str (nat i))
      | c # t \<Rightarrow> if c = CHR ''-'' then (True, t) else (False, nat_str (nat i))) = (False, nat_str (nat i))" by simp
  with False assms show ?thesis by (simp add: parse_i64_def int_str_def)
qed

lemma dec_i64_jint:
  "- 9223372036854775808 \<le> i \<Longrightarrow> i < 9223372036854775808 \<Longrightarrow> dec_i64 cur (jint i) = Some i"
  by (simp add: dec_i64_def jint_def parse_i64_int_str)

lemma dec_u64_jint: "dec_u64 cur (jint (uint w)) = Some w"
proof -
  have "uint w = int (unat w)" "unat w < 18446744073709551616"
    using unsigned_less [of w, where ?'a = nat] by simp_all
  then show ?thesis by (simp add: dec_u64_def jint_def parse_u64_def int_str_def)
qed

lemma dec_elems_map:
  assumes "\<forall>x \<in> set xs. dec zero (enc x) = Some x"
  shows "dec_elems dec zero [] (map enc xs) = Some xs"
  using assms by (induction xs) auto

lemma dec_list_map:
  "\<forall>x \<in> set xs. dec zero (enc x) = Some x \<Longrightarrow> dec_list dec zero [] (JArr (map enc xs)) = Some xs"
  by (simp add: dec_list_def dec_elems_map)

section \<open>Fuel\<close>

text \<open>Parsing consumes input, and with fuel above twice the length of the input more fuel changes
  nothing: the parser runs out of fuel on no input.\<close>

lemma length_skip_ws: "length (skip_ws s) \<le> length s"
  by (simp add: skip_ws_def length_dropWhile_le)

lemma hex4_shorter: "hex4 s = Some (n, r) \<Longrightarrow> length r < length s"
  by (cases s rule: hex4.cases) (auto split: option.splits)

lemma low_half_shorter: "low_half r s = (r', s') \<Longrightarrow> length s' \<le> length s"
  by (auto simp: low_half_def dest!: hex4_shorter split: list.splits if_splits option.splits prod.splits)

lemma p_chars_shorter: "p_chars k s = Some (x, r) \<Longrightarrow> length r < length s"
proof (induction k s arbitrary: x rule: p_chars.induct)
  case (3 k c s)
  note IH = "3.IH"
  show ?case
  proof (cases "c = CHR 0x22 \<or> c \<noteq> CHR 0x5C")
    case True
    with "3.prems" IH(3) IH(4) show ?thesis
      by (fastforce split: if_splits prod.splits)
  next
    case False
    then obtain e t where s: "s = e # t" using "3.prems" by (cases s) auto
    show ?thesis
    proof (cases "e = CHR ''u''")
      case True
      then obtain n u r' u' where h: "hex4 t = Some (n, u)" "(if surrogate n then low_half n u else (n, u)) = (r', u')"
        and p: "\<exists>y. p_chars k u' = Some (y, r)"
        using "3.prems" False s by (auto split: option.splits prod.splits)
      from h hex4_shorter low_half_shorter have "length u' < length t" by (fastforce split: if_splits)
      moreover have "length r < length u'" using p IH(1) [OF _ _ s True] h False by auto
      ultimately show ?thesis by (simp add: s)
    next
      case e: False
      then obtain y where "p_chars k t = Some (y, r)" using "3.prems" False s by (auto split: option.splits)
      moreover obtain d where "simple_escape e = Some d" using "3.prems" False s e by (auto split: option.splits)
      ultimately have "length r < length t" using IH(2) [OF _ _ s e] False by auto
      then show ?thesis by (simp add: s)
    qed
  qed
qed auto

lemma p_string_shorter: "p_string s = Some (x, r) \<Longrightarrow> length r < length s"
  by (auto simp: p_string_def dest!: p_chars_shorter split: list.splits if_splits)

lemma length_p_digits: "p_digits s = (d, r) \<Longrightarrow> length s = length d + length r"
  by (auto simp: p_digits_def simp flip: length_append)

lemma p_int_shorter: "p_int s = Some (i, r) \<Longrightarrow> length r < length s"
  by (auto simp: p_int_def p_digits_def less_Suc_eq_le length_dropWhile_le split: list.splits if_splits)

lemma p_frac_shorter: "p_frac s = Some (f, r) \<Longrightarrow> length r \<le> length s"
  by (auto simp: p_frac_def dest!: length_p_digits split: list.splits if_splits prod.splits)

lemma p_exp_shorter: "p_exp s = Some (f, r) \<Longrightarrow> length r \<le> length s"
  by (auto simp: p_exp_def Let_def dest!: length_p_digits split: list.splits if_splits prod.splits)

lemma p_literal_shorter: "p_literal s = Some (j, r) \<Longrightarrow> s \<noteq> [] \<Longrightarrow> length r < length s"
proof -
  assume p: "p_literal s = Some (j, r)" and s: "s \<noteq> []"
  have "length r < length s" if "p_number s = Some (n, r)" for n
    using that
    by (fastforce simp: p_number_def Let_def split: prod.splits option.splits list.splits if_splits
        dest!: p_int_shorter p_frac_shorter p_exp_shorter)
  with p s show ?thesis by (auto simp: p_literal_def split: if_splits)
qed

lemma p_shorter:
  "p_value k s = Some (j, r) \<Longrightarrow> length r < length s"
  "p_elems k s = Some (js, r) \<Longrightarrow> length r < length s"
  "p_members k s = Some (ms, r) \<Longrightarrow> length r < length s"
proof (induction k s and k s and k s arbitrary: j r and js r and ms r rule: p_value_p_elems_p_members.induct)
  case (2 k s)
  have l: "length (skip_ws u) \<le> length u" for u by (rule length_skip_ws)
  from "2.prems" obtain c t where ct: "skip_ws s = c # t" by (auto split: list.splits)
  have len: "length t < length s" using l [of s] ct by simp
  show ?case
  proof (cases "c = CHR ''['' \<or> c = CHR ''{''")
    case True
    then obtain d u where du: "skip_ws t = d # u" using "2.prems" ct by (auto split: list.splits)
    have "length r < length (d # u)"
      using "2.prems" True ct du "2.IH"(1) [OF ct _ du] "2.IH"(2) [OF ct _ _ du]
      by (auto split: if_splits)
    with l [of t] len du show ?thesis by simp
  next
    case False
    then have "length r < length (c # t)"
      using "2.prems" ct by (auto dest!: p_string_shorter p_literal_shorter split: if_splits)
    with l [of s] ct show ?thesis by simp
  qed
next
  case (4 k s)
  from "4.prems" obtain j u where v: "p_value k s = Some (j, u)" by (auto split: option.splits)
  from "4.prems" v obtain c t where ct: "skip_ws u = c # t" by (auto split: list.splits)
  have "length t < length s" using "4.IH"(1) [OF v] length_skip_ws [of u] ct by simp
  moreover have "length r \<le> length t"
    using "4.prems" v ct "4.IH"(2) [OF v refl ct] by (fastforce split: if_splits)
  ultimately show ?case by simp
next
  case (6 k s)
  from "6.prems" obtain key u where p: "p_string (skip_ws s) = Some (key, u)" by (auto split: option.splits)
  from "6.prems" p obtain t where ct: "skip_ws u = CHR '':'' # t" by (auto split: list.splits if_splits)
  from "6.prems" p ct obtain j v where v: "p_value k t = Some (j, v)" by (auto split: option.splits)
  from "6.prems" p ct v obtain d x where dx: "skip_ws v = d # x" by (auto split: list.splits)
  have "length x < length s"
    using p_string_shorter [OF p] length_skip_ws [of s] length_skip_ws [of u] length_skip_ws [of v] ct dx
      "6.IH"(1) [OF p refl ct _ v] by simp
  moreover have "length r \<le> length x"
    using "6.prems" p ct v dx "6.IH"(2) [OF p refl ct _ v refl dx] by (fastforce split: if_splits)
  ultimately show ?case by simp
qed auto

lemma p_fuel:
  "2 * length s < k \<Longrightarrow> k \<le> m \<Longrightarrow> p_value m s = p_value k s"
  "2 * length s + 1 < k \<Longrightarrow> k \<le> m \<Longrightarrow> p_elems m s = p_elems k s"
  "2 * length s < k \<Longrightarrow> k \<le> m \<Longrightarrow> p_members m s = p_members k s"
proof (induction k s and k s and k s arbitrary: m and m and m rule: p_value_p_elems_p_members.induct)
  case (2 k s)
  obtain n where m: "m = Suc n" "k \<le> n" using "2.prems" by (cases m) auto
  have e: "p_elems n (d # u) = p_elems k (d # u)"
    if "skip_ws s = c # t" "skip_ws t = d # u" "c = CHR ''[''" "d \<noteq> CHR '']''" for c t d u
    using "2.IH"(1) [OF that(1,3,2,4) _ m(2)] that "2.prems"(1) length_skip_ws [of s] length_skip_ws [of t] by simp
  have o: "p_members n (d # u) = p_members k (d # u)"
    if "skip_ws s = c # t" "skip_ws t = d # u" "c = CHR ''{''" "d \<noteq> CHR ''}''" for c t d u
    using "2.IH"(2) [OF that(1) _ that(3,2,4) _ m(2)] that "2.prems"(1) length_skip_ws [of s] length_skip_ws [of t] by simp
  show ?case using e o by (auto simp: m(1) split: list.split)
next
  case (4 k s)
  obtain n where m: "m = Suc n" "k \<le> n" using "4.prems" by (cases m) auto
  have v: "p_value n s = p_value k s" using "4.IH"(1) [OF _ m(2)] "4.prems"(1) by simp
  have e: "p_elems n t = p_elems k t" if "p_value k s = Some (j, r)" "skip_ws r = CHR '','' # t" for j r t
    using "4.IH"(2) [OF that(1) refl that(2) _ _ _ m(2)] p_shorter(1) [OF that(1)] that length_skip_ws [of r] "4.prems"(1)
    by simp
  show ?case using e by (auto simp: m(1) v split: list.split option.split)
next
  case (6 k s)
  obtain n where m: "m = Suc n" "k \<le> n" using "6.prems" by (cases m) auto
  have v: "p_value n t = p_value k t \<and> 2 * length t < k"
    if "p_string (skip_ws s) = Some (key, r)" "skip_ws r = CHR '':'' # t" for key r t
    using "6.IH"(1) [OF that(1) refl that(2) _ _ m(2)] p_string_shorter [OF that(1)] that
      length_skip_ws [of r] length_skip_ws [of s] "6.prems"(1) by simp
  have e: "p_members n x = p_members k x"
    if "p_string (skip_ws s) = Some (key, r)" "skip_ws r = CHR '':'' # t" "p_value k t = Some (j, u)"
      "skip_ws u = CHR '','' # x" for key r t j u x
    using "6.IH"(2) [OF that(1) refl that(2) _ that(3) refl that(4) _ _ _ m(2)] v [OF that(1,2)]
      p_shorter(1) [OF that(3)] that length_skip_ws [of u] by simp
  show ?case
  proof (cases "\<exists>key r t. p_string (skip_ws s) = Some (key, r) \<and> skip_ws r = CHR '':'' # t")
    case False
    then show ?thesis by (auto simp: m(1) split: list.split option.split)
  next
    case True
    then obtain key r t where p: "p_string (skip_ws s) = Some (key, r)" "skip_ws r = CHR '':'' # t" by blast
    show ?thesis
    proof (cases "\<exists>j u x. p_value k t = Some (j, u) \<and> skip_ws u = CHR '','' # x")
      case False
      with p v [OF p] show ?thesis by (simp add: m(1)) (auto split: list.split option.split)
    next
      case True
      then obtain j u x where "p_value k t = Some (j, u)" "skip_ws u = CHR '','' # x" by blast
      with p v [OF p] e [OF p] show ?thesis by (simp add: m(1))
    qed
  qed
qed auto

lemma p_value_fuel: "2 * length s < k \<Longrightarrow> p_value k s = p_value (Suc (2 * length s)) s"
  by (rule p_fuel(1)) auto

section \<open>Characters of printed values\<close>

lemma ascii_digit [simp]: "is_digit c \<Longrightarrow> (of_char c :: nat) < 128"
  by (simp add: is_digit_def)

lemma ascii_b64_chr: "n < 64 \<Longrightarrow> (of_char (b64_chr n) :: nat) < 128"
  by (auto simp: of_char_b64_chr)

lemma ascii_b64: "ascii (b64 s)"
proof -
  have "list_all (\<lambda>c. (of_char c :: nat) < 128) (b64_groups xs)" if "\<forall>a \<in> set xs. a < 256" for xs
    using that
  proof (induction xs rule: b64_groups.induct)
    case (3 a b)
    then have "a div 4 < 64" "(a mod 4) * 16 + b div 16 < 64" "(b mod 16) * 4 < 64" by auto
    then show ?case by (simp add: ascii_b64_chr)
  next
    case (4 a b d r)
    then have "a div 4 < 64" "(a mod 4) * 16 + b div 16 < 64" "(b mod 16) * 4 + d div 64 < 64" by auto
    with "4" show ?case by (simp add: ascii_b64_chr)
  qed (auto simp: ascii_b64_chr)
  then show ?thesis by (simp add: ascii_def b64_def)
qed

lemma esc_char_chars: "(of_char c :: nat) < 128 \<Longrightarrow> d \<in> set (esc_char c) \<Longrightarrow> 32 \<le> (of_char d :: nat)"
proof -
  have h: "32 \<le> (of_char (hex_char n) :: nat)" if "n < 16" for n
    using that by (simp add: hex_char_def)
  assume "(of_char c :: nat) < 128" "d \<in> set (esc_char c)"
  then show ?thesis
    using h by (auto simp: esc_char_def u_escape_def Let_def less_mult_imp_div_less split: if_splits)
qed

lemma print_string_chars: "d \<in> set (print_string s) \<Longrightarrow> ascii s \<Longrightarrow> 32 \<le> (of_char d :: nat)"
proof -
  have "\<forall>d \<in> set (esc_string s). 32 \<le> (of_char d :: nat)" if "ascii s" for s
    using that by (induction s) (auto dest: esc_char_chars)
  then show "d \<in> set (print_string s) \<Longrightarrow> ascii s \<Longrightarrow> 32 \<le> (of_char d :: nat)"
    by (auto simp: print_string_def)
qed

lemma set_join: "c \<in> set (join sep ws) \<Longrightarrow> c \<in> set sep \<or> (\<exists>w \<in> set ws. c \<in> set w)"
  by (induction sep ws rule: join.induct) auto

lemma print_chars: "json_ok j \<Longrightarrow> c \<in> set (print_json j) \<Longrightarrow> 32 \<le> (of_char c :: nat)"
proof (induction j arbitrary: c)
  case (JNum n)
  then obtain i where "n = int_str i" by auto
  with JNum nat_str_digits show ?case by (fastforce simp: int_str_def is_digit_def split: if_splits)
next
  case (JStr s)
  then show ?case using print_string_chars [of c s] by simp
next
  case (JArr js)
  then show ?case by (auto dest!: set_join)
next
  case (JObj ms)
  then show ?case by (fastforce dest!: set_join print_string_chars)
qed (auto split: if_splits)

end
