(* ===== verification/Gofmt.thy ===== *)
theory Gofmt
  imports Derive Json
begin

text \<open>
  The formatting verbs the program's text output uses: \<open>strconv.Quote\<close> (also \<open>%q\<close>), columns
  of a given width and the RFC 3339 form of a time in UTC. Which characters outside ASCII count
  as printable is a table of the Unicode version Go ships and an argument here.
\<close>

section \<open>Quoting\<close>

definition x_escape :: "nat \<Rightarrow> string" where
  "x_escape n = [CHR 0x5C, CHR ''x'', hex_char (n div 16), hex_char (n mod 16)]"

definition U_escape :: "nat \<Rightarrow> string" where
  "U_escape n = CHR 0x5C # CHR ''U'' # map (\<lambda>i. hex_char (n div 16 ^ i mod 16)) [7, 6, 5, 4, 3, 2, 1, 0]"

definition is_print :: "(nat \<Rightarrow> bool) \<Rightarrow> nat \<Rightarrow> bool" where
  "is_print pr r \<longleftrightarrow> (if r < 128 then 32 \<le> r \<and> r < 127 else pr r)"

definition quote_rune :: "(nat \<Rightarrow> bool) \<Rightarrow> nat \<Rightarrow> string" where
  "quote_rune pr r =
     (if r = 34 \<or> r = 92 then [CHR 0x5C, char_of r]
      else if is_print pr r then encode_rune r
      else if r = 7 then [CHR 0x5C, CHR ''a''] else if r = 8 then [CHR 0x5C, CHR ''b'']
      else if r = 12 then [CHR 0x5C, CHR ''f''] else if r = 10 then [CHR 0x5C, CHR ''n'']
      else if r = 13 then [CHR 0x5C, CHR ''r''] else if r = 9 then [CHR 0x5C, CHR ''t'']
      else if r = 11 then [CHR 0x5C, CHR ''v'']
      else if r < 32 \<or> r = 127 then x_escape r
      else if r < 65536 then u_escape r
      else U_escape r)"

function quote_loop :: "(nat \<Rightarrow> bool) \<Rightarrow> bytes \<Rightarrow> string" where
  "quote_loop pr [] = []"
| "quote_loop pr (c # s) =
     (case decode_rune (map of_char (take 4 (c # s))) of
        None \<Rightarrow> x_escape (of_char c) @ quote_loop pr s
      | Some (r, n) \<Rightarrow> quote_rune pr r @ quote_loop pr (drop (n - 1) s))"
  by pat_completeness auto
termination by (relation "measure (\<lambda>(pr, s). length s)") auto

definition quote :: "(nat \<Rightarrow> bool) \<Rightarrow> bytes \<Rightarrow> string" where
  "quote pr s = CHR 0x22 # quote_loop pr s @ [CHR 0x22]"

lemma quote_loop_name: "list_all name_char s \<Longrightarrow> quote_loop pr s = s"
proof (induction s)
  case (Cons c s)
  then have c: "32 \<le> (of_char c :: nat)" "of_char c < (127 :: nat)" "of_char c \<noteq> (34 :: nat)" "of_char c \<noteq> (92 :: nat)"
    by (auto simp: name_char_def is_lower_def is_digit_def)
  then show ?case using Cons by (simp add: quote_rune_def is_print_def encode_rune_def)
qed simp

section \<open>Columns\<close>

text \<open>The width of \<open>%-14s\<close> and \<open>%5d\<close> counts runes; a byte that is no UTF-8 counts as one.\<close>

function rune_count :: "bytes \<Rightarrow> nat" where
  "rune_count [] = 0"
| "rune_count (c # s) =
     (case decode_rune (map of_char (take 4 (c # s))) of
        None \<Rightarrow> Suc (rune_count s)
      | Some (r, n) \<Rightarrow> Suc (rune_count (drop (n - 1) s)))"
  by pat_completeness auto
termination by (relation "measure length") auto

definition pad_right :: "nat \<Rightarrow> string \<Rightarrow> string" where
  "pad_right n s = s @ replicate (n - rune_count s) (CHR '' '')"

definition pad_left :: "nat \<Rightarrow> string \<Rightarrow> string" where
  "pad_left n s = replicate (n - rune_count s) (CHR '' '') @ s"

section \<open>Times\<close>

text \<open>The calendar date of a day counted from 1 January 1970, in the proleptic Gregorian
  calendar: eras of 400 years that begin on 1 March.\<close>

definition civil :: "int \<Rightarrow> int \<times> int \<times> int" where
  "civil day =
     (let z = day + 719468; era = z div 146097; doe = z mod 146097;
          yoe = (doe - doe div 1460 + doe div 36524 - doe div 146096) div 365;
          doy = doe - (365 * yoe + yoe div 4 - yoe div 100);
          mp = (5 * doy + 2) div 153;
          d = doy - (153 * mp + 2) div 5 + 1;
          m = (if mp < 10 then mp + 3 else mp - 9);
          y = yoe + era * 400
      in (if m \<le> 2 then y + 1 else y, m, d))"

definition pad0 :: "nat \<Rightarrow> int \<Rightarrow> string" where
  "pad0 n i = (if i < 0 then ''-'' else []) @
     (let s = nat_str (nat \<bar>i\<bar>) in replicate (n - length s) (CHR ''0'') @ s)"

definition rfc3339 :: "time \<Rightarrow> string" where
  "rfc3339 t =
     (let s = unix_sec t; (y, m, d) = civil (s div 86400); r = s mod 86400 in
      pad0 4 y @ ''-'' @ pad0 2 m @ ''-'' @ pad0 2 d @ ''T'' @
      pad0 2 (r div 3600) @ '':'' @ pad0 2 (r div 60 mod 60) @ '':'' @ pad0 2 (r mod 60) @ ''Z'')"

lemma pad0_chars: "c \<in> set (pad0 n i) \<Longrightarrow> is_digit c \<or> c = CHR ''-''"
  using nat_str_digits by (auto simp: pad0_def Let_def is_digit_def split: if_splits)

lemma rfc3339_chars: "c \<in> set (rfc3339 t) \<Longrightarrow> is_digit c \<or> c \<in> set ''-:TZ''"
  by (auto simp: rfc3339_def Let_def split: prod.splits dest: pad0_chars)

end
