(* ===== verification/Store.thy ===== *)
theory Store
  imports Derive
begin

text \<open>
  The key-value substrate (\<open>internal/engine/store.go\<close>, \<open>internal/engine/mockstore.go\<close>):
  the \<open>Store\<close> interface as a record of state-passing operations, the \<open>ReliableStore\<close> that
  publishes by put-confirm-retry, and the in-memory \<open>MockStore\<close> with its expiry.

  The locale \<open>kv_store\<close> is the contract of a raw store: what is visible after a put and
  what a get reports. \<open>ReliableStore.Publish\<close> is verified against it, and the mock store
  is an interpretation of it. \<open>store_reads\<close> and \<open>store_frame\<close> carry properties of the world through
  programs that only read a store, or use it in any way.
\<close>

section \<open>The interface\<close>

text \<open>
  \<open>sleep_op\<close> is the wait of \<open>sleep(ctx, d)\<close>: it fails with the context's error when the
  context ends first. \<open>ctx_op\<close> is \<open>ctx.Err()\<close>.
\<close>

record 's store_ops =
  put_op :: "string \<Rightarrow> bytes \<Rightarrow> 's \<Rightarrow> goerr option \<times> 's"
  get_op :: "string \<Rightarrow> 's \<Rightarrow> bytes list res \<times> 's"
  sleep_op :: "duration \<Rightarrow> 's \<Rightarrow> goerr option \<times> 's"
  ctx_op :: "'s \<Rightarrow> goerr option"

section \<open>ReliableStore\<close>

record ReliableStore =
  maxRetries :: int
  retryDelay :: duration

definition NewReliable :: ReliableStore where
  "NewReliable = \<lparr>maxRetries = 3, retryDelay = 200 * 1000000\<rparr>"

definition WithRetries :: "int \<Rightarrow> duration \<Rightarrow> ReliableStore \<Rightarrow> ReliableStore" where
  "WithRetries n delay r = r\<lparr>maxRetries := n, retryDelay := delay\<rparr>"

definition confirm :: "'s store_ops \<Rightarrow> string \<Rightarrow> bytes \<Rightarrow> 's \<Rightarrow> bool res \<times> 's" where
  "confirm ops key v s =
     (case get_op ops key s of
        (Inl e, s') \<Rightarrow> (Inl e, s')
      | (Inr got, s') \<Rightarrow> (Inr (v \<in> set got), s'))"

text \<open>The retry loop of \<open>Publish\<close>, from a given attempt on.\<close>

function Publish_loop ::
  "'s store_ops \<Rightarrow> ReliableStore \<Rightarrow> string \<Rightarrow> bytes \<Rightarrow> int \<Rightarrow> 's \<Rightarrow> goerr option \<times> 's" where
  "Publish_loop ops r key v attempt s =
     (case put_op ops key v s of
        (Some e, s1) \<Rightarrow>
          if attempt \<ge> maxRetries r then (Some ErrUnavailable, s1)
          else (case sleep_op ops (retryDelay r) s1 of
                  (Some e', s2) \<Rightarrow> (Some e', s2)
                | (None, s2) \<Rightarrow> Publish_loop ops r key v (attempt + 1) s2)
      | (None, s1) \<Rightarrow>
          (case confirm ops key v s1 of
             (ok, s2) \<Rightarrow>
               if ok = Inr True then (None, s2)
               else if attempt \<ge> maxRetries r then (Some ErrNotPublished, s2)
               else (case sleep_op ops (retryDelay r) s2 of
                       (Some e', s3) \<Rightarrow> (Some e', s3)
                     | (None, s3) \<Rightarrow> Publish_loop ops r key v (attempt + 1) s3)))"
  by pat_completeness auto
termination
  by (relation "measure (\<lambda>(ops, r, key, v, attempt, s). nat (maxRetries r - attempt))") auto

declare Publish_loop.simps [simp del]

definition Publish :: "'s store_ops \<Rightarrow> ReliableStore \<Rightarrow> string \<Rightarrow> bytes \<Rightarrow> 's \<Rightarrow> goerr option \<times> 's" where
  "Publish ops r key v s = Publish_loop ops r key v 0 s"

definition Read :: "'s store_ops \<Rightarrow> string \<Rightarrow> 's \<Rightarrow> bytes list res \<times> 's" where
  "Read ops key s = get_op ops key s"

definition WithContext :: "'s store_ops \<Rightarrow> duration \<Rightarrow> 's \<Rightarrow> goerr option \<times> 's" where
  "WithContext ops d s = sleep_op ops d s"

section \<open>MockStore\<close>

record MockStore =
  ttl :: duration
  "values" :: "(string, (bytes \<times> time) list) gomap"

definition NewMockStore :: "duration \<Rightarrow> MockStore" where
  "NewMockStore t = \<lparr>ttl = (if t \<le> 0 then 600 * sec else t), values = []\<rparr>"

definition entries :: "MockStore \<Rightarrow> string \<Rightarrow> (bytes \<times> time) list" where
  "entries m key = (case map_of (values m) key of None \<Rightarrow> [] | Some es \<Rightarrow> es)"

definition purgeLocked :: "time \<Rightarrow> string \<Rightarrow> MockStore \<Rightarrow> MockStore" where
  "purgeLocked now key m =
     (let out = filter (\<lambda>(v, e). e > now) (entries m key) in
      if out = [] then m\<lparr>values := AList.delete key (values m)\<rparr>
      else m\<lparr>values := AList.update key out (values m)\<rparr>)"

definition mock_Get :: "time \<Rightarrow> string \<Rightarrow> MockStore \<Rightarrow> bytes list \<times> MockStore" where
  "mock_Get now key m = (let m' = purgeLocked now key m in (map fst (entries m' key), m'))"

text \<open>The refresh-or-append of \<open>Put\<close>: the first identical value gets a new expiry.\<close>

fun refresh :: "bytes \<Rightarrow> time \<Rightarrow> (bytes \<times> time) list \<Rightarrow> (bytes \<times> time) list" where
  "refresh v e [] = [(v, e)]"
| "refresh v e ((w, x) # es) = (if w = v then (w, e) # es else (w, x) # refresh v e es)"

definition mock_Put :: "time \<Rightarrow> string \<Rightarrow> bytes \<Rightarrow> MockStore \<Rightarrow> MockStore" where
  "mock_Put now key v m =
     (let m' = purgeLocked now key m in
      m'\<lparr>values := AList.update key (refresh v (now + ttl m') (entries m' key)) (values m')\<rparr>)"

definition mock_Delete :: "string \<Rightarrow> bytes \<Rightarrow> MockStore \<Rightarrow> MockStore" where
  "mock_Delete key v m =
     m\<lparr>values := AList.update key (filter (\<lambda>(w, e). w \<noteq> v) (entries m key)) (values m)\<rparr>"

definition mock_Len :: "time \<Rightarrow> string \<Rightarrow> MockStore \<Rightarrow> nat \<times> MockStore" where
  "mock_Len now key m = (let m' = purgeLocked now key m in (length (entries m' key), m'))"

text \<open>
  The mock store as a raw store: the injectable clock is part of the world, a wait moves it,
  and a deadline ends the context.
\<close>

record mock_world =
  clock :: time
  deadline :: "time option"
  mock :: MockStore

definition ctx_err :: "mock_world \<Rightarrow> goerr option" where
  "ctx_err w = (case deadline w of None \<Rightarrow> None
     | Some d \<Rightarrow> if d \<le> clock w then Some ErrContext else None)"

definition mock_sleep :: "duration \<Rightarrow> mock_world \<Rightarrow> goerr option \<times> mock_world" where
  "mock_sleep d w =
     (case deadline w of
        None \<Rightarrow> (None, w\<lparr>clock := clock w + max 0 d\<rparr>)
      | Some t \<Rightarrow> if t < clock w + max 0 d then (Some ErrContext, w\<lparr>clock := max (clock w) t\<rparr>)
                  else (None, w\<lparr>clock := clock w + max 0 d\<rparr>))"

definition mock_ops :: "mock_world store_ops" where
  "mock_ops =
     \<lparr>put_op = \<lambda>key v w. (None, w\<lparr>mock := mock_Put (clock w) key v (mock w)\<rparr>),
      get_op = \<lambda>key w. (case mock_Get (clock w) key (mock w) of (vs, m') \<Rightarrow> (Inr vs, w\<lparr>mock := m'\<rparr>)),
      sleep_op = mock_sleep, ctx_op = ctx_err\<rparr>"

section \<open>The retry loop\<close>

lemma Publish_loop_confirmed:
  "Publish_loop ops r key v n s = (None, s') \<Longrightarrow>
   \<exists>s1 vs. get_op ops key s1 = (Inr vs, s') \<and> v \<in> set vs"
proof (induction ops r key v n s rule: Publish_loop.induct)
  case (1 ops r key v n s)
  obtain p s1 where p: "put_op ops key v s = (p, s1)" by (cases "put_op ops key v s")
  show ?case
  proof (cases p)
    case (Some e)
    with "1.prems" p obtain s2 where "\<not> n \<ge> maxRetries r" "sleep_op ops (retryDelay r) s1 = (None, s2)"
      "Publish_loop ops r key v (n + 1) s2 = (None, s')"
      by (auto simp: Publish_loop.simps [of ops r key v n s] split: if_splits prod.splits option.splits)
    with "1.IH"(2) [OF p [symmetric] Some] show ?thesis by simp
  next
    case None
    obtain ok s2 where c: "confirm ops key v s1 = (ok, s2)" by (cases "confirm ops key v s1")
    show ?thesis
    proof (cases "ok = Inr True")
      case True
      with "1.prems" p None c have "s2 = s'"
        by (simp add: Publish_loop.simps [of ops r key v n s])
      with True c show ?thesis
        by (auto simp: confirm_def split: prod.splits sum.splits)
    next
      case False
      with "1.prems" p None c obtain s3 where "\<not> n \<ge> maxRetries r"
        "sleep_op ops (retryDelay r) s2 = (None, s3)" "Publish_loop ops r key v (n + 1) s3 = (None, s')"
        by (auto simp: Publish_loop.simps [of ops r key v n s] split: if_splits prod.splits option.splits)
      with "1.IH"(1) [OF p [symmetric] None c [symmetric] False] show ?thesis by simp
    qed
  qed
qed

lemma Publish_loop_errors:
  "Publish_loop ops r key v n s = (Some e, s') \<Longrightarrow>
   e \<in> {ErrUnavailable, ErrNotPublished} \<or> (\<exists>s1 s2. sleep_op ops (retryDelay r) s1 = (Some e, s2))"
proof (induction ops r key v n s rule: Publish_loop.induct)
  case (1 ops r key v n s)
  obtain p s1 where p: "put_op ops key v s = (p, s1)" by (cases "put_op ops key v s")
  obtain ok s2 where c: "confirm ops key v s1 = (ok, s2)" by (cases "confirm ops key v s1")
  show ?case
  proof (cases p)
    case (Some f)
    with "1.prems" p "1.IH"(2) [OF p [symmetric] Some] show ?thesis
      by (subst (asm) Publish_loop.simps) (auto split: if_splits prod.splits option.splits)
  next
    case None
    with "1.prems" p c "1.IH"(1) [OF p [symmetric] None c [symmetric]] show ?thesis
      by (subst (asm) Publish_loop.simps) (auto split: if_splits prod.splits option.splits)
  qed
qed

text \<open>A store whose puts always fail, counting them.\<close>

definition failing_ops :: "goerr \<Rightarrow> nat store_ops" where
  "failing_ops e = \<lparr>put_op = \<lambda>key v n. (Some e, Suc n), get_op = \<lambda>key n. (Inl e, n),
     sleep_op = \<lambda>d n. (None, n), ctx_op = \<lambda>n. None\<rparr>"

lemma Publish_loop_failing:
  "Publish_loop (failing_ops e) r key v a n =
     (Some ErrUnavailable, n + nat (maxRetries r - a) + 1)"
proof (induction "nat (maxRetries r - a)" arbitrary: a n)
  case 0
  then show ?case by (subst Publish_loop.simps) (simp add: failing_ops_def)
next
  case (Suc k)
  then have "a < maxRetries r" by linarith
  moreover have "k = nat (maxRetries r - (a + 1))" using Suc(2) by linarith
  moreover note Suc(1) [OF this, of "Suc n"]
  ultimately show ?case
    by (subst Publish_loop.simps) (simp add: failing_ops_def)
qed

section \<open>The contract of a raw store\<close>

locale kv_store =
  fixes ops :: "'s store_ops"
    and ready :: "'s \<Rightarrow> bool"
    and visible :: "'s \<Rightarrow> string \<Rightarrow> bytes set"
  assumes put_ok: "ready s \<Longrightarrow> \<exists>s'. put_op ops key v s = (None, s') \<and> ready s' \<and>
      visible s' key = insert v (visible s key) \<and> (\<forall>k. k \<noteq> key \<longrightarrow> visible s' k = visible s k)"
    and get_ok: "ready s \<Longrightarrow> \<exists>vs s'. get_op ops key s = (Inr vs, s') \<and> ready s' \<and>
      set vs = visible s key \<and> (\<forall>k. visible s' k = visible s k)"
begin

lemma Publish_visible:
  assumes "ready s"
  shows "\<exists>s'. Publish ops r key v s = (None, s') \<and> ready s' \<and>
     visible s' key = insert v (visible s key) \<and> (\<forall>k. k \<noteq> key \<longrightarrow> visible s' k = visible s k)"
proof -
  from put_ok [OF assms, of key v] obtain s1 where p: "put_op ops key v s = (None, s1)" "ready s1"
    and v1: "visible s1 key = insert v (visible s key)" "\<forall>k. k \<noteq> key \<longrightarrow> visible s1 k = visible s k"
    by blast
  from get_ok [OF p(2), of key] obtain vs s2 where g: "get_op ops key s1 = (Inr vs, s2)" "ready s2"
    "set vs = visible s1 key" "\<forall>k. visible s2 k = visible s1 k"
    by blast
  have "confirm ops key v s1 = (Inr True, s2)"
    using g v1 by (simp add: confirm_def)
  then show ?thesis
    using p v1 g by (simp add: Publish_def Publish_loop.simps [of ops r key v 0 s])
qed

end

text \<open>A property of the world no read and no wait touches is kept by every program that only
  reads the store; one that no put touches either is kept by every program over the store.\<close>

locale store_reads =
  fixes ops :: "'s store_ops"
    and P :: "'s \<Rightarrow> bool"
  assumes get_frame: "P s \<Longrightarrow> get_op ops key s = (r, s') \<Longrightarrow> P s'"
    and sleep_frame: "P s \<Longrightarrow> sleep_op ops d s = (e, s') \<Longrightarrow> P s'"
begin

lemma confirm_frame: "P s \<Longrightarrow> confirm ops key v s = (r, s') \<Longrightarrow> P s'"
  by (auto simp: confirm_def split: prod.splits sum.splits dest: get_frame)

lemma Read_frame: "P s \<Longrightarrow> Read ops key s = (r, s') \<Longrightarrow> P s'"
  by (simp add: Read_def get_frame)

end

lemma store_reads_True: "store_reads ops (\<lambda>_. True)"
  by unfold_locales auto

locale store_frame = store_reads ops P for ops :: "'s store_ops" and P :: "'s \<Rightarrow> bool" +
  assumes put_frame: "P s \<Longrightarrow> put_op ops key v s = (e, s') \<Longrightarrow> P s'"
begin

lemma Publish_loop_frame:
  "nat (maxRetries r - n) \<le> k \<Longrightarrow> P s \<Longrightarrow> Publish_loop ops r key v n s = (e, s') \<Longrightarrow> P s'"
proof (induction k arbitrary: n s)
  case 0
  then show ?case
    by (subst (asm) Publish_loop.simps)
       (auto split: prod.splits option.splits if_splits dest: put_frame confirm_frame)
next
  case (Suc k)
  have k: "n < maxRetries r \<Longrightarrow> nat (maxRetries r - (n + 1)) \<le> k" using Suc.prems(1) by auto
  show ?case
    using Suc.prems(2,3) k
    by (subst (asm) Publish_loop.simps)
       (auto split: prod.splits option.splits if_splits,
        (meson put_frame confirm_frame sleep_frame Suc.IH)+)
qed

lemma Publish_frame: "P s \<Longrightarrow> Publish ops r key v s = (e, s') \<Longrightarrow> P s'"
  unfolding Publish_def by (rule Publish_loop_frame [OF order_refl])

end

section \<open>The mock store\<close>

text \<open>What is live at a time: a map from value to expiry.\<close>

definition live :: "time \<Rightarrow> MockStore \<Rightarrow> string \<Rightarrow> bytes \<rightharpoonup> time" where
  "live t m key = map_of (filter (\<lambda>(v, e). e > t) (entries m key))"

definition mock_inv :: "MockStore \<Rightarrow> bool" where
  "mock_inv m \<longleftrightarrow> 0 < ttl m \<and> (\<forall>key. distinct (map fst (entries m key)))"

lemma entries_update [simp]:
  "entries (m\<lparr>values := AList.update k es (values m)\<rparr>) key = (if key = k then es else entries m key)"
  by (simp add: entries_def update_conv')

lemma entries_delete [simp]:
  "entries (m\<lparr>values := AList.delete k (values m)\<rparr>) key = (if key = k then [] else entries m key)"
  by (simp add: entries_def delete_conv')

lemma entries_purge:
  "entries (purgeLocked now k m) key =
     (if key = k then filter (\<lambda>(v, e). e > now) (entries m key) else entries m key)"
  by (auto simp: purgeLocked_def Let_def)

lemma ttl_purge [simp]: "ttl (purgeLocked now k m) = ttl m"
  by (simp add: purgeLocked_def Let_def)

lemma mock_inv_new: "mock_inv (NewMockStore t)"
  by (simp add: mock_inv_def NewMockStore_def entries_def sec_def)

lemma distinct_map_fst_filter: "distinct (map fst xs) \<Longrightarrow> distinct (map fst (filter P xs))"
  by (induction xs) auto

lemma mock_inv_purge: "mock_inv m \<Longrightarrow> mock_inv (purgeLocked now k m)"
  by (simp add: mock_inv_def entries_purge distinct_map_fst_filter)

lemma refresh_fst:
  "map fst (refresh v e es) = (if v \<in> fst ` set es then map fst es else map fst es @ [v])"
  by (induction v e es rule: refresh.induct) auto

lemma set_fst_refresh: "fst ` set (refresh v e es) = insert v (fst ` set es)"
  by (induction v e es rule: refresh.induct) auto

lemma map_of_refresh: "map_of (refresh v e es) = (map_of es)(v \<mapsto> e)"
  by (induction v e es rule: refresh.induct) (auto simp: fun_upd_twist)

lemma map_of_filter_live:
  "distinct (map fst es) \<Longrightarrow>
   map_of (filter (\<lambda>(v, e). P e) es) v = (case map_of es v of None \<Rightarrow> None | Some e \<Rightarrow> if P e then Some e else None)"
proof (induction es)
  case (Cons x es)
  then show ?case
    by (cases x) (auto split: option.splits simp: map_of_eq_None_iff image_iff)
qed simp

lemma live_alt:
  "mock_inv m \<Longrightarrow> live t m key v =
     (case map_of (entries m key) v of None \<Rightarrow> None | Some e \<Rightarrow> if e > t then Some e else None)"
  by (simp add: live_def mock_inv_def map_of_filter_live)

lemma live_purge: "mock_inv m \<Longrightarrow> now \<le> t \<Longrightarrow> live t (purgeLocked now k m) key = live t m key"
proof -
  assume inv: "mock_inv m" and le: "now \<le> t"
  have "filter (\<lambda>(v, e). e > t) (filter (\<lambda>(v, e). e > now) xs) = filter (\<lambda>(v, e). e > t) xs"
    for xs :: "(bytes \<times> time) list"
    using le by (induction xs) auto
  then show ?thesis by (simp add: live_def entries_purge)
qed

lemma mock_inv_put: "mock_inv m \<Longrightarrow> mock_inv (mock_Put now key v m)"
proof -
  assume "mock_inv m"
  then have i: "mock_inv (purgeLocked now key m)" by (rule mock_inv_purge)
  have "distinct (map fst (refresh v e es))" if "distinct (map fst es)" for e es
    using that by (auto simp: refresh_fst)
  with i show ?thesis
    by (simp add: mock_inv_def mock_Put_def Let_def)
qed

lemma live_put:
  assumes "mock_inv m" "now \<le> t"
  shows "live t (mock_Put now key v m) k =
     (if k = key then (live t m key)(v := (if t < now + ttl m then Some (now + ttl m) else None))
      else live t m k)"
proof
  fix w
  let ?p = "purgeLocked now key m"
  have i: "mock_inv ?p" "mock_inv (mock_Put now key v m)"
    using assms(1) by (simp_all add: mock_inv_purge mock_inv_put)
  have e: "entries (mock_Put now key v m) k =
      (if k = key then refresh v (now + ttl m) (entries ?p key) else entries ?p k)"
    by (simp add: mock_Put_def Let_def)
  have "live t (mock_Put now key v m) k w =
      (if k = key \<and> w = v then (if t < now + ttl m then Some (now + ttl m) else None)
       else live t ?p k w)"
    by (simp add: live_alt [OF i(1)] live_alt [OF i(2)] e map_of_refresh)
  then show "live t (mock_Put now key v m) k w =
     (if k = key then (live t m key)(v := (if t < now + ttl m then Some (now + ttl m) else None))
      else live t m k) w"
    by (simp add: live_purge [OF assms])
qed

lemma mock_Get_live:
  assumes "mock_inv m" "mock_Get now key m = (vs, m')"
  shows "set vs = dom (live now m key) \<and> distinct vs \<and> mock_inv m' \<and> (\<forall>k t. now \<le> t \<longrightarrow> live t m' k = live t m k)"
proof -
  have m': "m' = purgeLocked now key m" and vs: "vs = map fst (filter (\<lambda>(v, e). e > now) (entries m key))"
    using assms(2) by (auto simp: mock_Get_def Let_def entries_purge)
  have "distinct vs" using assms(1) by (simp add: vs mock_inv_def distinct_map_fst_filter)
  moreover have "set vs = dom (live now m key)"
    by (simp add: vs live_def dom_map_of_conv_image_fst)
  ultimately show ?thesis
    using assms(1) by (simp add: m' mock_inv_purge live_purge)
qed

lemma live_delete:
  assumes "mock_inv m"
  shows "live t (mock_Delete key v m) k = (if k = key then (live t m key)(v := None) else live t m k)"
proof -
  have "map_of (filter (\<lambda>(u, e). e > t) (filter (\<lambda>(w, e). w \<noteq> v) es)) =
      (map_of (filter (\<lambda>(u, e). e > t) es))(v := None)" for es :: "(bytes \<times> time) list"
    by (induction es) (auto simp: fun_upd_twist)
  then show ?thesis by (auto simp: live_def mock_Delete_def)
qed

text \<open>The mock store meets the contract, at every time and with every deadline.\<close>

definition mock_ready :: "mock_world \<Rightarrow> bool" where
  "mock_ready w = mock_inv (mock w)"

definition mock_visible :: "mock_world \<Rightarrow> string \<Rightarrow> bytes set" where
  "mock_visible w key = dom (live (clock w) (mock w) key)"

interpretation mock: kv_store mock_ops mock_ready mock_visible
proof
  fix s key v
  assume r: "mock_ready s"
  then have i: "mock_inv (mock s)" and t: "0 < ttl (mock s)"
    by (auto simp: mock_ready_def mock_inv_def)
  show "\<exists>s'. put_op mock_ops key v s = (None, s') \<and> mock_ready s' \<and>
      mock_visible s' key = insert v (mock_visible s key) \<and>
      (\<forall>k. k \<noteq> key \<longrightarrow> mock_visible s' k = mock_visible s k)"
    using i t by (auto simp: mock_ops_def mock_ready_def mock_visible_def mock_inv_put live_put)
  show "\<exists>vs s'. get_op mock_ops key s = (Inr vs, s') \<and> mock_ready s' \<and>
      set vs = mock_visible s key \<and> (\<forall>k. mock_visible s' k = mock_visible s k)"
    using mock_Get_live [OF i, of "clock s" key]
    by (cases "mock_Get (clock s) key (mock s)")
       (auto simp: mock_ops_def mock_ready_def mock_visible_def)
qed

section \<open>Properties\<close>

text \<open>C20: a publication that reports success was read back: the last thing it did was a read
  that returned the value. One that fails reports that the store is unavailable, that the value
  never showed up, or the end of the context during a wait.\<close>

theorem publish_outcome:
  assumes "Publish ops r key v s = (e, s')"
  shows "(e = None \<longrightarrow> (\<exists>s1 vs. get_op ops key s1 = (Inr vs, s') \<and> v \<in> set vs)) \<and>
     (\<forall>x. e = Some x \<longrightarrow> x \<in> {ErrUnavailable, ErrNotPublished} \<or>
        (\<exists>s1 s2. sleep_op ops (retryDelay r) s1 = (Some x, s2)))"
proof (cases e)
  case None
  then show ?thesis using Publish_loop_confirmed [of ops r key v 0 s s'] assms by (simp add: Publish_def)
next
  case (Some x)
  then show ?thesis using Publish_loop_errors [of ops r key v 0 s x s'] assms by (simp add: Publish_def)
qed

theorem publish_outcome_witness:
  "\<exists>s'. Publish (failing_ops ErrNotStored) NewReliable ''k'' ''v'' 0 = (Some ErrUnavailable, s') \<and>
     ErrUnavailable \<in> {ErrUnavailable, ErrNotPublished}"
proof -
  have "Publish (failing_ops ErrNotStored) NewReliable ''k'' ''v'' 0 = (Some ErrUnavailable, 4)"
    by (simp add: Publish_def Publish_loop_failing NewReliable_def)
  with publish_outcome [OF this] show ?thesis by blast
qed

text \<open>Publishing always comes to an end: against a store whose puts all fail it makes
  exactly one attempt more than the number of retries, and reports the store unavailable.\<close>

theorem publish_attempts:
  "Publish (failing_ops e) r key v n = (Some ErrUnavailable, n + nat (maxRetries r) + 1)"
  using Publish_loop_failing [of e r key v 0 n] by (simp add: Publish_def)



text \<open>On the mock store publishing succeeds, at every time and whatever the retries, and
  exactly adds the value to what readers of the key see.\<close>

theorem publish_adds_exactly_the_value:
  assumes "mock_ready s"
  shows "\<exists>s'. Publish mock_ops r key v s = (None, s') \<and> mock_ready s' \<and>
     mock_visible s' key = insert v (mock_visible s key) \<and> (\<forall>k. k \<noteq> key \<longrightarrow> mock_visible s' k = mock_visible s k)"
  using mock.Publish_visible [OF assms] .

theorem publish_adds_exactly_the_value_witness:
  "\<exists>s'. Publish mock_ops NewReliable ''k'' ''v'' \<lparr>clock = 5, deadline = None, mock = NewMockStore 0\<rparr> = (None, s') \<and>
     ''v'' \<in> mock_visible s' ''k''"
  using publish_adds_exactly_the_value [of "\<lparr>clock = 5, deadline = None, mock = NewMockStore 0\<rparr>" NewReliable "''k''" "''v''"]
  by (auto simp: mock_ready_def mock_inv_new)

end
