(* ===== verification/Records.thy ===== *)
theory Records
  imports Store Json
begin

text \<open>
  Roster records (\<open>internal/mesh/record.go\<close>): the candidates and the record, signing,
  decoding with signature check, and the binding of a record to what the mesh secret and
  the name derive.

  The JSON coding follows the struct tags; a record of ASCII strings and 64-bit numbers
  whose candidates carry no score (an unexported field, never coded) comes back unchanged.
\<close>

type_synonym CandType = string

definition CandHost :: CandType where "CandHost = ''host''"
definition CandSRFLX :: CandType where "CandSRFLX = ''srflx''"
definition CandPRFLX :: CandType where "CandPRFLX = ''prflx''"

record Candidate =
  Type :: CandType
  Addr :: string
  score :: int

definition mk_cand :: "CandType \<Rightarrow> string \<Rightarrow> Candidate" where
  "mk_cand t a = \<lparr>Type = t, Addr = a, score = 0\<rparr>"

record Record =
  Name :: string
  IP :: string
  Port :: int
  Candidates :: "Candidate list"
  Adv :: "string list"
  TS :: int
  Seq :: "64 word"
  PK :: string
  Sig :: string

section \<open>JSON coding\<close>

definition enc_cand :: "Candidate \<Rightarrow> json" where
  "enc_cand c = JObj [(''t'', JStr (Type c)), (''a'', JStr (Addr c))]"

definition enc_record :: "Record \<Rightarrow> json" where
  "enc_record r = JObj
     ([(''name'', JStr (Name r)), (''ip'', JStr (IP r)), (''port'', jint (Port r))] @
      (if Candidates r = [] then [] else [(''c'', JArr (map enc_cand (Candidates r)))]) @
      (if Adv r = [] then [] else [(''adv'', JArr (map JStr (Adv r)))]) @
      [(''ts'', jint (TS r)), (''sq'', jint (uint (Seq r))), (''pk'', JStr (PK r))] @
      (if Sig r = [] then [] else [(''sig'', JStr (Sig r))]))"

definition marshal :: "Record \<Rightarrow> bytes" where
  "marshal r = print_json (enc_record r)"

definition cand_field :: "bytes \<Rightarrow> Candidate \<Rightarrow> json \<Rightarrow> Candidate option" where
  "cand_field key c j =
     (if key_is ''t'' key then map_option (\<lambda>x. c\<lparr>Type := x\<rparr>) (dec_str (Type c) j)
      else if key_is ''a'' key then map_option (\<lambda>x. c\<lparr>Addr := x\<rparr>) (dec_str (Addr c) j)
      else Some c)"

definition dec_cand :: "Candidate \<Rightarrow> json \<Rightarrow> Candidate option" where
  "dec_cand c j = dec_struct cand_field c j"

definition record_field :: "bytes \<Rightarrow> Record \<Rightarrow> json \<Rightarrow> Record option" where
  "record_field key r j =
     (if key_is ''name'' key then map_option (\<lambda>x. r\<lparr>Name := x\<rparr>) (dec_str (Name r) j)
      else if key_is ''ip'' key then map_option (\<lambda>x. r\<lparr>IP := x\<rparr>) (dec_str (IP r) j)
      else if key_is ''port'' key then map_option (\<lambda>x. r\<lparr>Port := x\<rparr>) (dec_i64 (Port r) j)
      else if key_is ''c'' key then
        map_option (\<lambda>x. r\<lparr>Candidates := x\<rparr>) (dec_list dec_cand (mk_cand [] []) (Candidates r) j)
      else if key_is ''adv'' key then map_option (\<lambda>x. r\<lparr>Adv := x\<rparr>) (dec_list dec_str [] (Adv r) j)
      else if key_is ''ts'' key then map_option (\<lambda>x. r\<lparr>TS := x\<rparr>) (dec_i64 (TS r) j)
      else if key_is ''sq'' key then map_option (\<lambda>x. r\<lparr>Seq := x\<rparr>) (dec_u64 (Seq r) j)
      else if key_is ''pk'' key then map_option (\<lambda>x. r\<lparr>PK := x\<rparr>) (dec_str (PK r) j)
      else if key_is ''sig'' key then map_option (\<lambda>x. r\<lparr>Sig := x\<rparr>) (dec_str (Sig r) j)
      else Some r)"

definition zero_record :: Record where
  "zero_record = \<lparr>Name = [], IP = [], Port = 0, Candidates = [], Adv = [], TS = 0, Seq = 0, PK = [], Sig = []\<rparr>"

definition unmarshal :: "bytes \<Rightarrow> Record option" where
  "unmarshal b = (case parse_json b of None \<Rightarrow> None | Some j \<Rightarrow> dec_struct record_field zero_record j)"

definition wire_ok :: "Record \<Rightarrow> bool" where
  "wire_ok r \<longleftrightarrow> ascii (Name r) \<and> ascii (IP r) \<and> ascii (PK r) \<and> ascii (Sig r) \<and>
     list_all ascii (Adv r) \<and>
     list_all (\<lambda>c. score c = 0 \<and> ascii (Type c) \<and> ascii (Addr c)) (Candidates r) \<and>
     (\<forall>i \<in> {Port r, TS r}. - 9223372036854775808 \<le> i \<and> i < 9223372036854775808)"

section \<open>Operations\<close>

definition Record_Sign :: "crypto \<Rightarrow> Identity \<Rightarrow> Record \<Rightarrow> Record" where
  "Record_Sign cr i r =
     (let r1 = r\<lparr>PK := PublicString cr i, Sig := []\<rparr> in
      r1\<lparr>Sig := b64 (Sign cr i (marshal r1))\<rparr>)"

definition ed25519SigLen :: nat where "ed25519SigLen = 64"

definition decodePubKey :: "string \<Rightarrow> bytes res" where
  "decodePubKey s =
     (case b64dec s of
        None \<Rightarrow> Inl (Errorf ''bad public key'')
      | Some raw \<Rightarrow> if length raw \<noteq> 32 then Inl (Errorf ''bad public key'') else Inr raw)"

definition DecodeRecord :: "crypto \<Rightarrow> bytes \<Rightarrow> Record res" where
  "DecodeRecord cr v =
     (case unmarshal v of
        None \<Rightarrow> Inl (Errorf ''decode record'')
      | Some r0 \<Rightarrow>
          (let r = r0\<lparr>Sig := []\<rparr>; b = marshal r in
           case b64dec (Sig r0) of
             None \<Rightarrow> Inl (Errorf ''bad signature encoding'')
           | Some sig \<Rightarrow>
               if length sig \<noteq> ed25519SigLen then Inl (Errorf ''bad signature encoding'')
               else (case decodePubKey (PK r) of
                   Inl e \<Rightarrow> Inl (Wrap ''record'' e)
                 | Inr pk \<Rightarrow>
                     if \<not> VerifySig cr pk b sig then Inl (Errorf ''signature mismatch'') else Inr r)))"

definition VerifyBinding :: "crypto \<Rightarrow> Deriver \<Rightarrow> ipnet \<Rightarrow> Record \<Rightarrow> goerr option" where
  "VerifyBinding cr d cidr r =
     (let wantPK = PublicKeyOf cr d (Name r) in
      case decodePubKey (PK r) of
        Inl _ \<Rightarrow> Some (Errorf ''record name/pk binding failed'')
      | Inr gotPK \<Rightarrow>
          if gotPK \<noteq> wantPK then Some (Errorf ''record name/pk binding failed'')
          else (case OverlayIP cr d (Name r) cidr of
              Inl e \<Rightarrow> Some e
            | Inr ip \<Rightarrow> if IP r \<noteq> ip_string ip then Some (Errorf ''record ip binding failed'') else None))"

section \<open>Laws\<close>

lemma key_is_ascii [simp]: "key_is n k \<longleftrightarrow> fold_key k = n"
  by (simp add: key_is_def)

lemma dec_cand_enc: "score c = 0 \<Longrightarrow> dec_cand (mk_cand [] []) (enc_cand c) = Some c"
  by (simp add: dec_cand_def enc_cand_def dec_struct_def cand_field_def dec_str_def mk_cand_def to_lower_def
      lower_char_def is_upper_def)

lemma json_ok_enc_record: "wire_ok r \<Longrightarrow> json_ok (enc_record r)"
  by (auto simp: enc_record_def wire_ok_def enc_cand_def list_all_iff)

lemma dec_enc_record:
  assumes "wire_ok r"
  shows "dec_struct record_field zero_record (enc_record r) = Some r"
proof -
  have c: "dec_list dec_cand (mk_cand [] []) [] (JArr (map enc_cand (Candidates r))) = Some (Candidates r)"
    using assms by (intro dec_list_map) (auto simp: wire_ok_def list_all_iff dec_cand_enc)
  have a: "dec_list dec_str [] [] (JArr (map JStr (Adv r))) = Some (Adv r)"
    by (rule dec_list_map) (simp add: dec_str_def)
  have i: "dec_i64 x (jint (Port r)) = Some (Port r)" "dec_i64 x (jint (TS r)) = Some (TS r)" for x
    using assms by (auto simp: wire_ok_def intro!: dec_i64_jint)
  show ?thesis
    by (cases "Candidates r = []"; cases "Adv r = []"; cases "Sig r = []")
       (simp_all add: enc_record_def dec_struct_def record_field_def zero_record_def dec_str_def c a i
         dec_u64_jint to_lower_def lower_char_def is_upper_def)
qed

lemma unmarshal_marshal: "wire_ok r \<Longrightarrow> unmarshal (marshal r) = Some r"
  by (simp add: unmarshal_def marshal_def parse_print_json json_ok_enc_record dec_enc_record)

lemma decodePubKey_b64 [simp]: "length k = 32 \<Longrightarrow> decodePubKey (b64 k) = Inr k"
  by (simp add: decodePubKey_def)

lemma decodePubKey_PublicString:
  "lengths_ok cr \<Longrightarrow> decodePubKey (PublicString cr i) = Inr (Public cr i)"
  by (simp add: PublicString_def Public_def lengths_ok_def)

lemma DecodeRecord_Sign:
  assumes "crypto_ok cr" "wire_ok r"
  shows "DecodeRecord cr (marshal (Record_Sign cr i r)) =
           Inr (r\<lparr>PK := PublicString cr i, Sig := []\<rparr>)"
proof -
  have laws: "lengths_ok cr" "signatures_ok cr" using assms(1) by (auto simp: crypto_ok_def)
  have "wire_ok (Record_Sign cr i r)"
    using assms(2) by (simp add: wire_ok_def Record_Sign_def Let_def PublicString_def ascii_b64)
  then have "unmarshal (marshal (Record_Sign cr i r)) = Some (Record_Sign cr i r)"
    by (rule unmarshal_marshal)
  then show ?thesis
    using laws decodePubKey_PublicString [OF laws(1), of i]
    by (simp add: DecodeRecord_def Record_Sign_def Let_def ed25519SigLen_def Sign_def VerifySig_def
        Public_def lengths_ok_def signatures_ok_def)
qed

lemma DecodeRecord_InrD:
  "DecodeRecord cr v = Inr r \<Longrightarrow>
   \<exists>pk sig. decodePubKey (PK r) = Inr pk \<and> length sig = 64 \<and> VerifySig cr pk (marshal r) sig \<and> Sig r = []"
  by (auto simp: DecodeRecord_def ed25519SigLen_def Let_def split: option.splits if_splits sum.splits)

lemma VerifyBinding_iff:
  "VerifyBinding cr d cidr r = None \<longleftrightarrow>
     decodePubKey (PK r) = Inr (PublicKeyOf cr d (Name r)) \<and>
     (\<exists>ip. OverlayIP cr d (Name r) cidr = Inr ip \<and> IP r = ip_string ip)"
  by (auto simp: VerifyBinding_def Let_def split: sum.splits)

text \<open>A record that passes the binding check has a name that is valid once normalised: the
  all-zero key an invalid name would be compared with is never enough.\<close>

lemma VerifyBinding_valid_name:
  "VerifyBinding cr d cidr r = None \<Longrightarrow> ValidateName (NormalizeName (Name r)) = None"
  by (auto simp: VerifyBinding_iff elim!: OverlayIP_InrD dest: NodeWGKey_InrD)

lemma VerifyBinding_own:
  assumes "lengths_ok cr" "NodeIdentity cr d n = Inr i" "OverlayIP cr d n cidr = Inr ip"
    "Name r = n" "PK r = PublicString cr i" "IP r = ip_string ip"
  shows "VerifyBinding cr d cidr r = None"
  using assms by (simp add: VerifyBinding_iff PublicKeyOf_def decodePubKey_PublicString)

section \<open>Properties\<close>

definition demo_record :: Record where
  "demo_record = \<lparr>Name = ''alpha'', IP = ''10.9.0.7'', Port = 51820,
     Candidates = [mk_cand CandHost ''192.168.1.2:51820''], Adv = [''192.168.5.0/24''], TS = 1700000000,
     Seq = 42, PK = [], Sig = []\<rparr>"

lemma wire_ok_demo: "wire_ok demo_record"
  by (simp add: wire_ok_def demo_record_def mk_cand_def CandHost_def)

text \<open>C13: a record a node signs is decoded by every other node to the same record, with the
  signer's public key in it and the signature checked and taken out.\<close>

theorem signed_record_roundtrip:
  assumes "crypto_ok cr" "wire_ok r"
  shows "DecodeRecord cr (marshal (Record_Sign cr i r)) = Inr (r\<lparr>PK := PublicString cr i, Sig := []\<rparr>)"
  using DecodeRecord_Sign [OF assms] .

theorem signed_record_roundtrip_witness:
  "DecodeRecord demo_crypto (marshal (Record_Sign demo_crypto \<lparr>seed = ''s''\<rparr> demo_record)) =
     Inr (demo_record\<lparr>PK := PublicString demo_crypto \<lparr>seed = ''s''\<rparr>, Sig := []\<rparr>)"
  using signed_record_roundtrip [OF crypto_ok_demo wire_ok_demo] .

text \<open>The JSON text of a record, with its omitted empty fields, decodes to the record.\<close>

theorem record_json_roundtrip:
  assumes "wire_ok r"
  shows "unmarshal (marshal r) = Some r"
  using unmarshal_marshal [OF assms] .

theorem record_json_roundtrip_witness: "unmarshal (marshal demo_record) = Some demo_record"
  using record_json_roundtrip [OF wire_ok_demo] .

text \<open>C5: a record that passes the binding check carries the public key and the overlay
  address the mesh secret derives for its name, so its name is valid once normalised and its
  address is in the range of the mesh; and the record a node builds for itself passes.\<close>

theorem binding_sound_and_complete:
  assumes "canon4 cidr" "lengths_ok cr"
  shows "(VerifyBinding cr d cidr r = None \<longrightarrow>
       decodePubKey (PK r) = Inr (PublicKeyOf cr d (Name r)) \<and> ValidateName (NormalizeName (Name r)) = None \<and>
       (\<exists>ip. OverlayIP cr d (Name r) cidr = Inr ip \<and> IP r = ip_string ip \<and> net_contains cidr ip)) \<and>
     (\<forall>i ip. NodeIdentity cr d (Name r) = Inr i \<longrightarrow> OverlayIP cr d (Name r) cidr = Inr ip \<longrightarrow>
       VerifyBinding cr d cidr (r\<lparr>PK := PublicString cr i, IP := ip_string ip\<rparr>) = None)"
proof (intro conjI impI allI)
  assume v: "VerifyBinding cr d cidr r = None"
  show "decodePubKey (PK r) = Inr (PublicKeyOf cr d (Name r))" using v by (simp add: VerifyBinding_iff)
  show "ValidateName (NormalizeName (Name r)) = None" by (rule VerifyBinding_valid_name [OF v])
  show "\<exists>ip. OverlayIP cr d (Name r) cidr = Inr ip \<and> IP r = ip_string ip \<and> net_contains cidr ip"
    using v OverlayIP_in_cidr [OF _ assms(1)] unfolding VerifyBinding_iff by blast
next
  fix i ip
  assume "NodeIdentity cr d (Name r) = Inr i" "OverlayIP cr d (Name r) cidr = Inr ip"
  then show "VerifyBinding cr d cidr (r\<lparr>PK := PublicString cr i, IP := ip_string ip\<rparr>) = None"
    by (rule VerifyBinding_own [OF assms(2)]) simp_all
qed

theorem binding_sound_and_complete_witness:
  "\<exists>i ip. VerifyBinding demo_crypto demo_d demo_cidr
     (demo_record\<lparr>PK := PublicString demo_crypto i, IP := ip_string ip\<rparr>) = None"
proof -
  have n: "ValidateName (NormalizeName (Name demo_record)) = None"
    unfolding demo_record_def Record.simps by code_simp
  obtain ip where ip: "OverlayIP demo_crypto demo_d (Name demo_record) demo_cidr = Inr ip"
    using demo_overlay [OF n] by blast
  obtain i where i: "NodeIdentity demo_crypto demo_d (Name demo_record) = Inr i"
    using n by (simp add: NodeIdentity_def)
  from binding_sound_and_complete [OF demo_cidr_ok(1) demo_laws [THEN conjunct1], of demo_d demo_record] ip i
  show ?thesis by blast
qed

end
