(* ===== verification/Roster.thy ===== *)
theory Roster
  imports Records
begin

text \<open>
  The shared roster (\<open>internal/mesh/roster.go\<close>): sealing and publishing our record, folding
  the stored values into the newest valid record per node, and merging several fetches.

  The fold and the merge are both \<open>keep_newest\<close>; its meaning per name is \<open>newer\<close>, a
  left-biased maximum by sequence number, which is associative: folding in stages is folding
  at once.
\<close>

section \<open>State and operations\<close>

record Roster =
  ro_d :: Deriver
  ro_cidr :: ipnet
  me :: string
  maxAge :: duration

definition NewRoster :: "Deriver \<Rightarrow> string \<Rightarrow> ipnet option \<Rightarrow> Roster res" where
  "NewRoster d me0 cidr =
     (case cidr of
        None \<Rightarrow> Inl (Errorf ''nil overlay cidr'')
      | Some c \<Rightarrow> Inr \<lparr>ro_d = d, ro_cidr = c, me = NormalizeName me0, maxAge = 24 * 3600 * sec\<rparr>)"

definition sealRecord :: "crypto \<Rightarrow> bytes option \<Rightarrow> Deriver \<Rightarrow> Record \<Rightarrow> bytes res" where
  "sealRecord cr rnd d r = Seal cr rnd (RosterBoxKey cr d) (marshal r)"

definition Roster_Publish ::
  "crypto \<Rightarrow> 's store_ops \<Rightarrow> ReliableStore \<Rightarrow> bytes option \<Rightarrow> Roster \<Rightarrow> Record \<Rightarrow> 's
     \<Rightarrow> goerr option \<times> 's" where
  "Roster_Publish cr ops rs rnd ro r s =
     (case sealRecord cr rnd (ro_d ro) r of
        Inl e \<Rightarrow> (Some e, s)
      | Inr sealed \<Rightarrow> Publish ops rs (RosterKey cr (ro_d ro)) sealed s)"

text \<open>The body of the \<open>Fetch\<close> loop up to the fold: the record a stored value yields, if any.\<close>

definition accept :: "crypto \<Rightarrow> Roster \<Rightarrow> int \<Rightarrow> bytes \<Rightarrow> Record option" where
  "accept cr ro freshBefore v =
     (case Open cr (RosterBoxKey cr (ro_d ro)) v of
        Inl _ \<Rightarrow> None
      | Inr plain \<Rightarrow>
          (case DecodeRecord cr plain of
             Inl _ \<Rightarrow> None
           | Inr r \<Rightarrow>
               if TS r < freshBefore \<or> Name r = me ro then None
               else (case VerifyBinding cr (ro_d ro) (ro_cidr ro) r of
                   Some _ \<Rightarrow> None
                 | None \<Rightarrow> Some r)))"

definition keep_newest :: "(string, Record) gomap \<Rightarrow> Record \<Rightarrow> (string, Record) gomap" where
  "keep_newest out r =
     (case map_of out (Name r) of
        Some cur \<Rightarrow> if Seq cur \<ge> Seq r then out else AList.update (Name r) r out
      | None \<Rightarrow> AList.update (Name r) r out)"

definition fold_values ::
  "crypto \<Rightarrow> Roster \<Rightarrow> int \<Rightarrow> bytes list \<Rightarrow> (string, Record) gomap" where
  "fold_values cr ro freshBefore vals =
     foldl (\<lambda>out v. case accept cr ro freshBefore v of None \<Rightarrow> out | Some r \<Rightarrow> keep_newest out r)
       [] vals"

definition freshBefore :: "Roster \<Rightarrow> time \<Rightarrow> int" where
  "freshBefore ro now = unix_sec (now - maxAge ro)"

definition Fetch ::
  "crypto \<Rightarrow> 's store_ops \<Rightarrow> Roster \<Rightarrow> time \<Rightarrow> 's \<Rightarrow> (string, Record) gomap res \<times> 's" where
  "Fetch cr ops ro now s =
     (case Read ops (RosterKey cr (ro_d ro)) s of
        (Inl e, s') \<Rightarrow> (Inl e, s')
      | (Inr vals, s') \<Rightarrow> (Inr (fold_values cr ro (freshBefore ro now) vals), s'))"

definition merge_view :: "(string, Record) gomap \<Rightarrow> (string, Record) gomap \<Rightarrow> (string, Record) gomap" where
  "merge_view merged got =
     foldl (\<lambda>m (name, r). case map_of m name of
              None \<Rightarrow> AList.update name r m
            | Some cur \<Rightarrow> if Seq cur < Seq r then AList.update name r m else m) merged got"

definition stable_result :: "(string, Record) gomap \<Rightarrow> goerr option \<Rightarrow> (string, Record) gomap res" where
  "stable_result merged lastErr =
     (case lastErr of Some e \<Rightarrow> if merged = [] then Inl e else Inr merged | None \<Rightarrow> Inr merged)"

text \<open>
  The attempt loop of \<open>FetchStable\<close>, by the attempts left. \<open>clk\<close> reads the clock
  (\<open>nowFunc\<close>) from the world.
\<close>

fun stable_loop ::
  "crypto \<Rightarrow> 's store_ops \<Rightarrow> ('s \<Rightarrow> time) \<Rightarrow> Roster \<Rightarrow> duration \<Rightarrow> nat
     \<Rightarrow> (string, Record) gomap \<Rightarrow> goerr option \<Rightarrow> 's \<Rightarrow> (string, Record) gomap res \<times> 's" where
  "stable_loop cr ops clk ro pause 0 merged lastErr s = (stable_result merged lastErr, s)"
| "stable_loop cr ops clk ro pause (Suc k) merged lastErr s =
     (if ctx_op ops s \<noteq> None then (stable_result merged lastErr, s)
      else (case Fetch cr ops ro (clk s) s of
          (res, s1) \<Rightarrow>
            (let lastErr' = (case res of Inl e \<Rightarrow> Some e | Inr _ \<Rightarrow> lastErr);
                 merged' = merge_view merged (case res of Inl _ \<Rightarrow> [] | Inr g \<Rightarrow> g) in
             if k = 0 then (stable_result merged' lastErr', s1)
             else (case sleep_op ops pause s1 of
                 (Some _, s2) \<Rightarrow> (Inr merged', s2)
               | (None, s2) \<Rightarrow> stable_loop cr ops clk ro pause k merged' lastErr' s2))))"

definition FetchStable ::
  "crypto \<Rightarrow> 's store_ops \<Rightarrow> ('s \<Rightarrow> time) \<Rightarrow> Roster \<Rightarrow> int \<Rightarrow> duration \<Rightarrow> 's
     \<Rightarrow> (string, Record) gomap res \<times> 's" where
  "FetchStable cr ops clk ro attempts pause s =
     stable_loop cr ops clk ro pause (nat (max 1 attempts)) [] None s"

definition Names :: "(string, Record) gomap \<Rightarrow> string list" where
  "Names peers = sort (map fst peers)"

section \<open>The fold\<close>

definition newer :: "Record option \<Rightarrow> Record option \<Rightarrow> Record option" where
  "newer a b = (case a of None \<Rightarrow> b
     | Some x \<Rightarrow> (case b of None \<Rightarrow> a | Some y \<Rightarrow> if Seq x \<ge> Seq y then a else b))"

lemma newer_None [simp]: "newer None b = b" "newer a None = a"
  by (auto simp: newer_def split: option.splits)

lemma newer_assoc: "newer (newer a b) c = newer a (newer b c)"
  by (auto simp: newer_def split: option.splits)

text \<open>The newest record of a name in a list of records, the earliest one among equals.\<close>

definition newest :: "string \<Rightarrow> Record list \<Rightarrow> Record option" where
  "newest n rs = foldr (\<lambda>r acc. newer (Some r) acc) (filter (\<lambda>r. Name r = n) rs) None"

lemma newest_Nil [simp]: "newest n [] = None"
  by (simp add: newest_def)

lemma newest_Cons: "newest n (r # rs) = (if Name r = n then newer (Some r) (newest n rs) else newest n rs)"
  by (simp add: newest_def)

lemma newest_append: "newest n (xs @ ys) = newer (newest n xs) (newest n ys)"
  by (induction xs) (auto simp: newest_Cons newer_assoc)

lemma newest_None_iff: "newest n rs = None \<longleftrightarrow> (\<forall>r \<in> set rs. Name r \<noteq> n)"
  by (induction rs) (auto simp: newest_Cons newer_def split: option.splits)

lemma newest_SomeD:
  "newest n rs = Some r \<Longrightarrow> r \<in> set rs \<and> Name r = n \<and> (\<forall>r' \<in> set rs. Name r' = n \<longrightarrow> Seq r' \<le> Seq r)"
proof (induction rs arbitrary: r)
  case (Cons x rs)
  show ?case
  proof (cases "newest n rs")
    case None
    then show ?thesis
      using Cons.prems newest_None_iff [of n rs] by (auto simp: newest_Cons split: if_splits)
  next
    case (Some y)
    note y = Cons.IH [OF Some]
    then show ?thesis
      using Cons.prems Some
      by (cases "Name x = n"; cases "Seq y \<le> Seq x")
         (auto simp: newest_Cons newer_def dest: order_trans)
  qed
qed simp

lemma map_of_keep_newest:
  "map_of (keep_newest out r) n = (if n = Name r then newer (map_of out n) (Some r) else map_of out n)"
  by (auto simp: keep_newest_def newer_def update_conv' split: option.splits)

lemma map_of_foldl_keep_newest:
  "map_of (foldl keep_newest m rs) n = newer (map_of m n) (newest n rs)"
  by (induction rs arbitrary: m) (auto simp: map_of_keep_newest newest_Cons newer_assoc)

definition accepted :: "crypto \<Rightarrow> Roster \<Rightarrow> int \<Rightarrow> bytes list \<Rightarrow> Record list" where
  "accepted cr ro fb vals = List.map_filter (accept cr ro fb) vals"

lemma fold_values_keep_newest:
  "fold_values cr ro fb vals = foldl keep_newest [] (accepted cr ro fb vals)"
proof -
  have "foldl (\<lambda>out v. case accept cr ro fb v of None \<Rightarrow> out | Some r \<Rightarrow> keep_newest out r) m vals =
        foldl keep_newest m (accepted cr ro fb vals)" for m
    by (induction vals arbitrary: m)
       (auto simp: accepted_def map_filter_simps split: option.splits)
  then show ?thesis by (simp add: fold_values_def)
qed

lemma map_of_fold_values:
  "map_of (fold_values cr ro fb vals) n = newest n (accepted cr ro fb vals)"
  by (simp add: fold_values_keep_newest map_of_foldl_keep_newest)

lemma set_accepted: "r \<in> set (accepted cr ro fb vals) \<longleftrightarrow> (\<exists>v \<in> set vals. accept cr ro fb v = Some r)"
  by (induction vals) (auto simp: accepted_def map_filter_simps split: option.splits)

text \<open>Association lists of views: distinct keys, each the name of its record.\<close>

definition view_ok :: "(string, Record) gomap \<Rightarrow> bool" where
  "view_ok m \<longleftrightarrow> distinct (map fst m) \<and> (\<forall>(n, r) \<in> set m. Name r = n)"

lemma view_ok_Nil [simp]: "view_ok []"
  by (simp add: view_ok_def)

lemma set_update_subset: "set (AList.update k v al) \<subseteq> insert (k, v) (set al)"
  by (induction al) auto

lemma view_ok_update: "view_ok m \<Longrightarrow> view_ok (AList.update (Name r) r m)"
  using set_update_subset [of "Name r" r m] by (fastforce simp: view_ok_def distinct_update)

lemma view_ok_keep_newest: "view_ok m \<Longrightarrow> view_ok (keep_newest m r)"
  by (simp add: keep_newest_def view_ok_update split: option.splits)

lemma view_ok_foldl: "view_ok m \<Longrightarrow> view_ok (foldl keep_newest m rs)"
  by (induction rs arbitrary: m) (auto simp: view_ok_keep_newest)

lemma view_ok_fold_values: "view_ok (fold_values cr ro fb vals)"
  by (simp add: fold_values_keep_newest view_ok_foldl)

lemma merge_view_keep_newest:
  "view_ok got \<Longrightarrow> merge_view m got = foldl keep_newest m (map snd got)"
proof (induction got arbitrary: m)
  case (Cons x got)
  obtain n r where x: "x = (n, r)" by (cases x)
  with Cons.prems have ok: "view_ok got" "Name r = n" by (auto simp: view_ok_def)
  have "(case map_of m n of None \<Rightarrow> AList.update n r m
         | Some cur \<Rightarrow> if Seq cur < Seq r then AList.update n r m else m) = keep_newest m r"
    by (auto simp: keep_newest_def ok(2) split: option.splits)
  with Cons.IH [OF ok(1)] show ?case by (simp add: merge_view_def x)
qed (simp add: merge_view_def)

lemma newest_snd_view: "view_ok m \<Longrightarrow> newest n (map snd m) = map_of m n"
proof (induction m)
  case (Cons x m)
  obtain k r where x: "x = (k, r)" by (cases x)
  with Cons.prems have ok: "view_ok m" "Name r = k" "k \<notin> fst ` set m"
    by (auto simp: view_ok_def)
  then have "map_of m k = None" by (simp add: map_of_eq_None_iff)
  with Cons.IH ok show ?case by (auto simp: x newest_Cons)
qed simp

lemma map_of_merge_view:
  "view_ok got \<Longrightarrow> map_of (merge_view m got) n = newer (map_of m n) (map_of got n)"
  by (simp add: merge_view_keep_newest map_of_foldl_keep_newest newest_snd_view)

lemma view_ok_merge: "view_ok m \<Longrightarrow> view_ok got \<Longrightarrow> view_ok (merge_view m got)"
  by (simp add: merge_view_keep_newest view_ok_foldl)

section \<open>What a fetched view holds\<close>

definition genuine :: "crypto \<Rightarrow> Roster \<Rightarrow> Record \<Rightarrow> bool" where
  "genuine cr ro r \<longleftrightarrow> Name r \<noteq> me ro \<and> VerifyBinding cr (ro_d ro) (ro_cidr ro) r = None"

lemma accept_SomeD:
  "accept cr ro fb v = Some r \<Longrightarrow>
   genuine cr ro r \<and> fb \<le> TS r \<and>
   (\<exists>plain. Open cr (RosterBoxKey cr (ro_d ro)) v = Inr plain \<and> DecodeRecord cr plain = Inr r)"
  by (auto simp: accept_def genuine_def split: sum.splits if_splits option.splits)

context store_reads
begin

lemma Fetch_frame: "P s \<Longrightarrow> Fetch cr ops ro now s = (r, s') \<Longrightarrow> P s'"
  by (auto simp: Fetch_def split: prod.splits sum.splits dest: Read_frame)

lemma stable_loop_frame: "P s \<Longrightarrow> stable_loop cr ops clk ro pause k merged lastErr s = (r, s') \<Longrightarrow> P s'"
  by (induction k arbitrary: merged lastErr s)
     (auto simp: Let_def split: prod.splits option.splits if_splits, (meson Fetch_frame sleep_frame)+)

text \<open>What holds of every record a fetch gives, from any world with the property, holds of the
  merged view.\<close>

lemma stable_loop_invariant:
  assumes step: "\<And>s m s'. P s \<Longrightarrow> Fetch cr ops ro (clk s) s = (Inr m, s') \<Longrightarrow> \<forall>n r. map_of m n = Some r \<longrightarrow> Q r"
    and "stable_loop cr ops clk ro pause k merged lastErr s = (Inr out, s')" "P s"
    and "view_ok merged" "\<forall>n r. map_of merged n = Some r \<longrightarrow> Q r"
  shows "view_ok out \<and> (\<forall>n r. map_of out n = Some r \<longrightarrow> Q r)"
  using assms(2-5)
proof (induction k arbitrary: merged lastErr s)
  case 0
  then show ?case by (auto simp: stable_result_def split: option.splits if_splits)
next
  case (Suc k)
  obtain res s1 where f: "Fetch cr ops ro (clk s) s = (res, s1)" by (cases "Fetch cr ops ro (clk s) s")
  define got where "got = (case res of Inl _ \<Rightarrow> [] | Inr g \<Rightarrow> g)"
  have got: "view_ok got \<and> (\<forall>n r. map_of got n = Some r \<longrightarrow> Q r)"
    using f step [of s] Suc.prems(2) view_ok_fold_values
    by (auto simp: got_def Fetch_def split: sum.splits prod.splits)
  then have m: "view_ok (merge_view merged got)"
    "\<forall>n r. map_of (merge_view merged got) n = Some r \<longrightarrow> Q r"
    using Suc.prems(3,4) by (auto simp: view_ok_merge map_of_merge_view newer_def split: option.splits if_splits)
  have i: "P s2" if "sleep_op ops pause s1 = (None, s2)" for s2
    using sleep_frame [OF Fetch_frame [OF Suc.prems(2) f] that] .
  show ?case
    using Suc.prems(1,3,4) f m i Suc.IH [OF _ i m]
    by (auto simp: got_def [symmetric] Let_def stable_result_def split: if_splits prod.splits option.splits)
qed

lemma FetchStable_frame: "P s \<Longrightarrow> FetchStable cr ops clk ro n pause s = (r, s') \<Longrightarrow> P s'"
  unfolding FetchStable_def by (rule stable_loop_frame)

end

text \<open>A name once merged stays in the view.\<close>

lemma stable_loop_keeps:
  "stable_loop cr ops clk ro pause k merged lastErr s = (res, s') \<Longrightarrow> map_of merged n \<noteq> None \<Longrightarrow>
   \<exists>out. res = Inr out \<and> map_of out n \<noteq> None"
proof (induction k arbitrary: merged lastErr s)
  case 0
  then have "merged \<noteq> []" by auto
  with 0 show ?case by (auto simp: stable_result_def split: option.splits)
next
  case (Suc k)
  have m: "map_of (merge_view merged got) n \<noteq> None" if "view_ok got" for got
    using Suc.prems(2) that by (auto simp: map_of_merge_view newer_def split: option.splits)
  obtain r s1 where f: "Fetch cr ops ro (clk s) s = (r, s1)" by fastforce
  define got where "got = (case r of Inl _ \<Rightarrow> [] | Inr g \<Rightarrow> g)"
  have "view_ok got"
    using f view_ok_fold_values by (auto simp: got_def Fetch_def split: sum.splits prod.splits)
  from m [OF this] have n: "map_of (merge_view merged got) n \<noteq> None" .
  then have ne: "merge_view merged got \<noteq> []" "merged \<noteq> []" using Suc.prems(2) by auto
  show ?case
    using Suc.prems n ne f Suc.IH
    by (auto simp: got_def [symmetric] Let_def stable_result_def split: if_splits prod.splits option.splits)
qed

section \<open>Discovery\<close>

lemma ascii_dotted: "length p = 4 \<Longrightarrow> ascii (dotted p)"
  using nat_str_digits by (elim length4E) (auto simp: dotted_def ascii_def list_all_iff)

lemma accept_own:
  assumes "crypto_ok cr" "wire_ok r" "length nonce = 24" "NodeIdentity cr (ro_d ro) (Name r) = Inr i"
    "OverlayIP cr (ro_d ro) (Name r) (ro_cidr ro) = Inr ip" "IP r = ip_string ip" "Name r \<noteq> me ro" "fb \<le> TS r"
    "sealRecord cr (Some nonce) (ro_d ro) (Record_Sign cr i r) = Inr v"
  shows "accept cr ro fb v = Some (r\<lparr>PK := PublicString cr i, Sig := []\<rparr>)"
proof -
  let ?r = "r\<lparr>PK := PublicString cr i, Sig := []\<rparr>"
  have "Open cr (RosterBoxKey cr (ro_d ro)) v = Inr (marshal (Record_Sign cr i r))"
    using assms(1,3,9) by (auto simp: sealRecord_def crypto_ok_def intro: Open_Seal)
  moreover have "VerifyBinding cr (ro_d ro) (ro_cidr ro) ?r = None"
    using assms by (intro VerifyBinding_own [of cr _ "Name r" i _ ip]) (auto simp: crypto_ok_def)
  ultimately show ?thesis
    using DecodeRecord_Sign [OF assms(1,2)] assms(7,8) by (simp add: accept_def)
qed

context kv_store
begin

lemma Fetch_finds:
  assumes "ready s" "v \<in> visible s (RosterKey cr (ro_d ro))" "accept cr ro (freshBefore ro now) v = Some r"
  shows "\<exists>view s2 r'. Fetch cr ops ro now s = (Inr view, s2) \<and> map_of view (Name r) = Some r' \<and> Seq r \<le> Seq r'"
proof -
  let ?key = "RosterKey cr (ro_d ro)" and ?fb = "freshBefore ro now"
  obtain vals s2 where g: "get_op ops ?key s = (Inr vals, s2)" "v \<in> set vals"
    using get_ok [OF assms(1), of ?key] assms(2) by blast
  have a: "r \<in> set (accepted cr ro ?fb vals)" using g(2) assms(3) by (auto simp: set_accepted)
  then obtain r' where n: "newest (Name r) (accepted cr ro ?fb vals) = Some r'"
    using newest_None_iff [of "Name r" "accepted cr ro ?fb vals"] by fastforce
  have "Seq r \<le> Seq r'" using newest_SomeD [OF n] a by force
  then show ?thesis using g(1) n by (auto simp: Fetch_def Read_def map_of_fold_values)
qed

lemma Publish_then_Fetch:
  assumes ready: "ready s" and cr: "crypto_ok cr" and r: "wire_ok r" "length nonce = 24"
    and i: "NodeIdentity cr (ro_d ro) (Name r) = Inr i"
    and ip: "OverlayIP cr (ro_d ro) (Name r) (ro_cidr ro) = Inr ip" "IP r = ip_string ip"
    and other: "Name r \<noteq> me ro" "freshBefore ro now \<le> TS r" and same: "ro_d roA = ro_d ro"
  shows "\<exists>s1 view s2 r'. Roster_Publish cr ops rs (Some nonce) roA (Record_Sign cr i r) s = (None, s1) \<and>
     Fetch cr ops ro now s1 = (Inr view, s2) \<and> map_of view (Name r) = Some r' \<and> Seq r \<le> Seq r'"
proof -
  let ?r = "r\<lparr>PK := PublicString cr i, Sig := []\<rparr>" and ?key = "RosterKey cr (ro_d ro)"
  obtain v where v: "sealRecord cr (Some nonce) (ro_d ro) (Record_Sign cr i r) = Inr v"
    by (simp add: sealRecord_def Seal_def sealRoom_def)
  obtain s1 where p: "Publish ops rs ?key v s = (None, s1)" "ready s1" "v \<in> visible s1 ?key"
    using Publish_visible [OF ready, of rs ?key v] by blast
  have "accept cr ro (freshBefore ro now) v = Some ?r" by (rule accept_own [OF cr r i ip other v])
  from Fetch_finds [OF p(2,3) this] show ?thesis
    using p(1) v by (auto simp: Roster_Publish_def same)
qed

text \<open>One good fetch is enough for a name to be in the merged view.\<close>

lemma FetchStable_finds:
  assumes "ready s" "v \<in> visible s (RosterKey cr (ro_d ro))" "accept cr ro (freshBefore ro (clk s)) v = Some r"
    "ctx_op ops s = None"
  shows "\<exists>view s2. FetchStable cr ops clk ro n pause s = (Inr view, s2) \<and> map_of view (Name r) \<noteq> None"
proof -
  obtain k where k: "nat (max 1 n) = Suc k" using not0_implies_Suc [of "nat (max 1 n)"] by fastforce
  obtain got s1 where f: "Fetch cr ops ro (clk s) s = (Inr got, s1)" "map_of got (Name r) \<noteq> None"
    using Fetch_finds [OF assms(1-3)] by fastforce
  have "view_ok got" using f(1) view_ok_fold_values by (auto simp: Fetch_def split: prod.splits sum.splits)
  then have m: "map_of (merge_view [] got) (Name r) \<noteq> None" using f(2) by (simp add: map_of_merge_view)
  obtain res s2 where l: "stable_loop cr ops clk ro pause (Suc k) [] None s = (res, s2)" by fastforce
  have "\<exists>out. res = Inr out \<and> map_of out (Name r) \<noteq> None"
    using l m stable_loop_keeps [OF _ m] assms(4) f(1)
    by (auto simp: stable_result_def Let_def split: if_splits prod.splits option.splits)
  then show ?thesis using l by (auto simp: FetchStable_def k)
qed

end

section \<open>Properties\<close>

text \<open>C1: a fetched view holds, per name, the newest record among the stored values that
  decrypt, carry a valid signature, are recent enough and bind to the mesh secret: no such
  value is newer than the record of the view, and every record of the view is signed under the
  key derived for its name. Our own name is not in it.\<close>

theorem fetch_newest_genuine:
  assumes "Fetch cr ops ro now s = (Inr view, s')"
  shows "\<exists>vals. Read ops (RosterKey cr (ro_d ro)) s = (Inr vals, s') \<and>
     (\<forall>n r. map_of view n = Some r \<longrightarrow>
        Name r = n \<and> n \<noteq> me ro \<and> freshBefore ro now \<le> TS r \<and>
        (\<exists>v \<in> set vals. accept cr ro (freshBefore ro now) v = Some r) \<and>
        (\<exists>sig. VerifySig cr (PublicKeyOf cr (ro_d ro) n) (marshal r) sig)) \<and>
     (\<forall>v \<in> set vals. \<forall>r. accept cr ro (freshBefore ro now) v = Some r \<longrightarrow>
        (\<exists>r'. map_of view (Name r) = Some r' \<and> Seq r \<le> Seq r'))"
proof -
  let ?fb = "freshBefore ro now"
  obtain vals where vals: "Read ops (RosterKey cr (ro_d ro)) s = (Inr vals, s')"
    and view: "view = fold_values cr ro ?fb vals"
    using assms by (auto simp: Fetch_def split: prod.splits sum.splits)
  have m: "map_of view n = newest n (accepted cr ro ?fb vals)" for n by (simp add: view map_of_fold_values)
  have sound: "Name r = n \<and> n \<noteq> me ro \<and> ?fb \<le> TS r \<and> (\<exists>v \<in> set vals. accept cr ro ?fb v = Some r) \<and>
      (\<exists>sig. VerifySig cr (PublicKeyOf cr (ro_d ro) n) (marshal r) sig)" if "map_of view n = Some r" for n r
  proof -
    have r: "r \<in> set (accepted cr ro ?fb vals)" "Name r = n" using newest_SomeD [OF that [unfolded m]] by auto
    then obtain v where v: "v \<in> set vals" "accept cr ro ?fb v = Some r" by (auto simp: set_accepted)
    then obtain pk sig where "decodePubKey (PK r) = Inr pk" "VerifySig cr pk (marshal r) sig"
      using accept_SomeD [OF v(2)] DecodeRecord_InrD by blast
    with accept_SomeD [OF v(2)] r(2) v show ?thesis by (auto simp: genuine_def VerifyBinding_iff)
  qed
  have complete: "\<exists>r'. map_of view (Name r) = Some r' \<and> Seq r \<le> Seq r'"
    if "v \<in> set vals" "accept cr ro ?fb v = Some r" for v r
  proof -
    have a: "r \<in> set (accepted cr ro ?fb vals)" using that by (auto simp: set_accepted)
    then obtain r' where n: "newest (Name r) (accepted cr ro ?fb vals) = Some r'"
      using newest_None_iff [of "Name r" "accepted cr ro ?fb vals"] by fastforce
    with newest_SomeD [OF n] a m show ?thesis by force
  qed
  show ?thesis using vals sound complete by blast
qed

definition empty_world :: mock_world where
  "empty_world = \<lparr>clock = 0, deadline = None, mock = NewMockStore 0\<rparr>"

definition demo_roster :: Roster where
  "demo_roster = \<lparr>ro_d = demo_d, ro_cidr = demo_cidr, me = ''beta'', maxAge = 24 * 3600 * sec\<rparr>"

lemma Fetch_empty: "\<exists>s'. Fetch cr mock_ops ro now empty_world = (Inr [], s')"
  by (simp add: Fetch_def Read_def mock_ops_def empty_world_def mock_Get_def entries_purge Let_def fold_values_def)
     (simp add: entries_def NewMockStore_def)

theorem fetch_newest_genuine_witness:
  "\<exists>vals s'. Read mock_ops (RosterKey demo_crypto demo_d) empty_world = (Inr vals, s')"
proof -
  obtain s' where "Fetch demo_crypto mock_ops demo_roster 0 empty_world = (Inr [], s')" using Fetch_empty by blast
  from fetch_newest_genuine [OF this] show ?thesis by (auto simp: demo_roster_def)
qed

text \<open>Over several fetches the merged view keeps this: every record of it binds to the mesh
  secret, is filed under its own name and is not ours.\<close>

theorem fetch_stable_genuine:
  assumes "FetchStable cr ops clk ro attempts pause s = (Inr view, s')"
  shows "distinct (map fst view) \<and>
     (\<forall>n r. map_of view n = Some r \<longrightarrow> Name r = n \<and> n \<noteq> me ro \<and> VerifyBinding cr (ro_d ro) (ro_cidr ro) r = None)"
proof -
  have step: "\<forall>n r. map_of m n = Some r \<longrightarrow> genuine cr ro r" if f: "Fetch cr ops ro now s = (Inr m, s')" for now s m s'
  proof -
    obtain vals where "m = fold_values cr ro (freshBefore ro now) vals"
      using f by (auto simp: Fetch_def split: prod.splits sum.splits)
    then show ?thesis by (auto simp: map_of_fold_values set_accepted dest!: newest_SomeD accept_SomeD)
  qed
  have "view_ok view \<and> (\<forall>n r. map_of view n = Some r \<longrightarrow> genuine cr ro r)"
    by (rule store_reads.stable_loop_invariant [OF store_reads_True step assms [unfolded FetchStable_def]]) auto
  then show ?thesis by (auto simp: view_ok_def genuine_def dest!: map_of_SomeD)
qed

theorem fetch_stable_genuine_witness:
  "\<exists>view s'. FetchStable demo_crypto mock_ops clock demo_roster 1 0 empty_world = (Inr view, s') \<and> distinct (map fst view)"
proof -
  obtain s' where f: "Fetch demo_crypto mock_ops demo_roster 0 empty_world = (Inr [], s')" using Fetch_empty by blast
  have "FetchStable demo_crypto mock_ops clock demo_roster 1 0 empty_world = (Inr [], s')"
    using f by (simp add: FetchStable_def stable_result_def merge_view_def)
       (simp add: mock_ops_def ctx_err_def empty_world_def)
  with fetch_stable_genuine [OF this] show ?thesis by blast
qed

text \<open>Discovery. On the mock store, once a node has published its signed record, every other
  node of the same mesh fetches a record for that node at least as new.\<close>

theorem published_record_is_discovered:
  assumes "mock_ready s" "crypto_ok cr" "wire_ok r" "length nonce = 24"
    "NodeIdentity cr (ro_d ro) (Name r) = Inr i" "OverlayIP cr (ro_d ro) (Name r) (ro_cidr ro) = Inr ip"
    "IP r = ip_string ip" "Name r \<noteq> me ro" "freshBefore ro now \<le> TS r" "ro_d roA = ro_d ro"
  shows "\<exists>s1 view s2 r'. Roster_Publish cr mock_ops rs (Some nonce) roA (Record_Sign cr i r) s = (None, s1) \<and>
     Fetch cr mock_ops ro now s1 = (Inr view, s2) \<and> map_of view (Name r) = Some r' \<and> Seq r \<le> Seq r'"
  using mock.Publish_then_Fetch [OF assms] .

theorem published_record_is_discovered_witness:
  "\<exists>i ip s1 view s2 r'.
     Roster_Publish demo_crypto mock_ops NewReliable (Some (replicate 24 (CHR 0x00))) (demo_roster\<lparr>me := ''alpha''\<rparr>)
       (Record_Sign demo_crypto i (demo_record\<lparr>IP := ip_string ip\<rparr>)) empty_world = (None, s1) \<and>
     Fetch demo_crypto mock_ops demo_roster 0 s1 = (Inr view, s2) \<and> map_of view ''alpha'' = Some r' \<and> Seq r' \<ge> 42"
proof -
  have n: "ValidateName (NormalizeName ''alpha'') = None" by code_simp
  obtain ip where ip: "OverlayIP demo_crypto demo_d ''alpha'' demo_cidr = Inr ip" using demo_overlay [OF n] by blast
  have l: "length ip = 4" using OverlayIP_in_cidr [OF ip demo_cidr_ok(1)] by simp
  obtain i where i: "NodeIdentity demo_crypto demo_d ''alpha'' = Inr i" using n by (simp add: NodeIdentity_def)
  let ?r = "demo_record\<lparr>IP := ip_string ip\<rparr>"
  have "wire_ok ?r" using wire_ok_demo ascii_dotted [OF l] l by (simp add: wire_ok_def)
  note p = published_record_is_discovered [OF _ crypto_ok_demo this, of empty_world "replicate 24 (CHR 0x00)"
      demo_roster i ip 0 "demo_roster\<lparr>me := ''alpha''\<rparr>" NewReliable]
  have n: "Name ?r = ''alpha''" "IP ?r = ip_string ip" "TS ?r = 1700000000" "Seq ?r = 42"
    by (simp_all add: demo_record_def)
  have "mock_ready empty_world" by (simp add: mock_ready_def empty_world_def mock_inv_new)
  moreover have "freshBefore demo_roster 0 \<le> 1700000000"
    by (simp add: freshBefore_def demo_roster_def unix_sec_def sec_def)
  moreover have "ro_d demo_roster = demo_d" "ro_cidr demo_roster = demo_cidr" "me demo_roster = ''beta''"
    by (simp_all add: demo_roster_def)
  ultimately show ?thesis using p i ip unfolding n by (intro exI [of _ i] exI [of _ ip]) simp
qed

end
