(* ===== verification/Peers.thy ===== *)
theory Peers
  imports Roster
begin

text \<open>
  Candidate gathering and ordering: \<open>internal/mesh/peers.go\<close> (what the reflexive addresses
  say about two nodes, the private ranges, the dial order), \<open>internal/mesh/local.go\<close> (host
  candidates) and the gathering loop of \<open>internal/mesh/stun.go\<close>. The interface list of the
  host and the STUN exchange with one server are arguments.
\<close>

section \<open>Dial order\<close>

datatype natMode = modeUnknown | modeSharedNAT | modeDifferentSites

definition hostOnly :: "string \<Rightarrow> string" where
  "hostOnly hp = (case split_host_port hp of None \<Rightarrow> hp | Some (h, _) \<Rightarrow> h)"

fun srflxIP :: "Candidate list \<Rightarrow> string" where
  "srflxIP [] = []"
| "srflxIP (c # cs) = (if Type c = CandSRFLX then hostOnly (Addr c) else srflxIP cs)"

definition sameNAT :: "Candidate list \<Rightarrow> Candidate list \<Rightarrow> natMode \<times> bool" where
  "sameNAT mine theirs =
     (let m = srflxIP mine; t = srflxIP theirs in
      if m = [] \<or> t = [] then (modeUnknown, False)
      else if m = t then (modeSharedNAT, True)
      else (modeDifferentSites, False))"

definition isPrivateIP :: "ip \<Rightarrow> bool" where
  "isPrivateIP ip =
     (case to4 ip of
        None \<Rightarrow> False
      | Some p \<Rightarrow>
          byte_at p 0 = 10 \<or>
          (byte_at p 0 = 172 \<and> byte_at p 1 \<ge> 16 \<and> byte_at p 1 \<le> 31) \<or>
          (byte_at p 0 = 192 \<and> byte_at p 1 = 168) \<or>
          (byte_at p 0 = 100 \<and> byte_at p 1 \<ge> 64 \<and> byte_at p 1 \<le> 127))"

definition isPrivateCandidate :: "Candidate \<Rightarrow> bool" where
  "isPrivateCandidate c = (case parse_ip (hostOnly (Addr c)) of None \<Rightarrow> False | Some ip \<Rightarrow> isPrivateIP ip)"

definition hostScore :: "natMode \<Rightarrow> int" where
  "hostScore m = (case m of modeSharedNAT \<Rightarrow> 0 | modeUnknown \<Rightarrow> 0 | modeDifferentSites \<Rightarrow> 20)"

definition srflxScore :: "natMode \<Rightarrow> int" where
  "srflxScore m = 10"

definition stableSortCandidates :: "Candidate list \<Rightarrow> Candidate list" where
  "stableSortCandidates cs = sort_key score cs"

definition OrderEndpoints :: "Candidate list \<Rightarrow> Candidate list \<Rightarrow> Candidate list" where
  "OrderEndpoints mine theirs =
     (let mode = fst (sameNAT mine theirs);
          cands = (if mode = modeDifferentSites
                   then filter (\<lambda>c. \<not> (Type c = CandHost \<and> isPrivateCandidate c)) theirs
                   else theirs);
          scored = map (\<lambda>c. c\<lparr>score := (if Type c = CandSRFLX then srflxScore mode else hostScore mode)\<rparr>) cands
      in stableSortCandidates scored)"

definition containsAddr :: "Candidate list \<Rightarrow> string \<Rightarrow> bool" where
  "containsAddr cands addr = list_ex (\<lambda>x. Addr x = addr) cands"

section \<open>Host candidates\<close>

record net_iface =
  if_name :: string
  flag_loopback :: bool
  flag_p2p :: bool
  if_addrs :: "ip option list option"

definition skipped_prefixes :: "string list" where
  "skipped_prefixes = [''lo'', ''wg'', ''docker'', ''br-'', ''veth'', ''virbr'', ''tun'', ''tap'', ''vrf'', ''zt'']"

definition announceIface :: "net_iface \<Rightarrow> bool" where
  "announceIface i =
     (if flag_loopback i \<or> flag_p2p i then False
      else \<not> list_ex (\<lambda>p. has_prefix (to_lower (if_name i)) p) skipped_prefixes)"

definition announceable_ip :: "ip \<Rightarrow> bool" where
  "announceable_ip ip =
     (case to4 ip of
        Some p \<Rightarrow> \<not> (is_loopback p \<or> is_link_local p \<or> is_unspecified p)
      | None \<Rightarrow> \<not> (is_link_local ip \<or> is_loopback ip \<or> is_unspecified ip))"

definition ipCandidates :: "ip list \<Rightarrow> int \<Rightarrow> Candidate list" where
  "ipCandidates ips port =
     map (\<lambda>ip. mk_cand CandHost (join_host_port (ip_string ip) (int_str port)))
       (filter announceable_ip ips)"

text \<open>\<open>None\<close>: the interface list, or the addresses of one interface, could not be read; an
  address that is no \<open>*net.IPNet\<close> is a \<open>None\<close> entry.\<close>

definition LocalCandidates :: "net_iface list option \<Rightarrow> int \<Rightarrow> Candidate list" where
  "LocalCandidates ifaces port =
     (case ifaces of
        None \<Rightarrow> []
      | Some is \<Rightarrow>
          ipCandidates
            (concat (map (\<lambda>i. case if_addrs i of None \<Rightarrow> []
                              | Some as \<Rightarrow> List.map_filter (\<lambda>a. a) as)
               (filter announceIface is))) port)"

section \<open>Reflexive candidates\<close>

text \<open>One server over both families: \<open>break\<close> on an ended context leaves the inner loop.\<close>

fun gather_networks ::
  "('s \<Rightarrow> goerr option) \<Rightarrow> (string \<Rightarrow> string \<Rightarrow> 's \<Rightarrow> string res \<times> 's) \<Rightarrow> string \<Rightarrow> string list
     \<Rightarrow> Candidate list \<Rightarrow> 's \<Rightarrow> Candidate list \<times> 's" where
  "gather_networks ctx srflxOne srv [] out s = (out, s)"
| "gather_networks ctx srflxOne srv (network # ns) out s =
     (if ctx s \<noteq> None then (out, s)
      else (case srflxOne network srv s of
          (Inl _, s1) \<Rightarrow> gather_networks ctx srflxOne srv ns out s1
        | (Inr addr, s1) \<Rightarrow>
            gather_networks ctx srflxOne srv ns
              (if containsAddr out addr then out else out @ [mk_cand CandSRFLX addr]) s1))"

fun gather_servers ::
  "('s \<Rightarrow> goerr option) \<Rightarrow> (string \<Rightarrow> string \<Rightarrow> 's \<Rightarrow> string res \<times> 's) \<Rightarrow> string list
     \<Rightarrow> Candidate list \<Rightarrow> 's \<Rightarrow> Candidate list \<times> 's" where
  "gather_servers ctx srflxOne [] out s = (out, s)"
| "gather_servers ctx srflxOne (srv # srvs) out s =
     (case gather_networks ctx srflxOne srv [''udp4'', ''udp6''] out s of
        (out', s') \<Rightarrow> gather_servers ctx srflxOne srvs out' s')"

definition GatherSRFLX ::
  "('s \<Rightarrow> goerr option) \<Rightarrow> (string \<Rightarrow> string \<Rightarrow> 's \<Rightarrow> string res \<times> 's) \<Rightarrow> string list \<Rightarrow> 's
     \<Rightarrow> Candidate list \<times> 's" where
  "GatherSRFLX ctx srflxOne servers s = gather_servers ctx srflxOne servers [] s"

section \<open>Laws\<close>

lemma sort_two_keys:
  fixes k :: "'a \<Rightarrow> 'b :: linorder"
  assumes "a < b" "\<forall>x \<in> set xs. k x = a \<or> k x = b"
  shows "sort_key k xs = filter (\<lambda>x. k x = a) xs @ filter (\<lambda>x. k x = b) xs"
proof -
  have f: "filter (\<lambda>x. k x = c) (filter (\<lambda>x. k x = c') ys) =
      (if c = c' then filter (\<lambda>x. k x = c') ys else [])" for c c' ys
    by (induction ys) auto
  have k: "map k (filter (\<lambda>x. k x = c) xs) = replicate (length (filter (\<lambda>x. k x = c) xs)) c" for c
    by (induction xs) auto
  show ?thesis
  proof (rule properties_for_sort_key)
    show "mset (filter (\<lambda>x. k x = a) xs @ filter (\<lambda>x. k x = b) xs) = mset xs"
      using assms by (induction xs) auto
    show "filter (\<lambda>y. k x = k y) (filter (\<lambda>x. k x = a) xs @ filter (\<lambda>x. k x = b) xs) =
        filter (\<lambda>y. k x = k y) xs" if "x \<in> set (filter (\<lambda>x. k x = a) xs @ filter (\<lambda>x. k x = b) xs)" for x
      using that f [of a a xs] f [of a b xs] f [of b a xs] f [of b b xs] assms(1)
      by (auto simp: eq_commute [of "k x"])
    show "sorted (map k (filter (\<lambda>x. k x = a) xs @ filter (\<lambda>x. k x = b) xs))"
      using assms(1) k by (simp add: sorted_append less_imp_le)
  qed
qed

text \<open>The order without its scores: a peer's dial list is a partition of the candidates.\<close>

definition unscored :: "Candidate \<Rightarrow> Candidate" where
  "unscored c = c\<lparr>score := 0\<rparr>"

definition dialable :: "natMode \<Rightarrow> Candidate list \<Rightarrow> Candidate list" where
  "dialable mode theirs =
     (if mode = modeDifferentSites
      then filter (\<lambda>c. \<not> (Type c = CandHost \<and> isPrivateCandidate c)) theirs else theirs)"

lemma isPrivateCandidate_unscored [simp]: "isPrivateCandidate (c\<lparr>score := x\<rparr>) = isPrivateCandidate c"
  by (simp add: isPrivateCandidate_def)

lemma filter_map_unscored:
  "map unscored (filter P (map (\<lambda>c. c\<lparr>score := f c\<rparr>) cs)) =
   map unscored (filter (\<lambda>c. P (c\<lparr>score := f c\<rparr>)) cs)"
  by (induction cs) (auto simp: unscored_def)

lemma OrderEndpoints_partition:
  fixes mine theirs
  defines "mode \<equiv> fst (sameNAT mine theirs)"
  defines "sr \<equiv> filter (\<lambda>c. Type c = CandSRFLX) (dialable mode theirs)"
    and "rest \<equiv> filter (\<lambda>c. Type c \<noteq> CandSRFLX) (dialable mode theirs)"
  shows "map unscored (OrderEndpoints mine theirs) =
     map unscored (if mode = modeDifferentSites then sr @ rest else rest @ sr)"
proof -
  define h where "h = hostScore mode"
  let ?sc = "\<lambda>c. c\<lparr>score := (if Type c = CandSRFLX then 10 else h)\<rparr>"
  let ?xs = "map ?sc (dialable mode theirs)"
  have o: "OrderEndpoints mine theirs = sort_key score ?xs"
    unfolding OrderEndpoints_def dialable_def mode_def h_def srflxScore_def
      stableSortCandidates_def Let_def ..
  have srf: "map unscored (filter (\<lambda>c. score c = 10) ?xs) = map unscored sr" if "h \<noteq> 10"
    using that by (subst filter_map_unscored) (auto simp: sr_def intro!: arg_cong [where f = "map unscored"] filter_cong)
  have rst: "map unscored (filter (\<lambda>c. score c = h) ?xs) = map unscored rest" if "h \<noteq> 10"
    using that by (subst filter_map_unscored) (auto simp: rest_def intro!: arg_cong [where f = "map unscored"] filter_cong)
  show ?thesis
  proof (cases "mode = modeDifferentSites")
    case True
    then have h: "h = 20" by (simp add: h_def hostScore_def)
    have "sort_key score ?xs = filter (\<lambda>c. score c = 10) ?xs @ filter (\<lambda>c. score c = 20) ?xs"
      by (rule sort_two_keys) (auto simp: h)
    with o srf rst h True show ?thesis by simp
  next
    case False
    then have h: "h = 0" by (cases mode) (auto simp: h_def hostScore_def)
    have "sort_key score ?xs = filter (\<lambda>c. score c = 0) ?xs @ filter (\<lambda>c. score c = 10) ?xs"
      by (rule sort_two_keys) (auto simp: h)
    with o srf rst h False show ?thesis by simp
  qed
qed

lemma set_OrderEndpoints:
  "Addr ` set (OrderEndpoints mine theirs) = Addr ` set (dialable (fst (sameNAT mine theirs)) theirs)"
proof -
  have u: "Addr ` set cs = Addr ` set (map unscored cs)" for cs
    by (auto simp: unscored_def image_iff)
  have "set (map unscored (OrderEndpoints mine theirs)) =
      unscored ` set (dialable (fst (sameNAT mine theirs)) theirs)"
    unfolding OrderEndpoints_partition by auto
  then show ?thesis
    unfolding u [of "OrderEndpoints mine theirs"] by (auto simp: unscored_def image_iff)
qed

subsection \<open>Private ranges\<close>

definition net8 :: ipnet where "net8 = \<lparr>net_ip = [CHR 0x0A, CHR 0x00, CHR 0x00, CHR 0x00], net_ones = 8, net_bits = 32\<rparr>"
definition net12 :: ipnet where "net12 = \<lparr>net_ip = [CHR 0xAC, CHR 0x10, CHR 0x00, CHR 0x00], net_ones = 12, net_bits = 32\<rparr>"
definition net16 :: ipnet where "net16 = \<lparr>net_ip = [CHR 0xC0, CHR 0xA8, CHR 0x00, CHR 0x00], net_ones = 16, net_bits = 32\<rparr>"
definition net_cgnat :: ipnet where "net_cgnat = \<lparr>net_ip = [CHR 0x64, CHR 0x40, CHR 0x00, CHR 0x00], net_ones = 10, net_bits = 32\<rparr>"

lemma isPrivateIP_ranges:
  assumes "length p = 4"
  shows "isPrivateIP p \<longleftrightarrow>
     net_contains net8 p \<or> net_contains net12 p \<or> net_contains net16 p \<or> net_contains net_cgnat p"
proof -
  obtain a b c d where p: "p = [a, b, c, d]" using assms by (rule length4E)
  have z: "mask_byte 0 x = CHR 0x00" for x
    by (simp add: char_eq_iff of_char_mask_byte)
  have m: "(of_char b :: nat) div 16 * 16 = 16 \<longleftrightarrow> 16 \<le> (of_char b :: nat) \<and> (of_char b :: nat) \<le> 31"
    "(of_char b :: nat) div 64 * 64 = 64 \<longleftrightarrow> 64 \<le> (of_char b :: nat) \<and> (of_char b :: nat) \<le> 127"
    by auto
  have "net_contains net8 p \<longleftrightarrow> (of_char a :: nat) = 10"
    by (simp add: net_contains_def net8_def p z char_eq_iff [of a])
  moreover have "net_contains net12 p \<longleftrightarrow> (of_char a :: nat) = 172 \<and> 16 \<le> (of_char b :: nat) \<and> (of_char b :: nat) \<le> 31"
    using m(1) by (simp add: net_contains_def net12_def p z char_eq_iff [of a] char_eq_iff [of "mask_byte 4 b"] of_char_mask_byte)
  moreover have "net_contains net16 p \<longleftrightarrow> (of_char a :: nat) = 192 \<and> (of_char b :: nat) = 168"
    by (simp add: net_contains_def net16_def p z char_eq_iff [of a] char_eq_iff [of b])
  moreover have "net_contains net_cgnat p \<longleftrightarrow> (of_char a :: nat) = 100 \<and> 64 \<le> (of_char b :: nat) \<and> (of_char b :: nat) \<le> 127"
    using m(2) by (simp add: net_contains_def net_cgnat_def p z char_eq_iff [of a] char_eq_iff [of "mask_byte 2 b"] of_char_mask_byte)
  ultimately show ?thesis
    by (auto simp: isPrivateIP_def p byte_at_def)
qed

subsection \<open>Gathering\<close>

lemma gather_networks_distinct:
  "gather_networks ctx one srv ns out s = (out', s') \<Longrightarrow> distinct (map Addr out) \<Longrightarrow>
   (\<forall>c \<in> set out. Type c = CandSRFLX) \<Longrightarrow>
   distinct (map Addr out') \<and> (\<forall>c \<in> set out'. Type c = CandSRFLX)"
proof (induction ctx one srv ns out s rule: gather_networks.induct)
  case (2 ctx one srv n ns out s)
  show ?case
  proof (cases "ctx s")
    case (Some e)
    with "2.prems" show ?thesis by simp
  next
    case None
    obtain r s1 where r: "one n srv s = (r, s1)" by (cases "one n srv s")
    show ?thesis
    proof (cases r)
      case (Inl e)
      with "2.IH"(1) [OF _ r [symmetric]] "2.prems" None r show ?thesis by simp
    next
      case (Inr a)
      have "distinct (map Addr (if containsAddr out a then out else out @ [mk_cand CandSRFLX a]))"
        using "2.prems"(2) by (auto simp: containsAddr_def list_ex_iff mk_cand_def)
      moreover have "\<forall>c \<in> set (if containsAddr out a then out else out @ [mk_cand CandSRFLX a]). Type c = CandSRFLX"
        using "2.prems"(3) by (auto simp: mk_cand_def)
      ultimately show ?thesis
        using "2.IH"(2) [OF _ r [symmetric] Inr] "2.prems"(1) None r Inr by simp
    qed
  qed
qed auto

lemma gather_servers_distinct:
  "gather_servers ctx one srvs out s = (out', s') \<Longrightarrow> distinct (map Addr out) \<Longrightarrow>
   (\<forall>c \<in> set out. Type c = CandSRFLX) \<Longrightarrow>
   distinct (map Addr out') \<and> (\<forall>c \<in> set out'. Type c = CandSRFLX)"
proof (induction srvs arbitrary: out s)
  case (Cons srv srvs)
  obtain o1 s1 where g: "gather_networks ctx one srv [''udp4'', ''udp6''] out s = (o1, s1)"
    by (cases "gather_networks ctx one srv [''udp4'', ''udp6''] out s")
  from gather_networks_distinct [OF g Cons.prems(2,3)] Cons.IH Cons.prems(1) g
  show ?case by simp
qed auto

section \<open>Properties\<close>

text \<open>C39: the dial order is a stable partition of the advertised candidates: with one shared
  NAT, or none known, the reflexive ones come last; at different sites they come first and the
  private host addresses of the peer are not dialed at all.\<close>

theorem dial_order_partition:
  "map unscored (OrderEndpoints mine theirs) = map unscored
     (let mode = fst (sameNAT mine theirs);
          sr = filter (\<lambda>c. Type c = CandSRFLX) (dialable mode theirs);
          rest = filter (\<lambda>c. Type c \<noteq> CandSRFLX) (dialable mode theirs)
      in if mode = modeDifferentSites then sr @ rest else rest @ sr)"
  using OrderEndpoints_partition [of mine theirs] by (simp add: Let_def)

text \<open>The byte comparisons of the private-range test are membership in 10.0.0.0/8,
  172.16.0.0/12, 192.168.0.0/16 and the carrier-grade range 100.64.0.0/10.\<close>

theorem private_ranges:
  assumes "length p = 4"
  shows "isPrivateIP p \<longleftrightarrow>
     net_contains net8 p \<or> net_contains net12 p \<or> net_contains net16 p \<or> net_contains net_cgnat p"
  using isPrivateIP_ranges [OF assms] .

theorem private_ranges_witness:
  "isPrivateIP [CHR 0x64, CHR 0x50, CHR 0x01, CHR 0x02] \<and> \<not> isPrivateIP [CHR 0x64, CHR 0x80, CHR 0x01, CHR 0x02]"
  using private_ranges [of "[CHR 0x64, CHR 0x50, CHR 0x01, CHR 0x02]"]
  by (simp add: isPrivateIP_def byte_at_def)

text \<open>Gathering reflexive candidates returns each address once, all of them reflexive,
  whatever the servers answer and whenever the context ends.\<close>

theorem reflexive_candidates_distinct:
  assumes "GatherSRFLX ctx srflxOne servers s = (out, s')"
  shows "distinct (map Addr out) \<and> (\<forall>c \<in> set out. Type c = CandSRFLX)"
  using gather_servers_distinct [OF assms [unfolded GatherSRFLX_def]] by simp

theorem reflexive_candidates_distinct_witness:
  "GatherSRFLX (\<lambda>n. None) (\<lambda>network srv n. (Inr ''1.2.3.4:5'', Suc n)) [''a'', ''b''] 0 =
     ([mk_cand CandSRFLX ''1.2.3.4:5''], 4) \<and> distinct (map Addr [mk_cand CandSRFLX ''1.2.3.4:5''])"
proof -
  have "GatherSRFLX (\<lambda>n. None) (\<lambda>network srv n. (Inr ''1.2.3.4:5'', Suc n)) [''a'', ''b''] 0 =
     ([mk_cand CandSRFLX ''1.2.3.4:5''], 4)"
    by (simp add: GatherSRFLX_def containsAddr_def mk_cand_def)
  with reflexive_candidates_distinct [OF this] show ?thesis by blast
qed

end
