(* ===== verification/Device.thy ===== *)
theory Device
  imports Peers
begin

text \<open>
  The WireGuard interface: the \<open>Device\<close> interface (\<open>internal/mesh/device.go\<close>), the
  in-memory \<open>FakeDevice\<close> of tests and dry runs (\<open>internal/mesh/fake.go\<close>) and the
  \<open>LinuxDevice\<close> over rtnetlink and the WireGuard netlink API
  (\<open>internal/mesh/device_linux.go\<close>). The two netlink libraries are a record of operations
  over a kernel state; what is used of them is stated as hypotheses where it is used.

  The locale \<open>wg_device\<close> is what the daemon relies on: applying a peer set does not move
  the endpoint of a peer whose endpoint is left out, and produces no handshakes. The fake
  device and the Linux device over a kernel in memory are interpretations.
\<close>

section \<open>The interface\<close>

record PeerDesire =
  pd_Name :: string
  pd_Pub :: bytes
  pd_Endpoint :: "udpaddr option"
  pd_AllowedIPs :: "ipnet list"
  pd_Keepalive :: duration

record 'w dev_ops =
  dev_Setup :: "bytes \<Rightarrow> int \<Rightarrow> int \<Rightarrow> ipnet \<Rightarrow> ipnet option \<Rightarrow> 'w \<Rightarrow> goerr option \<times> 'w"
  dev_Apply :: "PeerDesire list \<Rightarrow> 'w \<Rightarrow> goerr option \<times> 'w"
  dev_ApplyRoutes :: "ipnet list \<Rightarrow> 'w \<Rightarrow> goerr option \<times> 'w"
  dev_Handshake :: "bytes \<Rightarrow> 'w \<Rightarrow> time"
  dev_Endpoint :: "bytes \<Rightarrow> 'w \<Rightarrow> udpaddr option"

section \<open>FakeDevice\<close>

record FakeDevice =
  setupKey :: bytes
  SetupCnt :: nat
  History :: "PeerDesire list list"
  Routes :: "ipnet list"
  Reachable :: "(udpaddr \<Rightarrow> bool) option"
  ApplyErr :: "goerr option"
  hs :: "(bytes, time) gomap"
  lastEP :: "(bytes, udpaddr) gomap"
  observed :: "(bytes, udpaddr) gomap"

definition NewFakeDevice :: FakeDevice where
  "NewFakeDevice = \<lparr>setupKey = [], SetupCnt = 0, History = [], Routes = [], Reachable = None,
     ApplyErr = None, hs = [], lastEP = [], observed = []\<rparr>"

definition fake_Setup :: "bytes \<Rightarrow> FakeDevice \<Rightarrow> FakeDevice" where
  "fake_Setup key f = f\<lparr>setupKey := key, SetupCnt := SetupCnt f + 1\<rparr>"

fun note_endpoints :: "PeerDesire list \<Rightarrow> (bytes, udpaddr) gomap \<Rightarrow> (bytes, udpaddr) gomap" where
  "note_endpoints [] m = m"
| "note_endpoints (p # ps) m =
     note_endpoints ps (case pd_Endpoint p of None \<Rightarrow> m | Some ep \<Rightarrow> AList.update (pd_Pub p) ep m)"

definition fake_Apply :: "PeerDesire list \<Rightarrow> FakeDevice \<Rightarrow> goerr option \<times> FakeDevice" where
  "fake_Apply peers f =
     (case ApplyErr f of
        Some e \<Rightarrow> (Some e, f)
      | None \<Rightarrow> (None, f\<lparr>History := History f @ [sort_key pd_Name peers],
                       lastEP := note_endpoints peers (lastEP f)\<rparr>))"

definition fake_ApplyRoutes :: "ipnet list \<Rightarrow> FakeDevice \<Rightarrow> FakeDevice" where
  "fake_ApplyRoutes routes f = f\<lparr>Routes := routes\<rparr>"

definition Traffic :: "time \<Rightarrow> bytes \<Rightarrow> FakeDevice \<Rightarrow> FakeDevice" where
  "Traffic now pub f =
     (case map_of (lastEP f) pub of
        None \<Rightarrow> f
      | Some ep \<Rightarrow>
          (case Reachable f of
             Some r \<Rightarrow> if r ep then f\<lparr>hs := AList.update pub now (hs f)\<rparr> else f
           | None \<Rightarrow> f\<lparr>hs := AList.update pub now (hs f)\<rparr>))"

definition fake_Handshake :: "bytes \<Rightarrow> FakeDevice \<Rightarrow> time" where
  "fake_Handshake pub f = (case map_of (hs f) pub of None \<Rightarrow> zero_time | Some t \<Rightarrow> t)"

definition fake_Endpoint :: "bytes \<Rightarrow> FakeDevice \<Rightarrow> udpaddr option" where
  "fake_Endpoint pub f =
     (case map_of (observed f) pub of Some ep \<Rightarrow> Some ep | None \<Rightarrow> map_of (lastEP f) pub)"

definition SetObserved :: "bytes \<Rightarrow> udpaddr \<Rightarrow> FakeDevice \<Rightarrow> FakeDevice" where
  "SetObserved pub ep f = f\<lparr>observed := AList.update pub ep (observed f)\<rparr>"

definition SetHandshake :: "bytes \<Rightarrow> time \<Rightarrow> FakeDevice \<Rightarrow> FakeDevice" where
  "SetHandshake pub t f = f\<lparr>hs := AList.update pub t (hs f)\<rparr>"

definition Applies :: "FakeDevice \<Rightarrow> nat" where
  "Applies f = length (History f)"

definition fake_dev :: "FakeDevice dev_ops" where
  "fake_dev = \<lparr>dev_Setup = \<lambda>key p m a r f. (None, fake_Setup key f), dev_Apply = fake_Apply,
     dev_ApplyRoutes = \<lambda>rs f. (None, fake_ApplyRoutes rs f), dev_Handshake = fake_Handshake,
     dev_Endpoint = fake_Endpoint\<rparr>"

section \<open>LinuxDevice\<close>

record PeerConfig =
  pc_PublicKey :: bytes
  pc_AllowedIPs :: "ipnet list"
  pc_Keepalive :: "duration option"
  pc_Endpoint :: "udpaddr option"
  pc_Remove :: bool

record wg_peer =
  wp_PublicKey :: bytes
  wp_Endpoint :: "udpaddr option"
  wp_LastHandshake :: time
  wp_AllowedIPs :: "ipnet list"

record link =
  link_type :: string
  link_mtu :: int
  link_index :: int

text \<open>\<open>RouteDel\<close> reports whether the route did not exist besides the error.\<close>

record 'k kernel_ops =
  k_Device :: "string \<Rightarrow> 'k \<Rightarrow> wg_peer list res"
  k_ConfigurePeers :: "string \<Rightarrow> PeerConfig list \<Rightarrow> 'k \<Rightarrow> goerr option \<times> 'k"
  k_ConfigureKey :: "string \<Rightarrow> bytes \<Rightarrow> int \<Rightarrow> 'k \<Rightarrow> goerr option \<times> 'k"
  k_LinkByName :: "string \<Rightarrow> 'k \<Rightarrow> link res"
  k_LinkAdd :: "string \<Rightarrow> int option \<Rightarrow> 'k \<Rightarrow> goerr option \<times> 'k"
  k_LinkSetMTU :: "link \<Rightarrow> int \<Rightarrow> 'k \<Rightarrow> goerr option \<times> 'k"
  k_LinkSetUp :: "link \<Rightarrow> 'k \<Rightarrow> goerr option \<times> 'k"
  k_AddrReplace :: "link \<Rightarrow> ipnet \<Rightarrow> 'k \<Rightarrow> goerr option \<times> 'k"
  k_RouteReplace :: "int \<Rightarrow> ipnet \<Rightarrow> 'k \<Rightarrow> goerr option \<times> 'k"
  k_RouteDel :: "int \<Rightarrow> ipnet \<Rightarrow> 'k \<Rightarrow> (goerr \<times> bool) option \<times> 'k"
  k_LinkDel :: "link \<Rightarrow> 'k \<Rightarrow> goerr option \<times> 'k"

record LinuxDevice =
  ld_iface :: string
  ld_link :: "link option"
  ld_routes :: "ipnet list"

text \<open>\<open>e\<close> is the error of \<open>wgctrl.New\<close>, if any.\<close>

definition NewLinuxDevice :: "goerr option \<Rightarrow> string \<Rightarrow> LinuxDevice res" where
  "NewLinuxDevice e iface =
     (case e of Some e' \<Rightarrow> Inl (Wrap ''wgctrl'' e') | None \<Rightarrow> Inr \<lparr>ld_iface = iface, ld_link = None, ld_routes = []\<rparr>)"

text \<open>Sequencing of steps that may fail.\<close>

definition and_then :: "goerr option \<times> 'k \<Rightarrow> string \<Rightarrow> ('k \<Rightarrow> goerr option \<times> 'k) \<Rightarrow> goerr option \<times> 'k" where
  "and_then r msg f = (case r of (Some e, k) \<Rightarrow> (Some (Wrap msg e), k) | (None, k) \<Rightarrow> f k)"

text \<open>The part of \<open>Setup\<close> after the link is known.\<close>

definition Setup_link ::
  "'k kernel_ops \<Rightarrow> string \<Rightarrow> bytes \<Rightarrow> int \<Rightarrow> int \<Rightarrow> ipnet \<Rightarrow> ipnet option \<Rightarrow> link \<Rightarrow> 'k
     \<Rightarrow> goerr option \<times> 'k" where
  "Setup_link ko iface key port mtu addr route l k =
     and_then (if mtu > 0 \<and> link_mtu l \<noteq> mtu then k_LinkSetMTU ko l mtu k else (None, k)) ''mtu'' (\<lambda>k1.
     and_then (k_ConfigureKey ko iface key port k1) ''configure'' (\<lambda>k2.
     and_then (k_LinkSetUp ko l k2) ''up'' (\<lambda>k3.
     and_then (k_AddrReplace ko l (host32 (net_ip addr)) k3) ''address'' (\<lambda>k4.
       (case route of
          None \<Rightarrow> (None, k4)
        | Some r \<Rightarrow> and_then (k_RouteReplace ko (link_index l) r k4) ''route'' (\<lambda>k5. (None, k5)))))))"

definition linux_Setup ::
  "'k kernel_ops \<Rightarrow> bytes \<Rightarrow> int \<Rightarrow> int \<Rightarrow> ipnet \<Rightarrow> ipnet option \<Rightarrow> LinuxDevice \<Rightarrow> 'k
     \<Rightarrow> goerr option \<times> LinuxDevice \<times> 'k" where
  "linux_Setup ko key port mtu addr route ld k =
     (let go = (\<lambda>l k'. case Setup_link ko (ld_iface ld) key port mtu addr route l k' of
                  (e, k'') \<Rightarrow> (e, ld\<lparr>ld_link := Some l\<rparr>, k'')) in
      case k_LinkByName ko (ld_iface ld) k of
        Inl _ \<Rightarrow>
          (case k_LinkAdd ko (ld_iface ld) (if mtu > 0 then Some mtu else None) k of
             (Some e, k1) \<Rightarrow> (Some (Wrap ''create'' e), ld, k1)
           | (None, k1) \<Rightarrow>
               (case k_LinkByName ko (ld_iface ld) k1 of
                  Inl e \<Rightarrow> (Some (Wrap ''find new'' e), ld, k1)
                | Inr l \<Rightarrow> go l k1))
      | Inr l \<Rightarrow>
          if link_type l \<noteq> ''wireguard'' then (Some (Errorf ''exists but is not a wireguard link''), ld, k)
          else go l k)"

definition add_config :: "PeerDesire \<Rightarrow> PeerConfig" where
  "add_config p = \<lparr>pc_PublicKey = pd_Pub p, pc_AllowedIPs = pd_AllowedIPs p,
     pc_Keepalive = Some (pd_Keepalive p), pc_Endpoint = pd_Endpoint p, pc_Remove = False\<rparr>"

definition remove_config :: "bytes \<Rightarrow> PeerConfig" where
  "remove_config pub = \<lparr>pc_PublicKey = pub, pc_AllowedIPs = [], pc_Keepalive = None,
     pc_Endpoint = None, pc_Remove = True\<rparr>"

text \<open>The configuration \<open>Apply\<close> sends: an update per desired peer, a removal per peer of the
  interface nobody wants any more.\<close>

definition apply_config :: "PeerDesire list \<Rightarrow> bytes list \<Rightarrow> PeerConfig list" where
  "apply_config peers current =
     (let wanted = filter (\<lambda>p. pd_AllowedIPs p \<noteq> []) peers in
      map add_config wanted @
      map remove_config (filter (\<lambda>pub. pub \<notin> set (map pd_Pub wanted)) (remdups current)))"

definition linux_Apply :: "'k kernel_ops \<Rightarrow> LinuxDevice \<Rightarrow> PeerDesire list \<Rightarrow> 'k \<Rightarrow> goerr option \<times> 'k" where
  "linux_Apply ko ld peers k =
     (case k_Device ko (ld_iface ld) k of
        Inl e \<Rightarrow> (Some (Wrap ''apply'' ErrDeviceGone), k)
      | Inr ps \<Rightarrow>
          (let cfg = apply_config peers (map wp_PublicKey ps) in
           if cfg = [] then (None, k) else k_ConfigurePeers ko (ld_iface ld) cfg k))"

fun replace_routes :: "'k kernel_ops \<Rightarrow> int \<Rightarrow> ipnet list \<Rightarrow> 'k \<Rightarrow> goerr option \<times> 'k" where
  "replace_routes ko idx [] k = (None, k)"
| "replace_routes ko idx (r # rs) k =
     and_then (k_RouteReplace ko idx r k) (''route '' @ ipnet_string r) (\<lambda>k1. replace_routes ko idx rs k1)"

fun delete_routes :: "'k kernel_ops \<Rightarrow> int \<Rightarrow> string list \<Rightarrow> ipnet list \<Rightarrow> 'k \<Rightarrow> goerr option \<times> 'k" where
  "delete_routes ko idx want [] k = (None, k)"
| "delete_routes ko idx want (p # ps) k =
     (if ipnet_string p \<in> set want then delete_routes ko idx want ps k
      else (case k_RouteDel ko idx p k of
          (Some (e, notexist), k1) \<Rightarrow>
            if \<not> notexist then (Some (Wrap (''del route '' @ ipnet_string p) e), k1)
            else delete_routes ko idx want ps k1
        | (None, k1) \<Rightarrow> delete_routes ko idx want ps k1))"

text \<open>Before \<open>Setup\<close> the link is nil and the method panics: \<open>None\<close>.\<close>

definition linux_ApplyRoutes ::
  "'k kernel_ops \<Rightarrow> ipnet list \<Rightarrow> LinuxDevice \<Rightarrow> 'k \<Rightarrow> (goerr option \<times> LinuxDevice \<times> 'k) option" where
  "linux_ApplyRoutes ko routes ld k =
     (case ld_link ld of
        None \<Rightarrow> if routes = [] \<and> ld_routes ld = [] then Some (None, ld, k) else None
      | Some l \<Rightarrow>
          (case replace_routes ko (link_index l) routes k of
             (Some e, k1) \<Rightarrow> Some (Some e, ld, k1)
           | (None, k1) \<Rightarrow>
               (case delete_routes ko (link_index l) (map ipnet_string routes) (ld_routes ld) k1 of
                  (Some e, k2) \<Rightarrow> Some (Some e, ld, k2)
                | (None, k2) \<Rightarrow> Some (None, ld\<lparr>ld_routes := routes\<rparr>, k2))))"

definition find_peer :: "bytes \<Rightarrow> wg_peer list \<Rightarrow> wg_peer option" where
  "find_peer pub ps = find (\<lambda>p. wp_PublicKey p = pub) ps"

definition linux_Handshake :: "'k kernel_ops \<Rightarrow> LinuxDevice \<Rightarrow> bytes \<Rightarrow> 'k \<Rightarrow> time" where
  "linux_Handshake ko ld pub k =
     (case k_Device ko (ld_iface ld) k of
        Inl _ \<Rightarrow> zero_time
      | Inr ps \<Rightarrow> (case find_peer pub ps of None \<Rightarrow> zero_time | Some p \<Rightarrow> wp_LastHandshake p))"

definition linux_Endpoint :: "'k kernel_ops \<Rightarrow> LinuxDevice \<Rightarrow> bytes \<Rightarrow> 'k \<Rightarrow> udpaddr option" where
  "linux_Endpoint ko ld pub k =
     (case k_Device ko (ld_iface ld) k of
        Inl _ \<Rightarrow> None
      | Inr ps \<Rightarrow> (case find_peer pub ps of None \<Rightarrow> None | Some p \<Rightarrow> wp_Endpoint p))"

definition linux_Delete :: "'k kernel_ops \<Rightarrow> LinuxDevice \<Rightarrow> 'k \<Rightarrow> goerr option \<times> 'k" where
  "linux_Delete ko ld k =
     (case k_LinkByName ko (ld_iface ld) k of Inl _ \<Rightarrow> (None, k) | Inr l \<Rightarrow> k_LinkDel ko l k)"

text \<open>The Linux device as a \<open>Device\<close>, its fields part of the world. The daemon sets it up
  before its first tick, so the panic of \<open>ApplyRoutes\<close> on a device never set up, here an
  error, is not reached from it.\<close>

definition linux_dev :: "'k kernel_ops \<Rightarrow> (LinuxDevice \<times> 'k) dev_ops" where
  "linux_dev ko =
     \<lparr>dev_Setup = \<lambda>key p m a r (ld, k). linux_Setup ko key p m a r ld k,
      dev_Apply = \<lambda>ps (ld, k). (case linux_Apply ko ld ps k of (e, k') \<Rightarrow> (e, ld, k')),
      dev_ApplyRoutes = \<lambda>rs (ld, k). (case linux_ApplyRoutes ko rs ld k of
          None \<Rightarrow> (Some (Errorf ''no link''), ld, k) | Some r \<Rightarrow> r),
      dev_Handshake = \<lambda>pub (ld, k). linux_Handshake ko ld pub k,
      dev_Endpoint = \<lambda>pub (ld, k). linux_Endpoint ko ld pub k\<rparr>"

section \<open>The contract of a device\<close>

text \<open>The peers a desired state keeps: the ones with allowed addresses.\<close>

definition wanted_keys :: "PeerDesire list \<Rightarrow> bytes set" where
  "wanted_keys peers = pd_Pub ` {p \<in> set peers. pd_AllowedIPs p \<noteq> []}"

locale wg_device =
  fixes dv :: "'w dev_ops"
  assumes apply_keeps_endpoint:
      "dev_Apply dv ps w = (e, w') \<Longrightarrow> \<forall>p \<in> set ps. pd_Pub p = pub \<longrightarrow> pd_Endpoint p = None \<Longrightarrow>
       dev_Endpoint dv pub w \<noteq> None \<Longrightarrow> pub \<in> wanted_keys ps \<Longrightarrow> dev_Endpoint dv pub w' = dev_Endpoint dv pub w"
    and apply_keeps_handshake:
      "dev_Apply dv ps w = (e, w') \<Longrightarrow> pub \<in> wanted_keys ps \<Longrightarrow> dev_Handshake dv pub w' = dev_Handshake dv pub w"
    and routes_keep:
      "dev_ApplyRoutes dv rs w = (e, w') \<Longrightarrow>
       dev_Endpoint dv pub w' = dev_Endpoint dv pub w \<and> dev_Handshake dv pub w' = dev_Handshake dv pub w"

lemma map_of_note_endpoints:
  "\<forall>p \<in> set ps. pd_Pub p = pub \<longrightarrow> pd_Endpoint p = None \<Longrightarrow>
   map_of (note_endpoints ps m) pub = map_of m pub"
  by (induction ps m rule: note_endpoints.induct) (auto simp: update_conv' split: option.splits)

interpretation fake: wg_device fake_dev
  by unfold_locales
     (auto simp: fake_dev_def fake_Apply_def fake_Endpoint_def fake_Handshake_def
       fake_ApplyRoutes_def map_of_note_endpoints split: option.splits)

section \<open>Convergence of the Linux device\<close>

lemma set_map_wanted: "set (map pd_Pub (filter (\<lambda>p. pd_AllowedIPs p \<noteq> []) peers)) = wanted_keys peers"
  by (auto simp: wanted_keys_def)

lemma config_fields [simp]:
  "pc_PublicKey (add_config p) = pd_Pub p" "\<not> pc_Remove (add_config p)"
  "pc_Endpoint (add_config p) = pd_Endpoint p"
  "pc_PublicKey (remove_config pub) = pub" "pc_Remove (remove_config pub)"
  by (simp_all add: add_config_def remove_config_def)

lemma apply_config_split:
  "{c \<in> set (apply_config peers current). \<not> pc_Remove c} = add_config ` {p \<in> set peers. pd_AllowedIPs p \<noteq> []}"
  "{c \<in> set (apply_config peers current). pc_Remove c} = remove_config ` (set current - wanted_keys peers)"
  by (auto simp: apply_config_def Let_def wanted_keys_def)

lemma apply_config_keys:
  "pc_PublicKey ` {c \<in> set (apply_config peers current). \<not> pc_Remove c} = wanted_keys peers"
  "pc_PublicKey ` {c \<in> set (apply_config peers current). pc_Remove c} = set current - wanted_keys peers"
  unfolding apply_config_split by (auto simp: wanted_keys_def image_image)

text \<open>
  The documented effect of \<open>wgctrl\<close>'s \<open>ConfigureDevice\<close> on the peers of an interface: peers
  marked for removal go, the others are created or updated in place, and an update that
  gives no endpoint leaves the endpoint alone.
\<close>

definition wgctrl_ok :: "'k kernel_ops \<Rightarrow> bool" where
  "wgctrl_ok ko \<longleftrightarrow>
     (\<forall>iface cfg k k' ps. k_ConfigurePeers ko iface cfg k = (None, k') \<longrightarrow> k_Device ko iface k = Inr ps \<longrightarrow>
        pc_PublicKey ` {c \<in> set cfg. pc_Remove c} \<inter> pc_PublicKey ` {c \<in> set cfg. \<not> pc_Remove c} = {} \<longrightarrow>
        (\<exists>ps'. k_Device ko iface k' = Inr ps' \<and>
          wp_PublicKey ` set ps' =
            (wp_PublicKey ` set ps - pc_PublicKey ` {c \<in> set cfg. pc_Remove c}) \<union>
            pc_PublicKey ` {c \<in> set cfg. \<not> pc_Remove c} \<and>
          (\<forall>pub. (\<forall>c \<in> set cfg. pc_PublicKey c = pub \<longrightarrow> \<not> pc_Remove c \<and> pc_Endpoint c = None) \<longrightarrow>
             pub \<in> wp_PublicKey ` set ps \<longrightarrow>
             map_option wp_Endpoint (find_peer pub ps') = map_option wp_Endpoint (find_peer pub ps))))"

lemma linux_Apply_converges:
  assumes "wgctrl_ok ko" "k_Device ko (ld_iface ld) k = Inr ps" "linux_Apply ko ld peers k = (None, k')"
  shows "\<exists>ps'. k_Device ko (ld_iface ld) k' = Inr ps' \<and> wp_PublicKey ` set ps' = wanted_keys peers"
proof (cases "apply_config peers (map wp_PublicKey ps) = []")
  case True
  then have "wanted_keys peers = {}" "wp_PublicKey ` set ps - wanted_keys peers = {}"
    using apply_config_keys [of peers "map wp_PublicKey ps"] by simp_all
  with True assms(2,3) show ?thesis by (auto simp: linux_Apply_def)
next
  case False
  let ?cfg = "apply_config peers (map wp_PublicKey ps)"
  have conf: "k_ConfigurePeers ko (ld_iface ld) ?cfg k = (None, k')"
    using False assms(2,3) by (simp add: linux_Apply_def)
  have disj: "pc_PublicKey ` {c \<in> set ?cfg. pc_Remove c} \<inter> pc_PublicKey ` {c \<in> set ?cfg. \<not> pc_Remove c} = {}"
    unfolding apply_config_keys by blast
  obtain ps' where "k_Device ko (ld_iface ld) k' = Inr ps'"
    "wp_PublicKey ` set ps' = (wp_PublicKey ` set ps - pc_PublicKey ` {c \<in> set ?cfg. pc_Remove c}) \<union>
       pc_PublicKey ` {c \<in> set ?cfg. \<not> pc_Remove c}"
    using assms(1) [unfolded wgctrl_ok_def, rule_format, OF conf assms(2) disj] by (elim exE conjE)
  then show ?thesis
    unfolding apply_config_keys by (auto simp del: set_map simp: set_map [symmetric])
qed

section \<open>A kernel in memory\<close>

text \<open>One interface as its list of peers; links, addresses and routes are accepted.\<close>

definition new_peer :: "PeerConfig \<Rightarrow> wg_peer" where
  "new_peer c = \<lparr>wp_PublicKey = pc_PublicKey c, wp_Endpoint = pc_Endpoint c, wp_LastHandshake = zero_time,
     wp_AllowedIPs = pc_AllowedIPs c\<rparr>"

definition update_peer :: "PeerConfig \<Rightarrow> wg_peer \<Rightarrow> wg_peer" where
  "update_peer c p = p\<lparr>wp_Endpoint := (case pc_Endpoint c of None \<Rightarrow> wp_Endpoint p | Some ep \<Rightarrow> Some ep),
     wp_AllowedIPs := wp_AllowedIPs p @ pc_AllowedIPs c\<rparr>"

fun upsert :: "PeerConfig \<Rightarrow> wg_peer list \<Rightarrow> wg_peer list" where
  "upsert c [] = [new_peer c]"
| "upsert c (p # ps) = (if wp_PublicKey p = pc_PublicKey c then update_peer c p # ps else p # upsert c ps)"

definition configure :: "PeerConfig list \<Rightarrow> wg_peer list \<Rightarrow> wg_peer list" where
  "configure cfg ps =
     fold upsert (filter (\<lambda>c. \<not> pc_Remove c) cfg)
       (filter (\<lambda>p. wp_PublicKey p \<notin> pc_PublicKey ` {c \<in> set cfg. pc_Remove c}) ps)"

definition mem_kernel :: "wg_peer list kernel_ops" where
  "mem_kernel =
     \<lparr>k_Device = \<lambda>i ps. Inr ps, k_ConfigurePeers = \<lambda>i cfg ps. (None, configure cfg ps),
      k_ConfigureKey = \<lambda>i key p ps. (None, ps), k_LinkByName = \<lambda>i ps. Inr \<lparr>link_type = ''wireguard'', link_mtu = 1420, link_index = 1\<rparr>,
      k_LinkAdd = \<lambda>i m ps. (None, ps), k_LinkSetMTU = \<lambda>l m ps. (None, ps), k_LinkSetUp = \<lambda>l ps. (None, ps),
      k_AddrReplace = \<lambda>l a ps. (None, ps), k_RouteReplace = \<lambda>i r ps. (None, ps), k_RouteDel = \<lambda>i r ps. (None, ps),
      k_LinkDel = \<lambda>l ps. (None, [])\<rparr>"

lemma image_filter_notin: "f ` {x \<in> A. f x \<notin> K} = f ` A - K"
  by auto

lemma keys_upsert: "wp_PublicKey ` set (upsert c ps) = insert (pc_PublicKey c) (wp_PublicKey ` set ps)"
  by (induction c ps rule: upsert.induct) (auto simp: new_peer_def update_peer_def)

lemma keys_fold_upsert: "wp_PublicKey ` set (fold upsert cs ps) = pc_PublicKey ` set cs \<union> wp_PublicKey ` set ps"
  by (induction cs arbitrary: ps) (auto simp: keys_upsert)

lemma find_upsert:
  "pc_PublicKey c = pub \<longrightarrow> pc_Endpoint c = None \<Longrightarrow> find_peer pub ps \<noteq> None \<Longrightarrow>
   find_peer pub (upsert c ps) \<noteq> None \<and>
   map_option wp_Endpoint (find_peer pub (upsert c ps)) = map_option wp_Endpoint (find_peer pub ps)"
  by (induction c ps rule: upsert.induct) (auto simp: find_peer_def new_peer_def update_peer_def)

lemma find_fold_upsert:
  "\<forall>c \<in> set cs. pc_PublicKey c = pub \<longrightarrow> pc_Endpoint c = None \<Longrightarrow> find_peer pub ps \<noteq> None \<Longrightarrow>
   map_option wp_Endpoint (find_peer pub (fold upsert cs ps)) = map_option wp_Endpoint (find_peer pub ps)"
proof (induction cs arbitrary: ps)
  case (Cons c cs)
  have "find_peer pub (upsert c ps) \<noteq> None \<and>
      map_option wp_Endpoint (find_peer pub (upsert c ps)) = map_option wp_Endpoint (find_peer pub ps)"
    using Cons.prems by (intro find_upsert) auto
  with Cons.IH [of "upsert c ps"] Cons.prems(1) show ?case by simp
qed simp

lemma find_peer_filter:
  "pub \<notin> K \<Longrightarrow> find_peer pub (filter (\<lambda>p. wp_PublicKey p \<notin> K) ps) = find_peer pub ps"
  by (induction ps) (auto simp: find_peer_def)

lemma find_peer_None: "find_peer pub ps = None \<longleftrightarrow> pub \<notin> wp_PublicKey ` set ps"
  by (auto simp: find_peer_def find_None_iff)

lemma configure_keys:
  "wp_PublicKey ` set (configure cfg ps) =
   (wp_PublicKey ` set ps - pc_PublicKey ` {c \<in> set cfg. pc_Remove c}) \<union> pc_PublicKey ` {c \<in> set cfg. \<not> pc_Remove c}"
proof -
  let ?K = "pc_PublicKey ` {c \<in> set cfg. pc_Remove c}"
  have "wp_PublicKey ` set (filter (\<lambda>p. wp_PublicKey p \<notin> ?K) ps) = wp_PublicKey ` set ps - ?K"
    unfolding set_filter by (rule image_filter_notin)
  then show ?thesis unfolding configure_def keys_fold_upsert by (simp add: Un_commute)
qed

lemma configure_endpoint:
  assumes "\<forall>c \<in> set cfg. pc_PublicKey c = pub \<longrightarrow> \<not> pc_Remove c \<and> pc_Endpoint c = None" "pub \<in> wp_PublicKey ` set ps"
  shows "map_option wp_Endpoint (find_peer pub (configure cfg ps)) = map_option wp_Endpoint (find_peer pub ps)"
proof -
  let ?K = "pc_PublicKey ` {c \<in> set cfg. pc_Remove c}"
  have "pub \<notin> ?K" using assms(1) by auto
  note f = find_peer_filter [OF this, of ps]
  show ?thesis
    unfolding configure_def using assms find_fold_upsert [of "filter (\<lambda>c. \<not> pc_Remove c) cfg" pub
      "filter (\<lambda>p. wp_PublicKey p \<notin> ?K) ps"] by (simp add: f find_peer_None)
qed

lemma wgctrl_ok_mem: "wgctrl_ok mem_kernel"
  unfolding wgctrl_ok_def by (simp add: mem_kernel_def configure_keys configure_endpoint)

text \<open>On this kernel the Linux device meets the contract of the daemon.\<close>

lemma handshake_upsert:
  "map_option wp_LastHandshake (find_peer pub (upsert c ps)) =
   (case find_peer pub ps of None \<Rightarrow> if pc_PublicKey c = pub then Some zero_time else None
    | Some p \<Rightarrow> Some (wp_LastHandshake p))"
  by (induction c ps rule: upsert.induct)
     (auto simp: find_peer_def new_peer_def update_peer_def split: option.splits)

lemma handshake_fold_upsert:
  "(case find_peer pub (fold upsert cs ps) of None \<Rightarrow> zero_time | Some p \<Rightarrow> wp_LastHandshake p) =
   (case find_peer pub ps of None \<Rightarrow> zero_time | Some p \<Rightarrow> wp_LastHandshake p)"
proof (induction cs arbitrary: ps)
  case (Cons c cs)
  show ?case
    using Cons.IH [of "upsert c ps"] handshake_upsert [of pub c ps] by (auto split: option.splits if_splits)
qed simp

lemma apply_config_removes:
  "pub \<in> wanted_keys peers \<Longrightarrow> pub \<notin> pc_PublicKey ` {c \<in> set (apply_config peers current). pc_Remove c}"
  unfolding apply_config_keys by blast

lemma linux_Apply_mem:
  "linux_Apply mem_kernel ld peers k =
   (None, if apply_config peers (map wp_PublicKey k) = [] then k else configure (apply_config peers (map wp_PublicKey k)) k)"
  by (simp add: linux_Apply_def mem_kernel_def Let_def)

lemma routes_mem:
  "snd (replace_routes mem_kernel i rs k) = k" "snd (delete_routes mem_kernel i want rs k) = k"
  by (induction rs) (auto simp: mem_kernel_def and_then_def)

lemma linux_ApplyRoutes_mem: "linux_ApplyRoutes mem_kernel rs ld k = Some (e, ld', k') \<Longrightarrow> k' = k"
  using routes_mem
  by (fastforce simp: linux_ApplyRoutes_def split: option.splits if_splits prod.splits dest: arg_cong [where f = snd])

interpretation lin: wg_device "linux_dev mem_kernel"
proof (unfold_locales, goal_cases)
  case (1 ps w e w' pub)
  obtain ld k k' where w: "w = (ld, k)" "w' = (ld, k')" "linux_Apply mem_kernel ld ps k = (e, k')"
    using 1(1) by (cases w) (auto simp: linux_dev_def split: prod.splits)
  let ?cfg = "apply_config ps (map wp_PublicKey k)"
  have d: "k_Device mem_kernel i k = Inr k" for i k by (simp add: mem_kernel_def)
  have n: "find_peer pub k \<noteq> None" using 1(3) w by (auto simp: linux_dev_def linux_Endpoint_def d split: option.splits)
  have c: "\<forall>c \<in> set ?cfg. pc_PublicKey c = pub \<longrightarrow> \<not> pc_Remove c \<and> pc_Endpoint c = None"
    using 1(2) apply_config_removes [OF 1(4), of "map wp_PublicKey k"]
    by (auto simp: apply_config_def Let_def)
  have "map_option wp_Endpoint (find_peer pub (configure ?cfg k)) = map_option wp_Endpoint (find_peer pub k)"
    using n configure_endpoint [OF c] by (simp add: find_peer_None)
  then show ?case
    using w n by (auto simp: linux_Apply_mem linux_dev_def linux_Endpoint_def d split: option.splits if_splits)
next
  case (2 ps w e w' pub)
  obtain ld k k' where w: "w = (ld, k)" "w' = (ld, k')" "linux_Apply mem_kernel ld ps k = (e, k')"
    using 2(1) by (cases w) (auto simp: linux_dev_def split: prod.splits)
  have d: "k_Device mem_kernel i k = Inr k" for i k by (simp add: mem_kernel_def)
  note f = find_peer_filter [OF apply_config_removes [OF 2(2), of "map wp_PublicKey k"], of k]
  show ?case
    using w by (auto simp: linux_Apply_mem linux_dev_def linux_Handshake_def d configure_def handshake_fold_upsert f
        split: if_splits)
next
  case (3 rs w e w' pub)
  obtain ld k ld' k' where w: "w = (ld, k)" "w' = (ld', k')" by (cases w; cases w')
  have "k' = k" using 3 w linux_ApplyRoutes_mem by (fastforce simp: linux_dev_def split: option.splits)
  then show ?case by (simp add: w linux_dev_def linux_Endpoint_def linux_Handshake_def mem_kernel_def)
qed

section \<open>Properties\<close>

text \<open>C7: a successful \<open>Apply\<close> on the Linux device leaves exactly the wanted peers on the
  interface, the ones that are to have allowed addresses: missing peers are created, stray ones
  removed, and the request never removes a wanted peer.\<close>

theorem apply_converges_to_wanted:
  assumes "wgctrl_ok ko" "k_Device ko (ld_iface ld) k = Inr ps" "linux_Apply ko ld peers k = (None, k')"
  shows "(\<exists>ps'. k_Device ko (ld_iface ld) k' = Inr ps' \<and> wp_PublicKey ` set ps' = wanted_keys peers) \<and>
     (\<forall>c \<in> set (apply_config peers (map wp_PublicKey ps)). pc_Remove c \<longrightarrow> pc_PublicKey c \<notin> wanted_keys peers)"
  using linux_Apply_converges [OF assms] apply_config_keys(2) [of peers "map wp_PublicKey ps"] by blast

theorem apply_converges_to_wanted_witness:
  "\<exists>k'. linux_Apply mem_kernel \<lparr>ld_iface = ''wgmesh0'', ld_link = None, ld_routes = []\<rparr>
      [\<lparr>pd_Name = ''b'', pd_Pub = ''B'', pd_Endpoint = None, pd_AllowedIPs = [host32 [CHR 0x0A, CHR 0x09, CHR 0x00, CHR 0x02]],
        pd_Keepalive = 0\<rparr>]
      [\<lparr>wp_PublicKey = ''A'', wp_Endpoint = None, wp_LastHandshake = 0, wp_AllowedIPs = []\<rparr>] = (None, k') \<and>
    wp_PublicKey ` set k' = {''B''}"
proof -
  let ?ld = "\<lparr>ld_iface = ''wgmesh0'', ld_link = None, ld_routes = []\<rparr>"
  let ?want = "[\<lparr>pd_Name = ''b'', pd_Pub = ''B'', pd_Endpoint = None,
      pd_AllowedIPs = [host32 [CHR 0x0A, CHR 0x09, CHR 0x00, CHR 0x02]], pd_Keepalive = 0\<rparr>]"
  let ?ps = "[\<lparr>wp_PublicKey = ''A'', wp_Endpoint = None, wp_LastHandshake = 0, wp_AllowedIPs = []\<rparr>]"
  have d: "k_Device mem_kernel i k = Inr k" for i k by (simp add: mem_kernel_def)
  obtain k' where a: "linux_Apply mem_kernel ?ld ?want ?ps = (None, k')"
    by (cases "apply_config ?want (map wp_PublicKey ?ps) = []")
       (simp_all add: linux_Apply_def d Let_def, simp add: mem_kernel_def)
  from apply_converges_to_wanted [OF wgctrl_ok_mem d a] have "wp_PublicKey ` set k' = wanted_keys ?want" by (simp add: d)
  with a show ?thesis by (auto simp: wanted_keys_def)
qed

end
