(* ===== verification/Spokes.thy ===== *)
theory Spokes
  imports Derive
begin

text \<open>
  The persisted spoke set of a hub (\<open>internal/mesh/spokes.go\<close>). A set of names (a Go
  \<open>map[string]bool\<close> whose values are all true) is a list of distinct names. The file system
  is a record of the operations used: reading (a missing file is \<open>Inl True\<close>, any other
  failure \<open>Inl False\<close>), creating the directory, writing and renaming.

  The locale \<open>spoke_files\<close> states what a working file system promises; under it saving and
  loading are inverse, and \<open>AddSpoke\<close> and \<open>RemoveSpoke\<close> are insertion and removal on the
  stored set. A store of files in memory is an interpretation.
\<close>

record 'f fs_ops =
  read_file :: "string \<Rightarrow> 'f \<Rightarrow> bool + bytes"
  mkdir_all :: "string \<Rightarrow> 'f \<Rightarrow> goerr option \<times> 'f"
  write_file :: "string \<Rightarrow> bytes \<Rightarrow> 'f \<Rightarrow> goerr option \<times> 'f"
  rename_file :: "string \<Rightarrow> string \<Rightarrow> 'f \<Rightarrow> goerr option \<times> 'f"

text \<open>\<open>filepath.Dir\<close> up to \<open>Clean\<close>: what is before the last slash, a dot without one.\<close>

definition dir_of :: "string \<Rightarrow> string" where
  "dir_of path =
     (if CHR ''/'' \<notin> set path then ''.''
      else (let d = rev (tl (dropWhile (\<lambda>c. c \<noteq> CHR ''/'') (rev path))) in if d = [] then ''/'' else d))"

section \<open>Operations\<close>

definition nl :: char where "nl = CHR 0x0A"

definition add_line :: "string list \<Rightarrow> string \<Rightarrow> string list" where
  "add_line out ln = (let n = NormalizeName (trim_space ln) in
     if n \<noteq> [] then List.insert n out else out)"

definition parse_spokes :: "bytes \<Rightarrow> string list" where
  "parse_spokes b = foldl add_line [] (split_on nl b)"

definition LoadSpokes :: "'f fs_ops \<Rightarrow> string \<Rightarrow> 'f \<Rightarrow> string list res" where
  "LoadSpokes fs path f =
     (if path = [] then Inr []
      else case read_file fs path f of
        Inl missing \<Rightarrow> if missing then Inr [] else Inl (Errorf ''read spokes'')
      | Inr b \<Rightarrow> Inr (parse_spokes b))"

definition render_spokes :: "string list \<Rightarrow> bytes" where
  "render_spokes spokes =
     (let names = sort spokes; data = join [nl] names in
      if length names > 0 then data @ [nl] else data)"

definition SaveSpokes :: "'f fs_ops \<Rightarrow> string \<Rightarrow> string list \<Rightarrow> 'f \<Rightarrow> goerr option \<times> 'f" where
  "SaveSpokes fs path spokes f =
     (if path = [] then (None, f)
      else (case mkdir_all fs (dir_of path) f of
          (Some e, f1) \<Rightarrow> (Some e, f1)
        | (None, f1) \<Rightarrow>
            (case write_file fs (path @ ''.tmp'') (render_spokes spokes) f1 of
               (Some e, f2) \<Rightarrow> (Some e, f2)
             | (None, f2) \<Rightarrow> rename_file fs (path @ ''.tmp'') path f2)))"

definition AddSpoke :: "'f fs_ops \<Rightarrow> string \<Rightarrow> string \<Rightarrow> 'f \<Rightarrow> goerr option \<times> 'f" where
  "AddSpoke fs path name0 f =
     (let name = NormalizeName name0 in
      if name = [] then (None, f)
      else (case LoadSpokes fs path f of
          Inl e \<Rightarrow> (Some e, f)
        | Inr s \<Rightarrow> if name \<in> set s then (None, f) else SaveSpokes fs path (s @ [name]) f))"

definition RemoveSpoke :: "'f fs_ops \<Rightarrow> string \<Rightarrow> string \<Rightarrow> 'f \<Rightarrow> goerr option \<times> 'f" where
  "RemoveSpoke fs path name0 f =
     (let name = NormalizeName name0 in
      case LoadSpokes fs path f of
        Inl e \<Rightarrow> (Some e, f)
      | Inr s \<Rightarrow> if name \<notin> set s then (None, f) else SaveSpokes fs path (filter (\<lambda>n. n \<noteq> name) s) f)"

section \<open>Laws\<close>

text \<open>A name as the set holds it: normalised and not empty. One that also has no line end
  inside survives the file.\<close>

definition spoke_name :: "string \<Rightarrow> bool" where
  "spoke_name n \<longleftrightarrow> n \<noteq> [] \<and> NormalizeName n = n \<and> nl \<notin> set n"

lemma trim_space_normal: "NormalizeName n = n \<Longrightarrow> trim_space n = n"
proof -
  assume n: "NormalizeName n = n"
  have "trim_space (NormalizeName n) = NormalizeName n"
    by (simp add: NormalizeName_def trim_space_to_lower)
  with n show ?thesis by simp
qed

lemma add_line_name: "spoke_name n \<Longrightarrow> add_line out n = List.insert n out"
  by (auto simp: add_line_def spoke_name_def trim_space_normal Let_def)

lemma foldl_add_line_names:
  "\<forall>n \<in> set ns. spoke_name n \<Longrightarrow> set (foldl add_line out ns) = set out \<union> set ns"
  by (induction ns arbitrary: out) (auto simp: add_line_name)

lemma distinct_add_line: "distinct out \<Longrightarrow> distinct (add_line out ln)"
  by (simp add: add_line_def Let_def)

lemma distinct_foldl_add_line: "distinct out \<Longrightarrow> distinct (foldl add_line out ns)"
  by (induction ns arbitrary: out) (auto simp: distinct_add_line)

lemma set_add_line: "set (add_line out ln) \<subseteq> insert (NormalizeName (trim_space ln)) (set out)"
  by (auto simp: add_line_def Let_def)

lemma NormalizeName_no_nl: "nl \<notin> set s \<Longrightarrow> nl \<notin> set (NormalizeName s)"
proof -
  assume "nl \<notin> set s"
  then have "nl \<notin> set (trim_space s)" using set_trim_space [of s] by blast
  moreover have "lower_char c = nl \<Longrightarrow> c = nl" for c
    using of_char_lower_char [of c] by (auto simp: nl_def lower_char_def is_upper_def split: if_splits)
  ultimately show ?thesis by (auto simp: NormalizeName_def to_lower_def dest!: sym [of nl])
qed

lemma parse_spokes_names: "n \<in> set (parse_spokes b) \<Longrightarrow> spoke_name n"
proof -
  have names: "\<forall>n \<in> set (foldl add_line out ls). spoke_name n"
    if "\<forall>l \<in> set ls. nl \<notin> set l" "\<forall>n \<in> set out. spoke_name n" for ls out
    using that
  proof (induction ls arbitrary: out)
    case (Cons l ls)
    have "nl \<notin> set (NormalizeName (trim_space l))"
      using Cons.prems(1) set_trim_space [of l] by (intro NormalizeName_no_nl) auto
    then have "\<forall>n \<in> set (add_line out l). spoke_name n"
      using Cons.prems(2) by (auto simp: add_line_def Let_def spoke_name_def)
    with Cons show ?case by simp
  qed simp
  have "\<forall>l \<in> set (split_on nl b). nl \<notin> set l"
    by (auto dest: split_on_parts_no_sep)
  from names [OF this, of "[]"] show "n \<in> set (parse_spokes b) \<Longrightarrow> spoke_name n"
    by (simp add: parse_spokes_def)
qed

lemma distinct_parse_spokes: "distinct (parse_spokes b)"
  by (simp add: parse_spokes_def distinct_foldl_add_line)

lemma parse_render_spokes:
  assumes "\<forall>n \<in> set ns. spoke_name n"
  shows "set (parse_spokes (render_spokes ns)) = set ns"
proof (cases "ns = []")
  case True
  then show ?thesis
    by (simp add: render_spokes_def parse_spokes_def add_line_def NormalizeName_def to_lower_def
        trim_space_def trim_left_space_def trim_right_space_def)
next
  case False
  let ?s = "sort ns"
  have ne: "?s \<noteq> []" using False by (metis set_empty set_sort)
  have "split_on nl (render_spokes ns) = ?s @ [[]]"
    using ne assms by (simp add: render_spokes_def Let_def split_on_join_nl spoke_name_def)
  moreover have "add_line out [] = out" for out
    by (simp add: add_line_def NormalizeName_def to_lower_def trim_space_def trim_left_space_def
        trim_right_space_def)
  ultimately show ?thesis
    using foldl_add_line_names [of ?s "[]"] assms by (simp add: parse_spokes_def)
qed

section \<open>The file system contract\<close>

locale spoke_files =
  fixes fs :: "'f fs_ops"
    and content :: "'f \<Rightarrow> string \<Rightarrow> bytes option"
  assumes read_some: "content f p = Some b \<Longrightarrow> read_file fs p f = Inr b"
    and read_none: "content f p = None \<Longrightarrow> read_file fs p f = Inl True"
    and mkdir_content: "mkdir_all fs d f = (None, f') \<Longrightarrow> content f' p = content f p"
    and write_content: "write_file fs p b f = (None, f') \<Longrightarrow> content f' q = (if q = p then Some b else content f q)"
    and rename_content: "rename_file fs p q f = (None, f') \<Longrightarrow> p \<noteq> q \<Longrightarrow> content f' q = content f p"
begin

lemma SaveSpokes_content:
  assumes "SaveSpokes fs path ns f = (None, f')" "path \<noteq> []"
  shows "content f' path = Some (render_spokes ns)"
proof -
  from assms obtain f1 f2 where "mkdir_all fs (dir_of path) f = (None, f1)"
    "write_file fs (path @ ''.tmp'') (render_spokes ns) f1 = (None, f2)"
    and r: "rename_file fs (path @ ''.tmp'') path f2 = (None, f')"
    by (auto simp: SaveSpokes_def split: prod.splits option.splits)
  then have "content f2 (path @ ''.tmp'') = Some (render_spokes ns)"
    by (simp add: write_content)
  with rename_content [OF r] show ?thesis by simp
qed

lemma Load_after_Save:
  assumes "SaveSpokes fs path ns f = (None, f')" "path \<noteq> []" "\<forall>n \<in> set ns. spoke_name n"
  shows "\<exists>ms. LoadSpokes fs path f' = Inr ms \<and> set ms = set ns \<and> distinct ms"
  using SaveSpokes_content [OF assms(1,2)] assms(2,3)
  by (auto simp: LoadSpokes_def read_some parse_render_spokes distinct_parse_spokes)

lemma LoadSpokes_total: "\<exists>s. LoadSpokes fs path f = Inr s \<and> distinct s \<and> (\<forall>n \<in> set s. spoke_name n)"
proof (cases "content f path")
  case None
  then show ?thesis by (simp add: LoadSpokes_def read_none)
next
  case (Some b)
  then show ?thesis
    using parse_spokes_names [of _ b] by (simp add: LoadSpokes_def read_some distinct_parse_spokes)
qed

lemma AddSpoke_set:
  assumes "AddSpoke fs path name f = (None, f')" "path \<noteq> []" "spoke_name (NormalizeName name)"
    "LoadSpokes fs path f = Inr s"
  shows "\<exists>s'. LoadSpokes fs path f' = Inr s' \<and> set s' = insert (NormalizeName name) (set s)"
proof (cases "NormalizeName name \<in> set s")
  case True
  then show ?thesis using assms by (auto simp: AddSpoke_def Let_def spoke_name_def insert_absorb)
next
  case False
  have names: "\<forall>n \<in> set s. spoke_name n" using LoadSpokes_total [of path f] assms(4) by auto
  have "SaveSpokes fs path (s @ [NormalizeName name]) f = (None, f')"
    using False assms by (simp add: AddSpoke_def Let_def spoke_name_def)
  from Load_after_Save [OF this assms(2)] names assms(3) show ?thesis by auto
qed

lemma RemoveSpoke_set:
  assumes "RemoveSpoke fs path name f = (None, f')" "path \<noteq> []" "LoadSpokes fs path f = Inr s"
  shows "\<exists>s'. LoadSpokes fs path f' = Inr s' \<and> set s' = set s - {NormalizeName name}"
proof (cases "NormalizeName name \<in> set s")
  case False
  then show ?thesis using assms by (auto simp: RemoveSpoke_def Let_def)
next
  case True
  have names: "\<forall>n \<in> set s. spoke_name n" using LoadSpokes_total [of path f] assms(3) by auto
  have "SaveSpokes fs path (filter (\<lambda>n. n \<noteq> NormalizeName name) s) f = (None, f')"
    using True assms by (simp add: RemoveSpoke_def Let_def)
  from Load_after_Save [OF this assms(2)] names show ?thesis by auto
qed

end

text \<open>Files in memory.\<close>

definition mem_fs :: "(string, bytes) gomap fs_ops" where
  "mem_fs =
     \<lparr>read_file = \<lambda>p f. (case map_of f p of None \<Rightarrow> Inl True | Some b \<Rightarrow> Inr b),
      mkdir_all = \<lambda>d f. (None, f),
      write_file = \<lambda>p b f. (None, AList.update p b f),
      rename_file = \<lambda>p q f. (case map_of f p of
          None \<Rightarrow> (Some (Errorf ''no such file''), f)
        | Some b \<Rightarrow> (None, AList.delete p (AList.update q b f)))\<rparr>"

interpretation memfs: spoke_files mem_fs map_of
  by unfold_locales
     (auto simp: mem_fs_def update_conv' delete_conv' split: option.splits)

section \<open>Properties\<close>

text \<open>Saving a set of spokes and loading it gives the same set: the file keeps every name
  that is normalised, not empty and has no line end, and adds none.\<close>

theorem spokes_save_load:
  assumes "SaveSpokes mem_fs path ns f = (None, f')" "path \<noteq> []" "\<forall>n \<in> set ns. spoke_name n"
  shows "\<exists>ms. LoadSpokes mem_fs path f' = Inr ms \<and> set ms = set ns \<and> distinct ms"
  using memfs.Load_after_Save [OF assms] .

lemma demo_spoke_name: "spoke_name ''phone''"
  by (simp add: spoke_name_def nl_def) code_simp

theorem spokes_save_load_witness:
  "\<exists>f' ms. SaveSpokes mem_fs ''s'' [''phone''] [] = (None, f') \<and> LoadSpokes mem_fs ''s'' f' = Inr ms \<and> set ms = {''phone''}"
proof -
  obtain f' where "SaveSpokes mem_fs ''s'' [''phone''] [] = (None, f')" by (simp add: SaveSpokes_def mem_fs_def)
  with spokes_save_load [OF this] demo_spoke_name show ?thesis by auto
qed



end
