(* ===== verification/Daemon.thy ===== *)
theory Daemon
  imports Device Spokes Router
begin

text \<open>
  The reconcile loop (\<open>internal/mesh/daemon.go\<close>): construction with its defaults, one \<open>Tick\<close>
  (publish our record, plan a peer per roster record and per spoke, apply, race endpoints,
  routes, NAT, eviction of spokes) and \<open>Run\<close>.

  The components the daemon calls work on one world \<open>'w\<close> and are gathered in \<open>env\<close>: the
  device, the store, the router, the file system, the clock, waiting, the probe packet, the
  two candidate gatherers, name resolution, the nonce source, and the order in which a range
  over a Go map visits its keys. Log lines are dropped. Time passes in the operations that
  wait; the readings of the clock between two of them agree.
\<close>

section \<open>Interfaces\<close>

text \<open>\<open>Router\<close> of \<open>router.go\<close>, the no-op router, and the Linux router with its fields as
  part of the world.\<close>

record 'w router_ops =
  rtr_Forwarding :: "'w \<Rightarrow> goerr option \<times> 'w"
  rtr_AddSource :: "ip \<Rightarrow> 'w \<Rightarrow> goerr option \<times> 'w"
  rtr_RemoveSource :: "ip \<Rightarrow> 'w \<Rightarrow> goerr option \<times> 'w"
  rtr_AnnounceNAT :: "ipnet \<Rightarrow> ipnet list \<Rightarrow> 'w \<Rightarrow> goerr option \<times> 'w"
  rtr_EnsurePort :: "'w \<Rightarrow> goerr option \<times> 'w"
  rtr_Close :: "'w \<Rightarrow> goerr option \<times> 'w"

definition noopRouter :: "'w router_ops" where
  "noopRouter = \<lparr>rtr_Forwarding = \<lambda>w. (None, w), rtr_AddSource = \<lambda>ip w. (None, w),
     rtr_RemoveSource = \<lambda>ip w. (None, w), rtr_AnnounceNAT = \<lambda>ov subs w. (None, w),
     rtr_EnsurePort = \<lambda>w. (None, w), rtr_Close = \<lambda>w. (None, w)\<rparr>"

definition linux_router :: "'w fw_ops \<Rightarrow> (linuxRouter \<times> 'w) router_ops" where
  "linux_router fw = \<lparr>rtr_Forwarding = \<lambda>(r, w). Forwarding fw r w,
     rtr_AddSource = \<lambda>ip (r, w). AddSource fw ip r w,
     rtr_RemoveSource = \<lambda>ip (r, w). RemoveSource fw ip r w,
     rtr_AnnounceNAT = \<lambda>ov subs (r, w). AnnounceNAT fw ov subs r w,
     rtr_EnsurePort = \<lambda>(r, w). (case EnsurePort fw r w of (e, w') \<Rightarrow> (e, r, w')),
     rtr_Close = \<lambda>(r, w). Close fw r w\<rparr>"

record 'w env =
  e_dev :: "'w dev_ops"
  e_store :: "'w store_ops"
  e_router :: "'w router_ops"
  e_fs :: "'w fs_ops"
  e_now :: "'w \<Rightarrow> time"
  e_sleep :: "duration \<Rightarrow> 'w \<Rightarrow> 'w"
  e_probe :: "ip \<Rightarrow> int \<Rightarrow> 'w \<Rightarrow> 'w"
  e_gatherLocal :: "int \<Rightarrow> 'w \<Rightarrow> Candidate list"
  e_gatherSRFLX :: "'w \<Rightarrow> Candidate list \<times> 'w"
  e_resolve :: "string \<Rightarrow> 'w \<Rightarrow> udpaddr option"
  e_nonce :: "'w \<Rightarrow> bytes option"
  e_range :: "string list \<Rightarrow> 'w \<Rightarrow> string list"

section \<open>State\<close>

record Config =
  cfg_Name :: string
  cfg_IFace :: string
  cfg_CIDR :: ipnet
  cfg_Port :: int
  cfg_MTU :: int
  cfg_Poll :: duration
  cfg_StaleAfter :: duration
  cfg_StunServers :: "string list"
  cfg_StunTimeout :: duration
  cfg_Announce :: "string list"
  cfg_SpokesFile :: string

record Daemon =
  dm_cfg :: Config
  dm_d :: Deriver
  dm_id :: Identity
  dm_key :: bytes
  dm_myIP :: ip
  dm_store :: ReliableStore
  spokeSrc :: "(string, ip) gomap"
  spokes :: "string list"
  fwdWarned :: bool
  dm_seq :: "64 word"
  lastGood :: "(string, Candidate) gomap"
  racePoll :: duration
  raceWait :: duration

definition with_defaults :: "Config \<Rightarrow> Config" where
  "with_defaults c = c\<lparr>
     cfg_IFace := (if cfg_IFace c = [] then ''wgmesh0'' else cfg_IFace c),
     cfg_Port := (if cfg_Port c = 0 then 51820 else cfg_Port c),
     cfg_MTU := (if cfg_MTU c = 0 then 1420 else cfg_MTU c),
     cfg_Poll := (if cfg_Poll c \<le> 0 then 15 * sec else cfg_Poll c),
     cfg_StaleAfter := (if cfg_StaleAfter c \<le> 0 then 180 * sec else cfg_StaleAfter c),
     cfg_StunTimeout := (if cfg_StunTimeout c \<le> 0 then 800 * 1000000 else cfg_StunTimeout c)\<rparr>"

definition NewDaemon :: "crypto \<Rightarrow> 'w env \<Rightarrow> Config \<Rightarrow> Deriver \<Rightarrow> ReliableStore \<Rightarrow> 'w \<Rightarrow> Daemon res" where
  "NewDaemon cr env cfg0 d store w =
     (let cfg1 = with_defaults cfg0; name = NormalizeName (cfg_Name cfg1) in
      case ValidateName name of
        Some e \<Rightarrow> Inl e
      | None \<Rightarrow>
          (let cfg = cfg1\<lparr>cfg_Name := name\<rparr> in
           case NodeWGKey cr d name of
             Inl e \<Rightarrow> Inl e
           | Inr key \<Rightarrow>
               (case NodeIdentity cr d name of
                  Inl e \<Rightarrow> Inl e
                | Inr i \<Rightarrow>
                    (case OverlayIP cr d name (cfg_CIDR cfg) of
                       Inl e \<Rightarrow> Inl e
                     | Inr ip \<Rightarrow>
                         Inr \<lparr>dm_cfg = cfg, dm_d = d, dm_id = i, dm_key = key, dm_myIP = ip, dm_store = store,
                              spokeSrc = [],
                              spokes = (case LoadSpokes (e_fs env) (cfg_SpokesFile cfg) w of Inl _ \<Rightarrow> [] | Inr s \<Rightarrow> s),
                              fwdWarned = False, dm_seq = word_of_int (e_now env w), lastGood = [],
                              racePoll = 150 * 1000000, raceWait = 2500 * 1000000\<rparr>))))"

definition OverlayAddr :: "Daemon \<Rightarrow> ipnet" where
  "OverlayAddr dm = host32 (dm_myIP dm)"

definition dm_Setup :: "'w env \<Rightarrow> Daemon \<Rightarrow> 'w \<Rightarrow> goerr option \<times> 'w" where
  "dm_Setup env dm w =
     (case dev_Setup (e_dev env) (dm_key dm) (cfg_Port (dm_cfg dm)) (cfg_MTU (dm_cfg dm))
             (OverlayAddr dm) (Some (cfg_CIDR (dm_cfg dm))) w of
        (Some e, w1) \<Rightarrow> (Some e, w1)
      | (None, w1) \<Rightarrow>
          if cfg_Announce (dm_cfg dm) \<noteq> [] then (None, snd (rtr_Forwarding (e_router env) w1))
          else (None, w1))"

definition nextSeq :: "time \<Rightarrow> Daemon \<Rightarrow> 64 word \<times> Daemon" where
  "nextSeq now dm =
     (let s0 = (if dm_seq dm = 0 then word_of_int (unix_sec now) else dm_seq dm); s1 = s0 + 1
      in (s1, dm\<lparr>dm_seq := s1\<rparr>))"

section \<open>Subnets\<close>

definition add_cidr :: "ipnet list \<times> string list \<Rightarrow> string \<Rightarrow> ipnet list \<times> string list" where
  "add_cidr st s =
     (case parse_cidr (trim_space s) of
        None \<Rightarrow> st
      | Some (_, n) \<Rightarrow> if ipnet_string n \<in> set (snd st) then st
                       else (fst st @ [n], snd st @ [ipnet_string n]))"

definition parseCIDRs :: "string list \<Rightarrow> ipnet list" where
  "parseCIDRs ss = fst (foldl add_cidr ([], []) ss)"

definition allowedIPsFor :: "Record \<Rightarrow> ipnet list" where
  "allowedIPsFor r = parseCIDRs (Adv r)"

section \<open>Plans\<close>

record peerPlan =
  pp_name :: string
  pp_rec :: Record
  pp_pub :: bytes
  pp_desire :: PeerDesire
  pp_ordered :: "Candidate list"
  pp_winner :: Candidate
  pp_haveWin :: bool
  pp_freshNow :: bool

definition no_cand :: Candidate where
  "no_cand = mk_cand [] []"

definition lookup_cand :: "(string, Candidate) gomap \<Rightarrow> string \<Rightarrow> Candidate" where
  "lookup_cand m n = (case map_of m n of None \<Rightarrow> no_cand | Some c \<Rightarrow> c)"

definition orderedFor :: "'w env \<Rightarrow> bytes \<Rightarrow> Candidate list \<Rightarrow> Record \<Rightarrow> 'w \<Rightarrow> Candidate list" where
  "orderedFor env pub mine r w =
     (let order = OrderEndpoints mine (Candidates r) in
      case dev_Endpoint (e_dev env) pub w of
        None \<Rightarrow> order
      | Some obs \<Rightarrow>
          if ua_ip obs = [] \<or> is_link_local (ua_ip obs) then order
          else
            (let obsCand = mk_cand CandPRFLX (udp_string obs) in
             if containsAddr order (Addr obsCand) then order
             else if fst (sameNAT mine (Candidates r)) = modeDifferentSites \<and> isPrivateCandidate obsCand then order
             else obsCand # order))"

definition keepalive :: duration where "keepalive = 25 * sec"

definition roster_plan :: "crypto \<Rightarrow> 'w env \<Rightarrow> Daemon \<Rightarrow> Candidate list \<Rightarrow> 'w \<Rightarrow> string \<Rightarrow> Record \<Rightarrow> peerPlan option" where
  "roster_plan cr env dm mine w name r =
     (case NodeWGPubKey cr (dm_d dm) name of
        Inl _ \<Rightarrow> None
      | Inr pubKey \<Rightarrow>
          (case OverlayIPNet cr (dm_d dm) name (cfg_CIDR (dm_cfg dm)) of
             Inl _ \<Rightarrow> None
           | Inr allowed \<Rightarrow>
               Some \<lparr>pp_name = name, pp_rec = r, pp_pub = pubKey,
                     pp_desire = \<lparr>pd_Name = name, pd_Pub = pubKey, pd_Endpoint = None,
                        pd_AllowedIPs = allowedIPsFor r @ [allowed], pd_Keepalive = keepalive\<rparr>,
                     pp_ordered = orderedFor env pubKey mine r w,
                     pp_winner = lookup_cand (lastGood dm) name,
                     pp_haveWin = (Addr (lookup_cand (lastGood dm) name) \<noteq> []),
                     pp_freshNow = False\<rparr>))"

definition spoke_plan :: "crypto \<Rightarrow> Daemon \<Rightarrow> string \<Rightarrow> peerPlan option" where
  "spoke_plan cr dm name =
     (case NodeWGPubKey cr (dm_d dm) name of
        Inl _ \<Rightarrow> None
      | Inr pubKey \<Rightarrow>
          (case OverlayIPNet cr (dm_d dm) name (cfg_CIDR (dm_cfg dm)) of
             Inl _ \<Rightarrow> None
           | Inr allowed \<Rightarrow>
               Some \<lparr>pp_name = name,
                     pp_rec = \<lparr>Name = name, IP = ip_string (net_ip allowed), Port = 0, Candidates = [],
                               Adv = [], TS = 0, Seq = 0, PK = [], Sig = []\<rparr>,
                     pp_pub = pubKey,
                     pp_desire = \<lparr>pd_Name = name, pd_Pub = pubKey, pd_Endpoint = None,
                        pd_AllowedIPs = [allowed], pd_Keepalive = keepalive\<rparr>,
                     pp_ordered = [], pp_winner = no_cand, pp_haveWin = False, pp_freshNow = False\<rparr>))"

definition plans_of ::
  "crypto \<Rightarrow> 'w env \<Rightarrow> Daemon \<Rightarrow> Candidate list \<Rightarrow> (string, Record) gomap \<Rightarrow> 'w \<Rightarrow> peerPlan list" where
  "plans_of cr env dm mine peers w =
     List.map_filter (\<lambda>name. case map_of peers name of None \<Rightarrow> None
        | Some r \<Rightarrow> roster_plan cr env dm mine w name r) (Names peers) @
     List.map_filter (spoke_plan cr dm)
       (filter (\<lambda>n. map_of peers n = None) (e_range env (spokes dm) w))"

definition buildPlans ::
  "crypto \<Rightarrow> 'w env \<Rightarrow> Daemon \<Rightarrow> Candidate list \<Rightarrow> 'w \<Rightarrow> peerPlan list res \<times> 'w" where
  "buildPlans cr env dm mine w =
     (case NewRoster (dm_d dm) (cfg_Name (dm_cfg dm)) (Some (cfg_CIDR (dm_cfg dm))) of
        Inl e \<Rightarrow> (Inl e, w)
      | Inr ro \<Rightarrow>
          (case FetchStable cr (e_store env) (e_now env) ro 3 (400 * 1000000) w of
             (Inl e, w1) \<Rightarrow> (Inl (Wrap ''fetch roster'' e), w1)
           | (Inr peers, w1) \<Rightarrow> (Inr (plans_of cr env dm mine peers w1), w1)))"

definition udpAddrOf :: "'w env \<Rightarrow> 'w \<Rightarrow> Candidate \<Rightarrow> udpaddr option" where
  "udpAddrOf env w c = e_resolve env (Addr c) w"

definition pickInitial :: "'w env \<Rightarrow> 'w \<Rightarrow> peerPlan \<Rightarrow> peerPlan" where
  "pickInitial env w p =
     (if pp_haveWin p then p\<lparr>pp_desire := (pp_desire p)\<lparr>pd_Endpoint := udpAddrOf env w (pp_winner p)\<rparr>\<rparr>
      else case pp_ordered p of
        [] \<Rightarrow> p
      | c # _ \<Rightarrow> p\<lparr>pp_desire := (pp_desire p)\<lparr>pd_Endpoint := udpAddrOf env w c\<rparr>\<rparr>)"

text \<open>The two loops of \<open>Tick\<close> before the first \<open>Apply\<close>.\<close>

definition mark_fresh :: "'w env \<Rightarrow> Daemon \<Rightarrow> 'w \<Rightarrow> peerPlan \<Rightarrow> peerPlan" where
  "mark_fresh env dm w p =
     p\<lparr>pp_freshNow := since (e_now env w) (dev_Handshake (e_dev env) (pp_pub p) w) < cfg_StaleAfter (dm_cfg dm)\<rparr>"

definition initial_plan :: "'w env \<Rightarrow> 'w \<Rightarrow> peerPlan \<Rightarrow> peerPlan" where
  "initial_plan env w p =
     (let p1 = pickInitial env w p in
      if pp_freshNow p1 then p1\<lparr>pp_desire := (pp_desire p1)\<lparr>pd_Endpoint := None\<rparr>\<rparr> else p1)"

section \<open>Racing endpoints\<close>

text \<open>
  The wait of \<open>tryConnect\<close>. Every round sleeps \<open>racePoll\<close>, so with a clock that moves by at
  least the time slept the rounds allowed by \<open>try_rounds\<close> are enough (\<open>try_loop_enough\<close>).
\<close>

fun try_loop :: "'w env \<Rightarrow> duration \<Rightarrow> bytes \<Rightarrow> time \<Rightarrow> time \<Rightarrow> nat \<Rightarrow> 'w \<Rightarrow> bool \<times> 'w" where
  "try_loop env poll pub start dl 0 w = (False, w)"
| "try_loop env poll pub start dl (Suc k) w =
     (if e_now env w < dl
      then (let w1 = e_sleep env poll w in
            if dev_Handshake (e_dev env) pub w1 > start then (True, w1)
            else try_loop env poll pub start dl k w1)
      else (False, w))"

definition try_rounds :: "Daemon \<Rightarrow> nat" where
  "try_rounds dm = nat (raceWait dm div racePoll dm) + 2"

definition tryConnect :: "'w env \<Rightarrow> Daemon \<Rightarrow> bytes \<Rightarrow> ip \<Rightarrow> int \<Rightarrow> 'w \<Rightarrow> bool \<times> 'w" where
  "tryConnect env dm pub peerIP port w =
     (let start = e_now env w; w1 = e_probe env peerIP port w in
      try_loop env (racePoll dm) pub start (start + raceWait dm) (try_rounds dm) w1)"

definition overlayIPFor :: "crypto \<Rightarrow> Daemon \<Rightarrow> string \<Rightarrow> ip" where
  "overlayIPFor cr dm name =
     (case OverlayIP cr (dm_d dm) name (cfg_CIDR (dm_cfg dm)) of Inl _ \<Rightarrow> [] | Inr ip \<Rightarrow> ip)"

definition stateWith :: "peerPlan list \<Rightarrow> nat \<Rightarrow> PeerDesire \<Rightarrow> PeerDesire list" where
  "stateWith plans i d = (map pp_desire plans)[i := d]"

definition set_endpoint :: "udpaddr option \<Rightarrow> peerPlan \<Rightarrow> peerPlan" where
  "set_endpoint ep p = p\<lparr>pp_desire := (pp_desire p)\<lparr>pd_Endpoint := ep\<rparr>\<rparr>"

definition set_winner :: "Candidate \<Rightarrow> peerPlan \<Rightarrow> peerPlan" where
  "set_winner win p = p\<lparr>pp_winner := win, pp_haveWin := True\<rparr>"

text \<open>What a won race credits: the dialed candidate, or the endpoint the device reports.\<close>

definition credit :: "'w env \<Rightarrow> bytes \<Rightarrow> Candidate \<Rightarrow> peerPlan \<Rightarrow> 'w \<Rightarrow> Candidate \<times> peerPlan" where
  "credit env pub cand p w =
     (case dev_Endpoint (e_dev env) pub w of
        None \<Rightarrow> (cand, p)
      | Some ep \<Rightarrow>
          if ua_ip ep \<noteq> [] \<and> udp_string ep \<noteq> Addr cand
          then (mk_cand CandPRFLX (udp_string ep), set_endpoint (Some ep) p)
          else (cand, p))"

text \<open>The plans are an array whose element \<open>i\<close> is updated in place; what earlier peers of the
  loop dialed stays in the states applied for later ones.\<close>

fun race_cands ::
  "crypto \<Rightarrow> 'w env \<Rightarrow> Daemon \<Rightarrow> nat \<Rightarrow> Candidate list \<Rightarrow> peerPlan list \<Rightarrow> (string, Candidate) gomap \<Rightarrow> 'w
     \<Rightarrow> bool \<times> peerPlan list \<times> (string, Candidate) gomap \<times> 'w" where
  "race_cands cr env dm i [] plans lg w = (False, plans, lg, w)"
| "race_cands cr env dm i (cand # cs) plans lg w =
     (case e_resolve env (Addr cand) w of
        None \<Rightarrow> race_cands cr env dm i cs plans lg w
      | Some ep \<Rightarrow>
          (let p = set_endpoint (Some ep) (plans ! i); plans1 = plans[i := p] in
           case dev_Apply (e_dev env) (stateWith plans1 i (pp_desire p)) w of
             (Some _, w1) \<Rightarrow> (False, plans1, lg, w1)
           | (None, w1) \<Rightarrow>
               (case tryConnect env dm (pp_pub p) (overlayIPFor cr dm (pp_name p)) (Port (pp_rec p)) w1 of
                  (True, w2) \<Rightarrow>
                    (case credit env (pp_pub p) cand p w2 of
                       (win, p') \<Rightarrow> (True, plans1[i := set_winner win p'],
                                      AList.update (pp_name p) win lg, w2))
                | (False, w2) \<Rightarrow> race_cands cr env dm i cs plans1 lg w2)))"

definition adopt :: "'w env \<Rightarrow> peerPlan \<Rightarrow> (string, Candidate) gomap \<Rightarrow> 'w \<Rightarrow> peerPlan \<times> (string, Candidate) gomap" where
  "adopt env p lg w =
     (if pp_haveWin p then (p, lg)
      else case dev_Endpoint (e_dev env) (pp_pub p) w of
        None \<Rightarrow> (p, lg)
      | Some ep \<Rightarrow>
          if ua_ip ep = [] then (p, lg)
          else (let win = mk_cand CandPRFLX (udp_string ep) in
                (set_winner win p, AList.update (pp_name p) win lg)))"

definition race_peer ::
  "crypto \<Rightarrow> 'w env \<Rightarrow> Daemon \<Rightarrow> nat \<Rightarrow> peerPlan list \<times> (string, Candidate) gomap \<times> 'w
     \<Rightarrow> peerPlan list \<times> (string, Candidate) gomap \<times> 'w" where
  "race_peer cr env dm i st =
     (case st of (plans, lg, w) \<Rightarrow>
        (let p = plans ! i in
         if pp_freshNow p
         then (case adopt env p lg w of (p', lg') \<Rightarrow> (plans[i := p'], lg', w))
         else (case race_cands cr env dm i (pp_ordered p) plans lg w of
             (won, plans', lg', w') \<Rightarrow>
               (plans',
                if \<not> won \<and> pp_ordered p \<noteq> [] then AList.update (pp_name p) no_cand lg' else lg',
                w'))))"

definition race_all ::
  "crypto \<Rightarrow> 'w env \<Rightarrow> Daemon \<Rightarrow> peerPlan list \<Rightarrow> (string, Candidate) gomap \<Rightarrow> 'w
     \<Rightarrow> peerPlan list \<times> (string, Candidate) gomap \<times> 'w" where
  "race_all cr env dm plans lg w = fold (race_peer cr env dm) [0..<length plans] (plans, lg, w)"

section \<open>Spokes and NAT\<close>

definition reloadSpokes :: "'w env \<Rightarrow> Daemon \<Rightarrow> 'w \<Rightarrow> Daemon" where
  "reloadSpokes env dm w =
     (if cfg_SpokesFile (dm_cfg dm) = [] then dm
      else case LoadSpokes (e_fs env) (cfg_SpokesFile (dm_cfg dm)) w of
        Inl _ \<Rightarrow> dm
      | Inr s \<Rightarrow> dm\<lparr>spokes := s\<rparr>)"

definition spokeEvictAfter :: "Daemon \<Rightarrow> duration" where
  "spokeEvictAfter dm =
     (if cfg_StaleAfter (dm_cfg dm) > 0 then i64 (3 * cfg_StaleAfter (dm_cfg dm)) else 9 * 60 * sec)"

definition stale_spoke :: "crypto \<Rightarrow> 'w env \<Rightarrow> Daemon \<Rightarrow> 'w \<Rightarrow> string \<Rightarrow> bool" where
  "stale_spoke cr env dm w name =
     (case NodeWGPubKey cr (dm_d dm) name of
        Inl _ \<Rightarrow> False
      | Inr pub \<Rightarrow>
          (let t = dev_Handshake (e_dev env) pub w in
           \<not> (t = zero_time \<or> since (e_now env w) t < spokeEvictAfter dm)))"

definition evictStaleSpokes :: "crypto \<Rightarrow> 'w env \<Rightarrow> Daemon \<Rightarrow> 'w \<Rightarrow> Daemon \<times> 'w" where
  "evictStaleSpokes cr env dm w =
     (let gone = filter (stale_spoke cr env dm w) (e_range env (spokes dm) w);
          left = filter (\<lambda>n. n \<notin> set gone) (spokes dm);
          dm' = dm\<lparr>spokes := left\<rparr> in
      if gone \<noteq> [] \<and> cfg_SpokesFile (dm_cfg dm) \<noteq> []
      then (dm', snd (SaveSpokes (e_fs env) (cfg_SpokesFile (dm_cfg dm)) left w))
      else (dm', w))"

definition wanted_sources :: "crypto \<Rightarrow> Daemon \<Rightarrow> string list \<Rightarrow> (string, ip) gomap" where
  "wanted_sources cr dm names =
     List.map_filter (\<lambda>n. case OverlayIP cr (dm_d dm) n (cfg_CIDR (dm_cfg dm)) of
        Inl _ \<Rightarrow> None | Inr ip \<Rightarrow> Some (n, ip)) names"

fun drop_sources :: "'w router_ops \<Rightarrow> (string, ip) gomap \<Rightarrow> string list \<Rightarrow> (string, ip) gomap \<Rightarrow> 'w \<Rightarrow> (string, ip) gomap \<times> 'w" where
  "drop_sources rt want [] src w = (src, w)"
| "drop_sources rt want (n # ns) src w =
     (if map_of want n \<noteq> None then drop_sources rt want ns src w
      else drop_sources rt want ns (AList.delete n src)
             (snd (rtr_RemoveSource rt (case map_of src n of None \<Rightarrow> [] | Some ip \<Rightarrow> ip) w)))"

fun add_sources :: "'w router_ops \<Rightarrow> (string, ip) gomap \<Rightarrow> string list \<Rightarrow> (string, ip) gomap \<Rightarrow> 'w \<Rightarrow> (string, ip) gomap \<times> 'w" where
  "add_sources rt want [] src w = (src, w)"
| "add_sources rt want (n # ns) src w =
     (case map_of want n of
        None \<Rightarrow> add_sources rt want ns src w
      | Some ip \<Rightarrow>
          if map_of src n \<noteq> None then add_sources rt want ns src w
          else (case rtr_AddSource rt ip w of
              (Some _, w1) \<Rightarrow> add_sources rt want ns src w1
            | (None, w1) \<Rightarrow> add_sources rt want ns (AList.update n ip src) w1))"

definition syncNat :: "crypto \<Rightarrow> 'w env \<Rightarrow> Daemon \<Rightarrow> 'w \<Rightarrow> Daemon \<times> 'w" where
  "syncNat cr env dm w =
     (let rt = e_router env;
          w1 = (if fwdWarned dm then w else snd (rtr_Forwarding rt w));
          w2 = snd (rtr_AnnounceNAT rt (cfg_CIDR (dm_cfg dm)) (parseCIDRs (cfg_Announce (dm_cfg dm))) w1);
          w3 = snd (rtr_EnsurePort rt w2);
          want = wanted_sources cr dm (e_range env (spokes dm) w3);
          (src1, w4) = drop_sources rt want (e_range env (map fst (spokeSrc dm)) w3) (spokeSrc dm) w3;
          (src2, w5) = add_sources rt want (e_range env (map fst want) w4) src1 w4
      in (dm\<lparr>fwdWarned := True, spokeSrc := src2\<rparr>, w5))"

section \<open>Tick and Run\<close>

definition own_record :: "'w env \<Rightarrow> Daemon \<Rightarrow> Candidate list \<Rightarrow> 64 word \<Rightarrow> 'w \<Rightarrow> Record" where
  "own_record env dm mine sq w =
     \<lparr>Name = cfg_Name (dm_cfg dm), IP = ip_string (dm_myIP dm), Port = cfg_Port (dm_cfg dm),
      Candidates = mine, Adv = cfg_Announce (dm_cfg dm), TS = unix_sec (e_now env w), Seq = sq,
      PK = [], Sig = []\<rparr>"

text \<open>The announcing half: reload the spokes, gather, sign, seal and publish. A failed
  publication is logged only.\<close>

definition tick_publish ::
  "crypto \<Rightarrow> 'w env \<Rightarrow> Daemon \<Rightarrow> 'w \<Rightarrow> Candidate list res \<times> Daemon \<times> 'w" where
  "tick_publish cr env dm0 w0 =
     (let dm = reloadSpokes env dm0 w0;
          (refl, w1) = e_gatherSRFLX env w0;
          mine = e_gatherLocal env (cfg_Port (dm_cfg dm)) w0 @ refl;
          (sq, dm1) = nextSeq (e_now env w1) dm;
          r = Record_Sign cr (dm_id dm1) (own_record env dm1 mine sq w1)
      in case sealRecord cr (e_nonce env w1) (dm_d dm1) r of
           Inl e \<Rightarrow> (Inl e, dm1, w1)
         | Inr sealed \<Rightarrow>
             (Inr mine, dm1, snd (Publish (e_store env) (dm_store dm1) (RosterKey cr (dm_d dm1)) sealed w1)))"

text \<open>The converging half, from the plans on.\<close>

definition tick_apply :: "crypto \<Rightarrow> 'w env \<Rightarrow> Daemon \<Rightarrow> peerPlan list \<Rightarrow> 'w \<Rightarrow> goerr option \<times> Daemon \<times> 'w" where
  "tick_apply cr env dm plans0 w =
     (let plans = map (initial_plan env w) (map (mark_fresh env dm w) plans0) in
      case dev_Apply (e_dev env) (map pp_desire plans) w of
        (Some e, w1) \<Rightarrow> (Some (Wrap ''apply'' e), dm, w1)
      | (None, w1) \<Rightarrow>
          (let (plans', lg, w2) = race_all cr env dm plans (lastGood dm) w1;
               announced = concat (map (\<lambda>p. Adv (pp_rec p)) plans');
               w3 = (if announced \<noteq> [] then snd (dev_ApplyRoutes (e_dev env) (parseCIDRs announced) w2) else w2);
               (dm1, w4) = syncNat cr env (dm\<lparr>lastGood := lg\<rparr>) w3;
               (dm2, w5) = evictStaleSpokes cr env dm1 w4
           in (None, dm2, w5)))"

definition Tick :: "crypto \<Rightarrow> 'w env \<Rightarrow> Daemon \<Rightarrow> 'w \<Rightarrow> goerr option \<times> Daemon \<times> 'w" where
  "Tick cr env dm w =
     (case tick_publish cr env dm w of
        (Inl e, dm1, w1) \<Rightarrow> (Some e, dm1, w1)
      | (Inr mine, dm1, w1) \<Rightarrow>
          (case buildPlans cr env dm1 mine w1 of
             (Inl e, w2) \<Rightarrow> (Some e, dm1, w2)
           | (Inr plans, w2) \<Rightarrow> tick_apply cr env dm1 plans w2))"

text \<open>\<open>Run\<close> over the events its select receives: the end of the context or a tick of the
  poll timer. Without further events it is still waiting.\<close>

datatype run_event = CtxDone | TickerC

datatype run_result = Running | StoppedCtx | StoppedGone

fun Run ::
  "crypto \<Rightarrow> 'w env \<Rightarrow> run_event list \<Rightarrow> Daemon \<Rightarrow> 'w \<Rightarrow> run_result \<times> Daemon \<times> 'w" where
  "Run cr env [] dm w = (Running, dm, w)"
| "Run cr env (CtxDone # evs) dm w = (StoppedCtx, dm, w)"
| "Run cr env (TickerC # evs) dm w =
     (case Tick cr env dm w of
        (Some e, dm1, w1) \<Rightarrow>
          if err_is e ErrDeviceGone then (StoppedGone, dm1, w1) else Run cr env evs dm1 w1
      | (None, dm1, w1) \<Rightarrow> Run cr env evs dm1 w1)"

end
