(* ===== verification/Reconcile.thy ===== *)
theory Reconcile
  imports Daemon
begin

text \<open>
  Laws of the reconcile loop: subnets, the sequence number, the race and its bound, the
  plans, what a tick may do to the endpoint of a live session, and eviction. The locale
  \<open>reconciler\<close> carries an invariant of the world through the converging half of a tick.
\<close>

section \<open>Subnets\<close>

definition cidr_of :: "string \<Rightarrow> ipnet option" where
  "cidr_of s = map_option snd (parse_cidr (trim_space s))"

lemma foldl_add_cidr:
  assumes "snd st = map ipnet_string (fst st)" "distinct (map ipnet_string (fst st))"
  shows "snd (foldl add_cidr st ss) = map ipnet_string (fst (foldl add_cidr st ss)) \<and>
     distinct (map ipnet_string (fst (foldl add_cidr st ss))) \<and>
     ipnet_string ` set (fst (foldl add_cidr st ss)) =
       ipnet_string ` set (fst st) \<union> ipnet_string ` {n. \<exists>s \<in> set ss. cidr_of s = Some n} \<and>
     set (fst (foldl add_cidr st ss)) \<subseteq> set (fst st) \<union> {n. \<exists>s \<in> set ss. cidr_of s = Some n}"
  using assms
proof (induction ss arbitrary: st)
  case (Cons s ss)
  show ?case
  proof (cases "parse_cidr (trim_space s)")
    case None
    with Cons.IH [OF Cons.prems] show ?thesis by (auto simp: add_cidr_def cidr_of_def)
  next
    case (Some q)
    obtain i n where q: "q = (i, n)" by (cases q)
    with Some have c: "cidr_of s = Some n" by (simp add: cidr_of_def)
    show ?thesis
    proof (cases "ipnet_string n \<in> ipnet_string ` set (fst st)")
      case True
      then have "add_cidr st s = st" using Some q Cons.prems by (simp add: add_cidr_def)
      with Cons.IH [OF Cons.prems] True c show ?thesis by auto
    next
      case False
      let ?st = "(fst st @ [n], snd st @ [ipnet_string n])"
      have "add_cidr st s = ?st" using Some q False Cons.prems by (simp add: add_cidr_def)
      moreover have "snd ?st = map ipnet_string (fst ?st)" "distinct (map ipnet_string (fst ?st))"
        using Cons.prems False by auto
      note Cons.IH [OF this]
      ultimately show ?thesis using c by (auto simp: image_iff)
    qed
  qed
qed simp

lemmas parseCIDRs_fold = foldl_add_cidr [of "([], [])", simplified, folded parseCIDRs_def]

lemma ipnet_string_no_space: "canon4 n \<Longrightarrow> c \<in> set (ipnet_string n) \<Longrightarrow> \<not> is_space c"
proof -
  assume n: "canon4 n" and c: "c \<in> set (ipnet_string n)"
  have d: "is_digit c \<Longrightarrow> \<not> is_space c" for c by (auto simp: is_digit_def is_space_def)
  have l: "length (net_ip n) = 4" using n by (simp add: canon4_def)
  then obtain p q r s where p: "net_ip n = [p, q, r, s]" by (rule length4E)
  show ?thesis
    using c nat_str_digits d
    by (auto simp: ipnet_string_canon4 [OF n] dotted_def p is_space_def)
qed

text \<open>Announcing the parsed subnets in print gives the same subnets.\<close>

lemma parseCIDRs_print:
  assumes "\<forall>n \<in> set ns. canon4 n" "distinct ns"
  shows "parseCIDRs (map ipnet_string ns) = ns"
proof -
  have "foldl add_cidr (ms, map ipnet_string ms) (map ipnet_string ns) = (ms @ ns, map ipnet_string (ms @ ns))"
    if "\<forall>n \<in> set (ms @ ns). canon4 n" "distinct (ms @ ns)" for ms ns
    using that
  proof (induction ns arbitrary: ms)
    case (Cons n ns)
    have c: "canon4 n" using Cons.prems by simp
    have "trim_space (ipnet_string n) = ipnet_string n"
      using ipnet_string_no_space [OF c] by (blast intro: trim_space_no_space)
    moreover have "ipnet_string n \<notin> set (map ipnet_string ms)"
    proof
      assume "ipnet_string n \<in> set (map ipnet_string ms)"
      then obtain m where m: "m \<in> set ms" "ipnet_string n = ipnet_string m" by auto
      with ipnet_string_inj [OF c] Cons.prems(1) have "n = m" by auto
      with m Cons.prems(2) show False by auto
    qed
    ultimately have "add_cidr (ms, map ipnet_string ms) (ipnet_string n) = (ms @ [n], map ipnet_string (ms @ [n]))"
      by (simp add: add_cidr_def parse_cidr_ipnet_string [OF c])
    with Cons.IH [of "ms @ [n]"] Cons.prems show ?case by simp
  qed simp
  from this [of "[]" ns] assms show ?thesis by (simp add: parseCIDRs_def)
qed

section \<open>Sequence numbers\<close>

lemma nextSeq_step:
  assumes "nextSeq now dm = (s, dm')" "dm_seq dm \<noteq> 0" "dm_seq dm \<noteq> - 1"
  shows "dm_seq dm < s \<and> dm_seq dm' = s \<and> s \<noteq> 0"
proof -
  have s: "s = dm_seq dm + 1" "dm' = dm\<lparr>dm_seq := s\<rparr>" using assms(1,2) by (auto simp: nextSeq_def Let_def)
  have "dm_seq dm + 1 \<noteq> 0" using assms(3) by (auto simp: add_eq_0_iff2)
  with word_less_plus_one [OF assms(3)] show ?thesis by (auto simp: s)
qed

section \<open>The race\<close>

text \<open>With a clock that moves by at least the time slept, the rounds allowed are never used
  up: any larger number gives the same result.\<close>

definition waits :: "'w env \<Rightarrow> bool" where
  "waits env \<longleftrightarrow> (\<forall>d w. e_now env (e_sleep env d w) \<ge> e_now env w + d)"

lemma try_loop_enough:
  assumes "waits env" "0 < poll" "dl \<le> e_now env w + int k * poll" "k \<le> m"
  shows "try_loop env poll pub start dl m w = try_loop env poll pub start dl k w"
  using assms(3,4)
proof (induction k arbitrary: m w)
  case 0
  then show ?case by (cases m) auto
next
  case (Suc k)
  then obtain n where m: "m = Suc n" "k \<le> n" by (cases m) auto
  have "dl \<le> e_now env (e_sleep env poll w) + int k * poll"
    using Suc.prems(1) assms(1) [unfolded waits_def, rule_format, where d = poll and w = w]
    by (simp add: algebra_simps)
  from Suc.IH [OF this m(2)] show ?case by (simp add: m(1) Let_def)
qed

lemma try_rounds_enough:
  assumes "0 < racePoll dm" "0 \<le> raceWait dm"
  shows "raceWait dm \<le> int (try_rounds dm) * racePoll dm"
proof -
  have q: "0 \<le> raceWait dm div racePoll dm" using assms by (simp add: pos_imp_zdiv_nonneg_iff)
  have "raceWait dm = raceWait dm div racePoll dm * racePoll dm + raceWait dm mod racePoll dm"
    by (simp only: div_mult_mod_eq)
  moreover have "raceWait dm mod racePoll dm < racePoll dm" using assms(1) by simp
  moreover have "(raceWait dm div racePoll dm + 2) * racePoll dm =
      raceWait dm div racePoll dm * racePoll dm + 2 * racePoll dm" by (simp only: distrib_right)
  ultimately have "raceWait dm \<le> (raceWait dm div racePoll dm + 2) * racePoll dm"
    using assms(1) by linarith
  then show ?thesis using q by (simp add: try_rounds_def add.commute)
qed

lemma try_loop_True:
  "try_loop env poll pub start dl k w = (True, w') \<Longrightarrow> dev_Handshake (e_dev env) pub w' > start"
  by (induction env poll pub start dl k w rule: try_loop.induct) (auto simp: Let_def split: if_splits)

lemma tryConnect_True:
  "tryConnect env dm pub ip port w = (True, w') \<Longrightarrow> dev_Handshake (e_dev env) pub w' > e_now env w"
  by (auto simp: tryConnect_def Let_def dest: try_loop_True)

section \<open>Endpoints of live sessions\<close>

definition plans_ok :: "bytes set \<Rightarrow> peerPlan list \<Rightarrow> bool" where
  "plans_ok fresh plans \<longleftrightarrow>
     (\<forall>p \<in> set plans. pd_Pub (pp_desire p) = pp_pub p \<and>
        (pp_pub p \<in> fresh \<longrightarrow> pp_freshNow p \<and> pd_Endpoint (pp_desire p) = None))"

definition spares :: "bytes set \<Rightarrow> PeerDesire list \<Rightarrow> bool" where
  "spares fresh ps \<longleftrightarrow> (\<forall>d \<in> set ps. pd_Pub d \<in> fresh \<longrightarrow> pd_Endpoint d = None)"

lemma plans_ok_spares: "plans_ok fresh plans \<Longrightarrow> spares fresh (map pp_desire plans)"
  by (auto simp: plans_ok_def spares_def)

text \<open>What identifies a peer in a desired state: everything but the endpoint. Racing moves
  endpoints only.\<close>

definition pd_ident :: "PeerDesire \<Rightarrow> string \<times> bytes \<times> ipnet list \<times> duration" where
  "pd_ident d = (pd_Name d, pd_Pub d, pd_AllowedIPs d, pd_Keepalive d)"

definition plan_ids :: "peerPlan list \<Rightarrow> (string \<times> bytes \<times> ipnet list \<times> duration) list" where
  "plan_ids plans = map pd_ident (map pp_desire plans)"

lemma plan_ids_length: "plan_ids a = plan_ids b \<Longrightarrow> length a = length b"
  unfolding plan_ids_def by (metis length_map)

lemma plan_ids_update [simp]:
  assumes "pd_ident (pp_desire p) = pd_ident (pp_desire (plans ! i))"
  shows "plan_ids (plans[i := p]) = plan_ids plans"
proof (cases "i < length plans")
  case True
  then show ?thesis using assms by (simp add: plan_ids_def map_update list_update_same_conv)
qed (simp add: list_update_beyond)

lemma plans_ok_update:
  "plans_ok fresh plans \<Longrightarrow> plans_ok fresh [p] \<Longrightarrow> plans_ok fresh (plans[i := p])"
  by (auto simp: plans_ok_def dest!: set_update_subset_insert [THEN subsetD])

lemma set_endpoint_simps [simp]:
  "pp_pub (set_endpoint ep p) = pp_pub p" "pp_name (set_endpoint ep p) = pp_name p"
  "pp_rec (set_endpoint ep p) = pp_rec p" "pp_freshNow (set_endpoint ep p) = pp_freshNow p"
  "pp_ordered (set_endpoint ep p) = pp_ordered p"
  "pd_Pub (pp_desire (set_endpoint ep p)) = pd_Pub (pp_desire p)"
  "pd_ident (pp_desire (set_endpoint ep p)) = pd_ident (pp_desire p)"
  "pp_pub (set_winner win p) = pp_pub p" "pp_name (set_winner win p) = pp_name p"
  "pp_rec (set_winner win p) = pp_rec p" "pp_freshNow (set_winner win p) = pp_freshNow p"
  "pp_ordered (set_winner win p) = pp_ordered p" "pp_desire (set_winner win p) = pp_desire p"
  by (simp_all add: set_endpoint_def set_winner_def pd_ident_def)

lemma pickInitial_simps [simp]:
  "pp_pub (pickInitial env w p) = pp_pub p" "pp_freshNow (pickInitial env w p) = pp_freshNow p"
  "pp_name (pickInitial env w p) = pp_name p" "pp_rec (pickInitial env w p) = pp_rec p"
  "pd_Pub (pp_desire (pickInitial env w p)) = pd_Pub (pp_desire p)"
  "pd_ident (pp_desire (pickInitial env w p)) = pd_ident (pp_desire p)"
  by (auto simp: pickInitial_def pd_ident_def split: list.split)

lemma initial_plan_simps [simp]:
  "pp_pub (initial_plan env w p) = pp_pub p" "pp_freshNow (initial_plan env w p) = pp_freshNow p"
  "pp_name (initial_plan env w p) = pp_name p" "pp_rec (initial_plan env w p) = pp_rec p"
  "pd_Pub (pp_desire (initial_plan env w p)) = pd_Pub (pp_desire p)"
  "pd_ident (pp_desire (initial_plan env w p)) = pd_ident (pp_desire p)"
proof -
  show "pd_ident (pp_desire (initial_plan env w p)) = pd_ident (pp_desire p)"
    using pickInitial_simps(6) [of env w p] by (auto simp: initial_plan_def Let_def pd_ident_def)
qed (auto simp: initial_plan_def Let_def)

lemma initial_plan_endpoint: "pp_freshNow p \<Longrightarrow> pd_Endpoint (pp_desire (initial_plan env w p)) = None"
  by (simp add: initial_plan_def Let_def)

lemma mark_fresh_simps [simp]:
  "pp_pub (mark_fresh env dm w p) = pp_pub p" "pp_name (mark_fresh env dm w p) = pp_name p"
  "pp_rec (mark_fresh env dm w p) = pp_rec p" "pp_desire (mark_fresh env dm w p) = pp_desire p"
  "pp_freshNow (mark_fresh env dm w p) \<longleftrightarrow>
     since (e_now env w) (dev_Handshake (e_dev env) (pp_pub p) w) < cfg_StaleAfter (dm_cfg dm)"
  by (simp_all add: mark_fresh_def)

locale reconciler =
  fixes env :: "'w env"
    and Inv :: "'w \<Rightarrow> bool"
    and fresh :: "bytes set"
    and ids :: "(string \<times> bytes \<times> ipnet list \<times> duration) list"
  assumes apply_inv: "Inv w \<Longrightarrow> spares fresh ps \<Longrightarrow> map pd_ident ps = ids \<Longrightarrow> dev_Apply (e_dev env) ps w = (e, w') \<Longrightarrow> Inv w'"
    and sleep_inv: "Inv w \<Longrightarrow> Inv (e_sleep env d w)"
    and probe_inv: "Inv w \<Longrightarrow> Inv (e_probe env ip port w)"
    and routes_inv: "Inv w \<Longrightarrow> dev_ApplyRoutes (e_dev env) rs w = (e, w') \<Longrightarrow> Inv w'"
    and forwarding_inv: "Inv w \<Longrightarrow> rtr_Forwarding (e_router env) w = (e, w') \<Longrightarrow> Inv w'"
    and add_inv: "Inv w \<Longrightarrow> rtr_AddSource (e_router env) ip w = (e, w') \<Longrightarrow> Inv w'"
    and remove_inv: "Inv w \<Longrightarrow> rtr_RemoveSource (e_router env) ip w = (e, w') \<Longrightarrow> Inv w'"
    and announce_inv: "Inv w \<Longrightarrow> rtr_AnnounceNAT (e_router env) ov subs w = (e, w') \<Longrightarrow> Inv w'"
    and port_inv: "Inv w \<Longrightarrow> rtr_EnsurePort (e_router env) w = (e, w') \<Longrightarrow> Inv w'"
    and files_inv: "Inv w \<Longrightarrow> SaveSpokes (e_fs env) path ns w = (e, w') \<Longrightarrow> Inv w'"
begin

lemma try_loop_inv: "try_loop env poll pub start dl k w = (b, w') \<Longrightarrow> Inv w \<Longrightarrow> Inv w'"
  by (induction k arbitrary: w) (auto simp: Let_def sleep_inv split: if_splits)

lemma tryConnect_inv: "tryConnect env dm pub ip port w = (b, w') \<Longrightarrow> Inv w \<Longrightarrow> Inv w'"
  by (auto simp: tryConnect_def Let_def probe_inv elim: try_loop_inv)

lemma race_cands_inv:
  assumes "race_cands cr env dm i cs plans lg w = (won, plans', lg', w')"
    "plans_ok fresh plans" "i < length plans" "pp_pub (plans ! i) \<notin> fresh" "plan_ids plans = ids" "Inv w"
  shows "Inv w' \<and> plans_ok fresh plans' \<and> plan_ids plans' = ids"
  using assms
proof (induction cs arbitrary: plans w)
  case (Cons c cs)
  show ?case
  proof (cases "e_resolve env (Addr c) w")
    case None
    with Cons show ?thesis by simp
  next
    case (Some ep)
    define p where "p = set_endpoint (Some ep) (plans ! i)"
    define plans1 where "plans1 = plans[i := p]"
    have pub: "pd_Pub (pp_desire (plans ! i)) = pp_pub (plans ! i)"
      using Cons.prems(2,3) by (simp add: plans_ok_def)
    have ok1: "plans_ok fresh plans1"
      using Cons.prems(2,4) pub unfolding plans1_def
      by (intro plans_ok_update) (auto simp: plans_ok_def p_def)
    have st: "stateWith plans1 i (pp_desire p) = map pp_desire plans1"
      by (simp add: stateWith_def plans1_def map_update)
    obtain e w1 where a: "dev_Apply (e_dev env) (map pp_desire plans1) w = (e, w1)" by fastforce
    have id1: "plan_ids plans1 = ids" using Cons.prems(5) by (simp add: plans1_def p_def)
    have i1: "Inv w1"
      by (rule apply_inv [OF Cons.prems(6) plans_ok_spares [OF ok1] id1 [unfolded plan_ids_def] a])
    obtain b w2 where t: "tryConnect env dm (pp_pub p) (overlayIPFor cr dm (pp_name p)) (Port (pp_rec p)) w1 = (b, w2)"
      by fastforce
    have i2: "Inv w2" by (rule tryConnect_inv [OF t i1])
    obtain win p' where c: "credit env (pp_pub p) c p w2 = (win, p')" by fastforce
    have ok2: "plans_ok fresh (plans1[i := set_winner win p'])"
      using c Cons.prems(4) pub ok1
      by (intro plans_ok_update) (auto simp: plans_ok_def p_def credit_def split: option.splits if_splits)
    have id2: "plan_ids (plans1[i := set_winner win p']) = ids"
      using c id1 Cons.prems(3)
      by (auto simp: plans1_def p_def credit_def split: option.splits if_splits)
    have eq: "race_cands cr env dm i (c # cs) plans lg w =
        (case e of Some _ \<Rightarrow> (False, plans1, lg, w1)
         | None \<Rightarrow> if b then (True, plans1[i := set_winner win p'], AList.update (pp_name p) win lg, w2)
                   else race_cands cr env dm i cs plans1 lg w2)"
      using Some a t c st by (auto simp: p_def [symmetric] plans1_def [symmetric] Let_def split: option.splits bool.splits)
    show ?thesis
    proof (cases "e = None \<and> \<not> b")
      case True
      have "pp_pub (plans1 ! i) \<notin> fresh" "i < length plans1" "length plans1 = length plans"
        using Cons.prems(3,4) by (simp_all add: plans1_def p_def)
      with Cons.IH [OF _ ok1 _ _ id1 i2] Cons.prems(1) eq True show ?thesis by simp
    next
      case False
      then show ?thesis
        using Cons.prems(1) eq i1 i2 ok1 ok2 id1 id2 by (auto split: option.splits if_splits)
    qed
  qed
qed simp

lemma race_peer_inv:
  assumes "race_peer cr env dm i (plans, lg, w) = (plans', lg', w')"
    "plans_ok fresh plans" "i < length plans" "plan_ids plans = ids" "Inv w"
  shows "Inv w' \<and> plans_ok fresh plans' \<and> plan_ids plans' = ids"
proof (cases "pp_freshNow (plans ! i)")
  case True
  obtain p' lg1 where a: "adopt env (plans ! i) lg w = (p', lg1)" by fastforce
  have "plans_ok fresh [plans ! i]" using assms(2,3) by (simp add: plans_ok_def)
  then have "plans_ok fresh [p']"
    using a by (auto simp: adopt_def plans_ok_def Let_def split: if_splits option.splits)
  moreover have "pp_desire p' = pp_desire (plans ! i)"
    using a by (auto simp: adopt_def Let_def split: if_splits option.splits)
  ultimately show ?thesis
    using assms True a by (auto simp: race_peer_def Let_def intro: plans_ok_update)
next
  case False
  then have "pp_pub (plans ! i) \<notin> fresh" using assms(2,3) by (auto simp: plans_ok_def)
  moreover obtain won lg1 where "race_cands cr env dm i (pp_ordered (plans ! i)) plans lg w = (won, plans', lg1, w')"
    using assms(1) False by (auto simp: race_peer_def Let_def split: prod.splits)
  ultimately show ?thesis using race_cands_inv assms(2-5) by blast
qed

lemma race_all_inv:
  assumes "race_all cr env dm plans lg w = (plans', lg', w')" "plans_ok fresh plans" "plan_ids plans = ids" "Inv w"
  shows "Inv w' \<and> plans_ok fresh plans' \<and> plan_ids plans' = ids"
proof -
  have "case fold (race_peer cr env dm) is (ps, l, v) of
      (ps', l', v') \<Rightarrow> Inv v' \<and> plans_ok fresh ps' \<and> plan_ids ps' = ids"
    if "plans_ok fresh ps" "plan_ids ps = ids" "Inv v" "\<forall>i \<in> set is. i < length ps" for "is" ps l v
    using that
  proof (induction "is" arbitrary: ps l v)
    case (Cons i "is")
    obtain ps1 l1 v1 where r: "race_peer cr env dm i (ps, l, v) = (ps1, l1, v1)" by (metis prod_cases3)
    have i: "Inv v1 \<and> plans_ok fresh ps1 \<and> plan_ids ps1 = ids"
      using race_peer_inv [OF r] Cons.prems by simp
    then have "length ps1 = length ps" using Cons.prems(2) by (simp add: plan_ids_length)
    with i show ?case using Cons.IH [of ps1 v1 l1] Cons.prems by (auto simp: r split: prod.splits)
  qed simp
  from this [of plans w "[0..<length plans]" lg] assms show ?thesis by (simp add: race_all_def)
qed

lemma drop_sources_inv: "drop_sources (e_router env) want ns src w = (src', w') \<Longrightarrow> Inv w \<Longrightarrow> Inv w'"
proof (induction ns arbitrary: src w)
  case (Cons n ns)
  have "Inv (snd (rtr_RemoveSource (e_router env) ip w))" for ip
    using remove_inv [OF Cons.prems(2)] by (metis prod.collapse)
  with Cons show ?case by (auto split: if_splits)
qed simp

lemma add_sources_inv: "add_sources (e_router env) want ns src w = (src', w') \<Longrightarrow> Inv w \<Longrightarrow> Inv w'"
  by (induction ns arbitrary: src w) (auto split: if_splits option.splits prod.splits dest: add_inv)

lemma syncNat_inv: "syncNat cr env dm w = (dm', w') \<Longrightarrow> Inv w \<Longrightarrow> Inv w'"
proof -
  assume s: "syncNat cr env dm w = (dm', w')" and i: "Inv w"
  define w1 where "w1 = (if fwdWarned dm then w else snd (rtr_Forwarding (e_router env) w))"
  define w2 where "w2 = snd (rtr_AnnounceNAT (e_router env) (cfg_CIDR (dm_cfg dm)) (parseCIDRs (cfg_Announce (dm_cfg dm))) w1)"
  define w3 where "w3 = snd (rtr_EnsurePort (e_router env) w2)"
  have "Inv w1" using i forwarding_inv [OF i] by (metis prod.collapse w1_def)
  then have "Inv w2" using announce_inv by (metis prod.collapse w2_def)
  then have "Inv w3" using port_inv by (metis prod.collapse w3_def)
  then show "Inv w'"
    using s unfolding syncNat_def Let_def w1_def [symmetric] w2_def [symmetric] w3_def [symmetric]
    by (auto split: prod.splits dest!: drop_sources_inv add_sources_inv)
qed

lemma evictStaleSpokes_inv: "evictStaleSpokes cr env dm w = (dm', w') \<Longrightarrow> Inv w \<Longrightarrow> Inv w'"
  using files_inv by (auto simp: evictStaleSpokes_def Let_def split: if_splits) (metis prod.collapse)

text \<open>What a tick does after its first \<open>Apply\<close>, and the converging half of a tick as a whole, keep
  an invariant that every \<open>Apply\<close> of the planned peers sparing the fresh sessions keeps.\<close>

lemma initial_plans_ok:
  assumes pub: "\<forall>p \<in> set plans. pd_Pub (pp_desire p) = pp_pub p"
    and fresh: "\<forall>p \<in> set plans. pp_pub p \<in> fresh \<longrightarrow>
      since (e_now env w) (dev_Handshake (e_dev env) (pp_pub p) w) < cfg_StaleAfter (dm_cfg dm)"
    and ids: "plan_ids plans = ids"
  shows "plans_ok fresh (map (initial_plan env w) (map (mark_fresh env dm w) plans)) \<and>
     plan_ids (map (initial_plan env w) (map (mark_fresh env dm w) plans)) = ids"
  using assms by (auto simp: plans_ok_def initial_plan_endpoint plan_ids_def)

lemma tick_apply_rest_inv:
  assumes t: "tick_apply cr env dm plans w = (e, dm', w')"
    and ps: "ps = map (initial_plan env w) (map (mark_fresh env dm w) plans)"
    and a: "dev_Apply (e_dev env) (map pp_desire ps) w = (None, w1)" and i1: "Inv w1"
    and ok: "plans_ok fresh ps" "plan_ids ps = ids"
  shows "Inv w'"
proof -
  obtain ps2 lg w2 where r: "race_all cr env dm ps (lastGood dm) w1 = (ps2, lg, w2)" by (metis prod_cases3)
  have i2: "Inv w2" using race_all_inv [OF r ok i1] by simp
  define ann where "ann = concat (map (\<lambda>p. Adv (pp_rec p)) ps2)"
  define w3 where "w3 = (if ann \<noteq> [] then snd (dev_ApplyRoutes (e_dev env) (parseCIDRs ann) w2) else w2)"
  have i3: "Inv w3" using i2 routes_inv [OF i2] by (metis prod.collapse w3_def)
  obtain dm1 w4 where s: "syncNat cr env (dm\<lparr>lastGood := lg\<rparr>) w3 = (dm1, w4)" by fastforce
  obtain dm2 w5 where v: "evictStaleSpokes cr env dm1 w4 = (dm2, w5)" by fastforce
  have "w' = w5"
    using t unfolding tick_apply_def ps [symmetric] a Let_def prod.case option.case r
      ann_def [symmetric] w3_def [symmetric] s v by simp
  then show ?thesis using evictStaleSpokes_inv [OF v syncNat_inv [OF s i3]] by simp
qed

lemma tick_apply_inv:
  assumes t: "tick_apply cr env dm plans w = (e, dm', w')" and i: "Inv w"
    and pub: "\<forall>p \<in> set plans. pd_Pub (pp_desire p) = pp_pub p"
    and fresh: "\<forall>p \<in> set plans. pp_pub p \<in> fresh \<longrightarrow>
      since (e_now env w) (dev_Handshake (e_dev env) (pp_pub p) w) < cfg_StaleAfter (dm_cfg dm)"
    and ids: "plan_ids plans = ids"
  shows "Inv w'"
proof -
  define ps where "ps = map (initial_plan env w) (map (mark_fresh env dm w) plans)"
  have ok: "plans_ok fresh ps" "plan_ids ps = ids" using initial_plans_ok [OF pub fresh ids] by (simp_all add: ps_def)
  obtain e1 w1 where a: "dev_Apply (e_dev env) (map pp_desire ps) w = (e1, w1)" by fastforce
  have i1: "Inv w1" by (rule apply_inv [OF i plans_ok_spares [OF ok(1)] ok(2) [unfolded plan_ids_def] a])
  show ?thesis
  proof (cases e1)
    case (Some x)
    then show ?thesis using t a i1
      unfolding tick_apply_def ps_def [symmetric] Let_def by simp
  next
    case None
    then show ?thesis using tick_apply_rest_inv [OF t ps_def _ i1 ok] a by simp
  qed
qed

end

text \<open>The first \<open>Apply\<close> of a tick on any device of the contract: the endpoint of a live session
  stays where traffic has moved it, and its handshake time is not touched.\<close>

context wg_device
begin

lemma first_apply_keeps_live:
  assumes dev: "e_dev env = dv"
    and a: "dev_Apply dv (map pp_desire (map (initial_plan env w) (map (mark_fresh env dm w) plans))) w = (e, w')"
    and pub: "\<forall>q \<in> set plans. pd_Pub (pp_desire q) = pp_pub q" and p: "p \<in> set plans"
    and allowed: "pd_AllowedIPs (pp_desire p) \<noteq> []"
    and fresh: "since (e_now env w) (dev_Handshake dv (pp_pub p) w) < cfg_StaleAfter (dm_cfg dm)"
    and known: "dev_Endpoint dv (pp_pub p) w \<noteq> None"
  shows "dev_Endpoint dv (pp_pub p) w' = dev_Endpoint dv (pp_pub p) w \<and>
     dev_Handshake dv (pp_pub p) w' = dev_Handshake dv (pp_pub p) w"
proof -
  let ?f = "\<lambda>q. initial_plan env w (mark_fresh env dm w q)"
  have "pd_AllowedIPs (pp_desire (?f p)) = pd_AllowedIPs (pp_desire p)"
    by (auto simp: initial_plan_def pickInitial_def mark_fresh_def Let_def split: list.split)
  then have w: "pp_pub p \<in> wanted_keys (map pp_desire (map (initial_plan env w) (map (mark_fresh env dm w) plans)))"
    using p pub allowed by (force simp: wanted_keys_def image_iff)
  have "\<forall>d \<in> set (map pp_desire (map (initial_plan env w) (map (mark_fresh env dm w) plans))).
      pd_Pub d = pp_pub p \<longrightarrow> pd_Endpoint d = None"
    using pub fresh dev by (auto intro!: initial_plan_endpoint)
  from apply_keeps_endpoint [OF a this known w] apply_keeps_handshake [OF a w] show ?thesis by simp
qed

end

section \<open>Plans\<close>

text \<open>A range over a map visits every key once.\<close>

definition ranges :: "'w env \<Rightarrow> bool" where
  "ranges env \<longleftrightarrow> (\<forall>ks w. distinct ks \<longrightarrow> mset (e_range env ks w) = mset ks)"

lemma ranges_set: "ranges env \<Longrightarrow> distinct ks \<Longrightarrow> set (e_range env ks w) = set ks"
  unfolding ranges_def by (blast dest: mset_eq_setD)

lemma ranges_distinct: "ranges env \<Longrightarrow> distinct ks \<Longrightarrow> distinct (e_range env ks w)"
  unfolding ranges_def by (blast dest: mset_eq_imp_distinct_iff)

lemma set_map_filter: "set (List.map_filter f xs) = {y. \<exists>x \<in> set xs. f x = Some y}"
  by (induction xs) (auto simp: map_filter_simps split: option.splits)

lemma roster_plan_SomeD:
  "roster_plan cr env dm mine w n r = Some p \<Longrightarrow>
   pp_name p = n \<and> pp_rec p = r \<and> NodeWGPubKey cr (dm_d dm) n = Inr (pp_pub p) \<and>
   pd_Pub (pp_desire p) = pp_pub p \<and> pd_Name (pp_desire p) = n \<and>
   (\<exists>ip. OverlayIP cr (dm_d dm) n (cfg_CIDR (dm_cfg dm)) = Inr ip \<and>
      pd_AllowedIPs (pp_desire p) = parseCIDRs (Adv r) @ [host32 ip])"
  by (auto simp: roster_plan_def OverlayIPNet_def allowedIPsFor_def split: sum.splits)

lemma spoke_plan_SomeD:
  "spoke_plan cr dm n = Some p \<Longrightarrow>
   pp_name p = n \<and> Adv (pp_rec p) = [] \<and> pp_ordered p = [] \<and> NodeWGPubKey cr (dm_d dm) n = Inr (pp_pub p) \<and>
   pd_Pub (pp_desire p) = pp_pub p \<and> pd_Name (pp_desire p) = n \<and>
   (\<exists>ip. OverlayIP cr (dm_d dm) n (cfg_CIDR (dm_cfg dm)) = Inr ip \<and> pd_AllowedIPs (pp_desire p) = [host32 ip])"
  by (auto simp: spoke_plan_def OverlayIPNet_def split: sum.splits)

text \<open>A name the mesh can plan a peer for: its keys and its address derive.\<close>

definition derivable :: "crypto \<Rightarrow> Daemon \<Rightarrow> string \<Rightarrow> bool" where
  "derivable cr dm n \<longleftrightarrow> (\<exists>ip. OverlayIP cr (dm_d dm) n (cfg_CIDR (dm_cfg dm)) = Inr ip)"

lemma derivable_pub: "derivable cr dm n \<Longrightarrow> \<exists>pub. NodeWGPubKey cr (dm_d dm) n = Inr pub"
  by (auto simp: derivable_def NodeWGPubKey_def elim: OverlayIP_InrD)

lemma roster_plan_iff: "(\<exists>p. roster_plan cr env dm mine w n r = Some p) \<longleftrightarrow> derivable cr dm n"
  using derivable_pub [of cr dm n]
  by (auto simp: roster_plan_def derivable_def OverlayIPNet_def split: sum.splits)

lemma spoke_plan_iff: "(\<exists>p. spoke_plan cr dm n = Some p) \<longleftrightarrow> derivable cr dm n"
  using derivable_pub [of cr dm n]
  by (auto simp: spoke_plan_def derivable_def OverlayIPNet_def split: sum.splits)

lemma set_Names: "set (Names peers) = fst ` set peers"
  by (simp add: Names_def)

lemma plans_of_name:
  assumes "p \<in> set (plans_of cr env dm mine peers w)"
  shows "(\<exists>r. map_of peers (pp_name p) = Some r \<and> roster_plan cr env dm mine w (pp_name p) r = Some p) \<or>
     (map_of peers (pp_name p) = None \<and> pp_name p \<in> set (e_range env (spokes dm) w) \<and>
      spoke_plan cr dm (pp_name p) = Some p)"
  using assms unfolding plans_of_def set_append set_map_filter
proof (elim UnE CollectE bexE)
  fix n assume "n \<in> set (Names peers)"
    "(case map_of peers n of None \<Rightarrow> None | Some r \<Rightarrow> roster_plan cr env dm mine w n r) = Some p"
  then show ?thesis using roster_plan_SomeD [of cr env dm mine w n] by (auto split: option.splits)
next
  fix n assume "n \<in> set (filter (\<lambda>n. map_of peers n = None) (e_range env (spokes dm) w))"
    "spoke_plan cr dm n = Some p"
  then show ?thesis using spoke_plan_SomeD [of cr dm n p] by auto
qed

lemma plans_of_names:
  assumes "ranges env" "distinct (spokes dm)"
  shows "pp_name ` set (plans_of cr env dm mine peers w) =
     {n \<in> fst ` set peers \<union> set (spokes dm). derivable cr dm n}" (is "?L = ?R")
proof
  have r: "set (e_range env (spokes dm) w) = set (spokes dm)" by (rule ranges_set [OF assms])
  show "?L \<subseteq> ?R"
  proof
    fix n assume "n \<in> ?L"
    then obtain p where p: "p \<in> set (plans_of cr env dm mine peers w)" and n: "n = pp_name p" by blast
    from plans_of_name [OF p] show "n \<in> ?R"
    proof (elim disjE exE conjE)
      fix rec
      assume "map_of peers (pp_name p) = Some rec" "roster_plan cr env dm mine w (pp_name p) rec = Some p"
      moreover from this(2) have "derivable cr dm (pp_name p)"
        using roster_plan_iff [of cr env dm mine w "pp_name p" rec] by blast
      ultimately show ?thesis by (force simp: n dest: map_of_SomeD)
    next
      assume "pp_name p \<in> set (e_range env (spokes dm) w)" "spoke_plan cr dm (pp_name p) = Some p"
      then show ?thesis using spoke_plan_iff r by (auto simp: n)
    qed
  qed
  show "?R \<subseteq> ?L"
  proof
    fix n assume n: "n \<in> ?R"
    then have d: "derivable cr dm n" by simp
    show "n \<in> ?L"
    proof (cases "map_of peers n")
      case (Some rec)
      obtain p where p: "roster_plan cr env dm mine w n rec = Some p"
        using d roster_plan_iff [of cr env dm mine w n rec] by blast
      have "p \<in> set (plans_of cr env dm mine peers w)"
        using Some p map_of_SomeD [OF Some]
        by (auto simp: plans_of_def set_map_filter set_Names image_iff intro!: bexI [of _ "(n, rec)"])
      with roster_plan_SomeD [OF p] show ?thesis by (auto intro!: image_eqI [of _ _ p])
    next
      case None
      obtain p where p: "spoke_plan cr dm n = Some p" using d spoke_plan_iff [of cr dm n] by blast
      have "n \<in> set (spokes dm)" using n None by (auto simp: map_of_eq_None_iff)
      then have "p \<in> set (plans_of cr env dm mine peers w)"
        using None p r by (auto simp: plans_of_def set_map_filter)
      with spoke_plan_SomeD [OF p] show ?thesis by (auto intro!: image_eqI [of _ _ p])
    qed
  qed
qed

section \<open>Eviction\<close>

lemma evictStaleSpokes_spokes:
  assumes "evictStaleSpokes cr env dm w = (dm', w')" "ranges env" "distinct (spokes dm)"
  shows "spokes dm' = filter (\<lambda>n. \<not> stale_spoke cr env dm w n) (spokes dm)"
proof -
  have "spokes dm' = filter (\<lambda>n. n \<notin> set (filter (stale_spoke cr env dm w) (e_range env (spokes dm) w))) (spokes dm)"
    using assms(1) by (auto simp: evictStaleSpokes_def Let_def split: if_splits)
  then show ?thesis
    using ranges_set [OF assms(2,3), of w] by (auto intro: filter_cong)
qed

end
