(* ===== verification/Natsync.thy ===== *)
theory Natsync
  imports Reconcile
begin

text \<open>
  The daemon against the router: the locale \<open>nat_sources\<close> is what \<open>syncNat\<close> relies on, and
  the Linux router over any host that meets \<open>iptables\<close> provides it.
\<close>

section \<open>The contract of the router\<close>

lemma ran_remove: "\<forall>k. m k = Some v \<longrightarrow> k = n \<Longrightarrow> m n = Some v \<Longrightarrow> ran (m(n := None)) = ran m - {v}"
proof (intro set_eqI iffI)
  fix x
  assume u: "\<forall>k. m k = Some v \<longrightarrow> k = n" and n: "m n = Some v"
  show "x \<in> ran m - {v}" if "x \<in> ran (m(n := None))"
  proof -
    from that obtain k where "k \<noteq> n" "m k = Some x" by (auto simp: ran_def split: if_splits)
    with u show ?thesis by (auto simp: ran_def)
  qed
  show "x \<in> ran (m(n := None))" if "x \<in> ran m - {v}"
  proof -
    from that obtain k where "m k = Some x" "x \<noteq> v" by (auto simp: ran_def)
    with n have "k \<noteq> n" by auto
    with \<open>m k = Some x\<close> show ?thesis by (auto simp: ran_def intro!: exI [of _ k])
  qed
qed

lemma map_of_wanted_sources:
  assumes "\<forall>n ip. OverlayIP cr (dm_d dm) n (cfg_CIDR (dm_cfg dm)) = Inr ip \<longrightarrow> ov n = ip"
  shows "map_of (wanted_sources cr dm ns) n = (if n \<in> set ns \<and> derivable cr dm n then Some (ov n) else None)"
  using assms by (induction ns) (auto simp: wanted_sources_def map_filter_simps derivable_def split: sum.splits)

lemma distinct_wanted_sources: "distinct ns \<Longrightarrow> distinct (map fst (wanted_sources cr dm ns))"
proof (induction ns)
  case (Cons n ns)
  have "fst ` set (wanted_sources cr dm ns) \<subseteq> set ns"
    by (induction ns) (auto simp: wanted_sources_def map_filter_simps split: sum.splits)
  with Cons show ?case by (auto simp: wanted_sources_def map_filter_simps split: sum.splits)
qed (simp add: wanted_sources_def map_filter_simps)

text \<open>What the daemon relies on from the router: which sources are masqueraded, by what
  each operation does to them.\<close>

locale nat_sources =
  fixes rt :: "'w router_ops"
    and ok :: "'w \<Rightarrow> bool"
    and srcs :: "'w \<Rightarrow> ip set"
  assumes forwarding_srcs: "ok w \<Longrightarrow> rtr_Forwarding rt w = (e, w') \<Longrightarrow> ok w' \<and> srcs w' = srcs w"
    and announce_srcs: "ok w \<Longrightarrow> rtr_AnnounceNAT rt ov subs w = (e, w') \<Longrightarrow> ok w' \<and> srcs w' = srcs w"
    and port_srcs: "ok w \<Longrightarrow> rtr_EnsurePort rt w = (e, w') \<Longrightarrow> ok w' \<and> srcs w' = srcs w"
    and add_srcs: "ok w \<Longrightarrow> length ip = 4 \<Longrightarrow> rtr_AddSource rt ip w = (e, w') \<Longrightarrow>
       ok w' \<and> srcs w' = (if e = None then insert ip (srcs w) else srcs w)"
    and remove_srcs: "ok w \<Longrightarrow> length ip = 4 \<Longrightarrow> rtr_RemoveSource rt ip w = (e, w') \<Longrightarrow>
       ok w' \<and> srcs w' = srcs w - {ip}"
begin

definition in_step :: "(string, ip) gomap \<Rightarrow> 'w \<Rightarrow> bool" where
  "in_step src w \<longleftrightarrow> ok w \<and> srcs w = ran (map_of src)"

lemma drop_sources_step:
  assumes "drop_sources rt want ns src w = (src', w')" "in_step src w"
    "\<forall>n ip. map_of src n = Some ip \<longrightarrow> ov n = ip \<and> length ip = 4" "inj_on ov (dom (map_of src))"
    "distinct ns" "set ns \<subseteq> dom (map_of src)"
  shows "in_step src' w' \<and> map_of src' = map_of src |` (- (set ns - dom (map_of want)))"
  using assms
proof (induction ns arbitrary: src w)
  case (Cons n ns)
  show ?case
  proof (cases "n \<in> dom (map_of want)")
    case True
    then have "insert n (set ns) - dom (map_of want) = set ns - dom (map_of want)" by auto
    with True Cons show ?thesis by (auto simp: domIff)
  next
    case False
    obtain ip where ip: "map_of src n = Some ip" using Cons.prems(6) by auto
    obtain e w1 where r: "rtr_RemoveSource rt ip w = (e, w1)" by fastforce
    let ?s1 = "AList.delete n src"
    have m: "map_of ?s1 = (map_of src)(n := None)" by (simp add: delete_conv')
    have "\<forall>k. map_of src k = Some ip \<longrightarrow> k = n"
      using Cons.prems(3,4) ip by (metis inj_onD domI)
    then have "ran (map_of ?s1) = ran (map_of src) - {ip}"
      unfolding m using ip by (rule ran_remove)
    then have i1: "in_step ?s1 w1"
      using remove_srcs [OF _ _ r] Cons.prems(2,3) ip by (auto simp: in_step_def)
    have d1: "drop_sources rt want ns ?s1 w1 = (src', w')"
      using Cons.prems(1) False ip r by (simp add: domIff)
    have j1: "inj_on ov (dom (map_of ?s1))"
      using Cons.prems(4) by (auto simp: m intro: inj_on_subset)
    have l1: "\<forall>n ip. map_of ?s1 n = Some ip \<longrightarrow> ov n = ip \<and> length ip = 4"
      using Cons.prems(3) by (auto simp: m)
    have n1: "distinct ns" "set ns \<subseteq> dom (map_of ?s1)"
      using Cons.prems(5,6) unfolding m dom_fun_upd by auto
    note Cons.IH [OF d1 i1 l1 j1 n1]
    moreover have "map_of ?s1 |` (- (set ns - dom (map_of want))) =
        map_of src |` (- (set (n # ns) - dom (map_of want)))"
      using False by (auto simp: m restrict_map_def fun_eq_iff)
    ultimately show ?thesis by simp
  qed
qed (simp add: restrict_map_def)

lemma add_sources_step:
  assumes "add_sources rt want ns src w = (src', w')" "in_step src w"
    "\<forall>n ip. map_of want n = Some ip \<longrightarrow> length ip = 4"
  shows "in_step src' w' \<and>
     (\<forall>n. map_of src n \<noteq> None \<longrightarrow> map_of src' n = map_of src n) \<and>
     (\<forall>n. map_of src n = None \<longrightarrow> map_of src' n = None \<or> (n \<in> set ns \<and> map_of src' n = map_of want n)) \<and>
     ((\<forall>ip w. ok w \<longrightarrow> length ip = 4 \<longrightarrow> fst (rtr_AddSource rt ip w) = None) \<longrightarrow> set ns \<inter> dom (map_of want) \<subseteq> dom (map_of src'))"
  using assms(1,2)
proof (induction ns arbitrary: src w)
  case (Cons n ns)
  show ?case
  proof (cases "map_of want n = None \<or> map_of src n \<noteq> None")
    case True
    then have "add_sources rt want ns src w = (src', w')" using Cons.prems(1) by (auto split: option.splits)
    from Cons.IH [OF this Cons.prems(2)] True show ?thesis by (auto simp: domIff) (metis option.distinct(1))+
  next
    case False
    then obtain ip where ip: "map_of want n = Some ip" and s: "map_of src n = None" by auto
    obtain e w1 where r: "rtr_AddSource rt ip w = (e, w1)" by fastforce
    define s1 where "s1 = (if e = None then AList.update n ip src else src)"
    have m: "map_of s1 = (if e = None then (map_of src)(n \<mapsto> ip) else map_of src)"
      by (simp add: s1_def update_conv')
    have "add_sources rt want ns s1 w1 = (src', w')"
      using Cons.prems(1) ip s r by (auto simp: s1_def split: option.splits)
    moreover have "in_step s1 w1"
      using add_srcs [OF _ _ r] Cons.prems(2) assms(3) ip s by (auto simp: in_step_def m ran_map_upd)
    moreover have "e = None" if "\<forall>ip w. ok w \<longrightarrow> length ip = 4 \<longrightarrow> fst (rtr_AddSource rt ip w) = None"
    proof -
      have "ok w" "length ip = 4" using Cons.prems(2) assms(3) ip by (auto simp: in_step_def)
      with that r show ?thesis by (metis fst_conv)
    qed
    ultimately show ?thesis
      using Cons.IH [of s1 w1] ip s
      by (auto simp: m domIff split: if_splits) (metis option.distinct(1))+
  qed
qed auto

text \<open>\<open>syncNat\<close> brings the masqueraded sources in step with the spoke set: they are always the
  tracked ones, which are overlay addresses of present spokes, and all of them when adding
  a rule does not fail.\<close>

lemma syncNat_step:
  fixes ov
  assumes s: "syncNat cr env dm w = (dm', w')" and rt: "e_router env = rt" and i: "in_step (spokeSrc dm) w"
    and rg: "ranges env" "distinct (spokes dm)" "distinct (map fst (spokeSrc dm))"
    and old: "\<forall>n ip. map_of (spokeSrc dm) n = Some ip \<longrightarrow> ov n = ip \<and> length ip = 4"
    and inj: "inj_on ov (dom (map_of (spokeSrc dm)))"
    and ov: "\<forall>n ip. OverlayIP cr (dm_d dm) n (cfg_CIDR (dm_cfg dm)) = Inr ip \<longrightarrow> ov n = ip"
  shows "in_step (spokeSrc dm') w' \<and>
     (\<forall>n ip. map_of (spokeSrc dm') n = Some ip \<longrightarrow> n \<in> set (spokes dm) \<and> derivable cr dm n \<and> ov n = ip) \<and>
     ((\<forall>ip w. ok w \<longrightarrow> length ip = 4 \<longrightarrow> fst (rtr_AddSource rt ip w) = None) \<longrightarrow>
        dom (map_of (spokeSrc dm')) = {n \<in> set (spokes dm). derivable cr dm n})"
proof -
  define w1 where "w1 = (if fwdWarned dm then w else snd (rtr_Forwarding rt w))"
  define w2 where "w2 = snd (rtr_AnnounceNAT rt (cfg_CIDR (dm_cfg dm)) (parseCIDRs (cfg_Announce (dm_cfg dm))) w1)"
  define w3 where "w3 = snd (rtr_EnsurePort rt w2)"
  define want where "want = wanted_sources cr dm (e_range env (spokes dm) w3)"
  have "ok w1 \<and> srcs w1 = srcs w"
    using forwarding_srcs [of w] i by (auto simp: w1_def in_step_def) (metis prod.collapse)+
  then have "ok w2 \<and> srcs w2 = srcs w" using announce_srcs [of w1] by (metis prod.collapse w2_def)
  then have i3: "in_step (spokeSrc dm) w3"
    using port_srcs [of w2] i by (metis prod.collapse w3_def in_step_def)
  have want: "map_of want n = (if n \<in> set (spokes dm) \<and> derivable cr dm n then Some (ov n) else None)" for n
    using map_of_wanted_sources [OF ov] by (simp add: want_def ranges_set [OF rg(1,2)])
  have len: "\<forall>n ip. map_of want n = Some ip \<longrightarrow> length ip = 4"
    using ov by (auto simp: want derivable_def split: if_splits dest: length_OverlayIP)
  let ?ns = "e_range env (map fst (spokeSrc dm)) w3"
  obtain src1 w4 where d: "drop_sources rt want ?ns (spokeSrc dm) w3 = (src1, w4)" by fastforce
  obtain src2 w5 where a: "add_sources rt want (e_range env (map fst want) w4) src1 w4 = (src2, w5)" by fastforce
  have r: "spokeSrc dm' = src2" "w' = w5"
    using s d a unfolding syncNat_def rt Let_def w1_def [symmetric] w2_def [symmetric] w3_def [symmetric]
      want_def [symmetric] by auto
  have ns: "set ?ns = dom (map_of (spokeSrc dm))" "distinct ?ns"
    using ranges_set [OF rg(1,3)] ranges_distinct [OF rg(1,3)] by (auto simp: dom_map_of_conv_image_fst)
  have d': "in_step src1 w4 \<and> map_of src1 = map_of (spokeSrc dm) |` (- (set ?ns - dom (map_of want)))"
    by (rule drop_sources_step [OF d i3 old inj ns(2)]) (simp add: ns(1))
  have s1: "map_of src1 n = Some ip \<longleftrightarrow> map_of (spokeSrc dm) n = Some ip \<and> n \<in> dom (map_of want)" for n ip
    using d' ns(1) by (auto simp: restrict_map_def)
  have dw: "distinct (map fst want)"
    using distinct_wanted_sources ranges_distinct [OF rg(1,2)] by (simp add: want_def)
  have ws: "set (e_range env (map fst want) w4) = dom (map_of want)"
    using ranges_set [OF rg(1) dw] by (simp add: dom_map_of_conv_image_fst)
  note a' = add_sources_step [OF a d' [THEN conjunct1] len]
  have one: "map_of src2 n = Some ip \<Longrightarrow> map_of want n = Some ip" for n ip
  proof (cases "map_of src1 n")
    case None
    assume "map_of src2 n = Some ip"
    with a' None show ?thesis by (metis option.distinct(1))
  next
    case (Some q)
    assume "map_of src2 n = Some ip"
    with a' Some have "q = ip" by (metis option.inject option.distinct(1))
    with Some s1 [of n q] old want [of n] show ?thesis by (auto split: if_splits)
  qed
  have "in_step src2 w5" using a' by simp
  moreover have "n \<in> set (spokes dm) \<and> derivable cr dm n \<and> ov n = ip" if "map_of src2 n = Some ip" for n ip
    using one [OF that] want [of n] by (auto split: if_splits)
  moreover have "dom (map_of src2) = {n \<in> set (spokes dm). derivable cr dm n}"
    if "\<forall>ip w. ok w \<longrightarrow> length ip = 4 \<longrightarrow> fst (rtr_AddSource rt ip w) = None"
  proof -
    have "dom (map_of want) \<subseteq> dom (map_of src2)" using a' that ws by blast
    moreover have "dom (map_of src2) \<subseteq> dom (map_of want)" using one by auto
    ultimately show ?thesis using want by (auto split: if_splits)
  qed
  ultimately show ?thesis by (simp add: r)
qed

end

section \<open>The Linux router provides it\<close>

text \<open>Sources are read off the masquerade chain itself. The rules there from before must not
  look like rules for spokes of this interface.\<close>

definition src_of :: "ip \<Rightarrow> string" where
  "src_of ip = ip_string ip @ ''/32''"

lemma src_of_inj: "length a = 4 \<Longrightarrow> length b = 4 \<Longrightarrow> src_of a = src_of b \<longleftrightarrow> a = b"
  by (simp add: src_of_def dotted_inj)

lemma spoke_spec_inj: "spoke_spec i a = spoke_spec i b \<longleftrightarrow> a = b"
  by (simp add: spoke_spec_def)

lemma announce_not_spoke: "announce_spec o1 d \<noteq> spoke_spec i s"
  by (simp add: announce_spec_def spoke_spec_def)

locale iptables_base = iptables fw rules
  for fw :: "'w fw_ops" and rules :: "'w \<Rightarrow> string \<Rightarrow> string \<Rightarrow> string \<Rightarrow> string list list" +
  fixes base :: "string list multiset"
begin

definition nat_ok :: "linuxRouter \<times> 'w \<Rightarrow> bool" where
  "nat_ok st \<longleftrightarrow> balanced base (fst st) (snd st) \<and> (\<forall>s. spoke_spec (rt_iface (fst st)) s \<notin># base)"

definition nat_srcs :: "linuxRouter \<times> 'w \<Rightarrow> ip set" where
  "nat_srcs st = {ip. length ip = 4 \<and> spoke_spec (rt_iface (fst st)) (src_of ip) \<in> set (masq (snd st))}"

lemma nat_srcs_added:
  assumes "nat_ok (r, w)"
  shows "nat_srcs (r, w) = {ip. length ip = 4 \<and> src_of ip \<in> set (added r)}"
proof -
  have "spoke_spec (rt_iface r) s \<in> set (masq w) \<longleftrightarrow> s \<in> set (added r)" for s
  proof -
    have "mset (masq w) = base + tracked_rules r" using assms by (simp add: nat_ok_def)
    then have m: "set (masq w) = set_mset (base + tracked_rules r)" by (metis set_mset_mset)
    have "spoke_spec (rt_iface r) s \<notin># base" using assms by (simp add: nat_ok_def)
    moreover have "spoke_spec (rt_iface r) s \<notin># ann_rules (announceNAT r)"
      by (auto simp: ann_rules_def dest: sym [THEN announce_not_spoke [THEN notE, rotated]])
    moreover have "spoke_spec (rt_iface r) s \<in> set (spoke_specs r) \<longleftrightarrow> s \<in> set (added r)"
      by (auto simp: spoke_specs_def spoke_spec_inj)
    ultimately show ?thesis unfolding m by (simp add: tracked_rules_def)
  qed
  then show ?thesis by (simp add: nat_srcs_def)
qed

lemma same_added_srcs:
  assumes "nat_ok (r, w)" "balanced base r' w'" "rt_iface r' = rt_iface r" "added r' = added r"
  shows "nat_ok (r', w') \<and> nat_srcs (r', w') = nat_srcs (r, w)"
proof -
  have "nat_ok (r', w')" using assms by (simp add: nat_ok_def)
  with assms show ?thesis by (simp add: nat_srcs_added)
qed

lemma AddSource_added:
  assumes "AddSource fw ip r w = (e, r', w')" "length ip = 4"
  shows "rt_iface r' = rt_iface r \<and> set (added r') = (if e = None then insert (src_of ip) (set (added r)) else set (added r))"
proof -
  obtain e1 r1 w1 where f: "Forwarding fw r w = (e1, r1, w1)" by (cases "Forwarding fw r w")
  have t: "added r1 = added r" "rt_iface r1 = rt_iface r"
    using Forwarding_frame [OF f] by (auto simp: same_tracked_def)
  show ?thesis
    using assms f t
    by (auto simp: AddSource_def Let_def src_of_def split: if_splits option.splits prod.splits)
qed

lemma RemoveSource_added:
  assumes "RemoveSource fw ip r w = (e, r', w')" "length ip = 4" "nat_ok (r, w)"
  shows "rt_iface r' = rt_iface r \<and> set (added r') = set (added r) - {src_of ip}"
proof (cases "src_of ip \<in> set (added r)")
  case False
  with assms show ?thesis by (auto simp: RemoveSource_def Let_def src_of_def)
next
  case True
  obtain e1 w1 where i: "run fw ''nat'' (''-D'' # ''POSTROUTING'' # spoke_spec (rt_iface r) (src_of ip)) w = (e1, w1)"
    by fastforce
  have "ip \<in> nat_srcs (r, w)" using True assms(2,3) by (simp add: nat_srcs_added)
  then have "e1 = None" using run_delete [OF i] by (simp add: nat_srcs_def)
  with True i assms(1,2) show ?thesis
    by (auto simp: RemoveSource_def Let_def src_of_def)
qed

end

sublocale iptables_base < lnat: nat_sources "linux_router fw" nat_ok nat_srcs
proof (unfold_locales, goal_cases)
  case (1 st e st')
  obtain r w r' w' where st: "st = (r, w)" "st' = (r', w')" by (cases st; cases st')
  have a: "Forwarding fw r w = (e, r', w')" and b: "balanced base r w"
    using 1 st by (simp_all add: linux_router_def nat_ok_def)
  have t: "rt_iface r' = rt_iface r" "added r' = added r"
    using Forwarding_frame [OF a] by (auto simp: same_tracked_def)
  from same_added_srcs [where r = r and w = w and r' = r' and w' = w'] 1(1) router_step_balanced [OF step_Forwarding [OF a] b] t
  show ?case by (simp add: st)
next
  case (2 st ov subs e st')
  obtain r w r' w' where st: "st = (r, w)" "st' = (r', w')" by (cases st; cases st')
  have a: "AnnounceNAT fw ov subs r w = (e, r', w')" and b: "balanced base r w"
    using 2 st by (simp_all add: linux_router_def nat_ok_def)
  have "rt_iface r' = rt_iface r"
    using a by (auto simp: AnnounceNAT_def Let_def split: prod.splits)
  with same_added_srcs [where r = r and w = w and r' = r' and w' = w'] 2(1) AnnounceNAT_balanced(1,2) [OF a b] show ?case by (simp add: st)
next
  case (3 st e st')
  obtain r w r' w' where st: "st = (r, w)" "st' = (r', w')" by (cases st; cases st')
  have a: "EnsurePort fw r w = (e, w')" "r' = r" and b: "balanced base r w"
    using 3 st by (auto simp: linux_router_def nat_ok_def split: prod.splits)
  from same_added_srcs [where r = r and w = w and r' = r and w' = w'] 3(1) router_step_balanced [OF step_EnsurePort [OF a(1)] b]
  show ?case by (simp add: st a(2))
next
  case (4 st ip e st')
  obtain r w r' w' where st: "st = (r, w)" "st' = (r', w')" by (cases st; cases st')
  have a: "AddSource fw ip r w = (e, r', w')" and ok: "nat_ok (r, w)" using 4 st by (simp_all add: linux_router_def)
  have ok': "nat_ok (r', w')"
    using AddSource_balanced [OF a] AddSource_added [OF a 4(2)] ok by (simp add: nat_ok_def)
  show ?case
    using AddSource_added [OF a 4(2)] ok' 4(2)
    by (auto simp: st nat_srcs_added [OF ok] nat_srcs_added [OF ok'] src_of_inj)
next
  case (5 st ip e st')
  obtain r w r' w' where st: "st = (r, w)" "st' = (r', w')" by (cases st; cases st')
  have a: "RemoveSource fw ip r w = (e, r', w')" and ok: "nat_ok (r, w)" using 5 st by (simp_all add: linux_router_def)
  have ok': "nat_ok (r', w')"
    using RemoveSource_balanced [OF a] RemoveSource_added [OF a 5(2) ok] ok by (simp add: nat_ok_def)
  show ?case
    unfolding st nat_srcs_added [OF ok] nat_srcs_added [OF ok'] RemoveSource_added [OF a 5(2) ok, THEN conjunct2]
    using ok' src_of_inj [OF _ 5(2)] by blast
qed

interpretation memnat: iptables_base mem_fw mh_rules "{#}"
  by unfold_locales

end
