(* ===== verification/Lab.thy ===== *)
theory Lab
  imports Natsync
begin

text \<open>
  The daemon in memory, as its tests and the dry run assemble it: the fake device, the mock
  store, the Linux router over rules in memory, files in memory, and a probe that is traffic
  to one peer of the fake device. Addresses resolve when they are numeric. The locales of
  the reconcile loop are interpreted here.
\<close>

record lab =
  lab_dev :: FakeDevice
  lab_net :: mock_world
  lab_rt :: linuxRouter
  lab_host :: mem_host
  lab_fs :: "(string, bytes) gomap"
  lab_probed :: bytes
  lab_own :: "Candidate list"
  lab_refl :: "Candidate list"

definition on_dev :: "(FakeDevice \<Rightarrow> goerr option \<times> FakeDevice) \<Rightarrow> lab \<Rightarrow> goerr option \<times> lab" where
  "on_dev f w = (case f (lab_dev w) of (e, d) \<Rightarrow> (e, w\<lparr>lab_dev := d\<rparr>))"

definition on_net :: "(mock_world \<Rightarrow> 'a \<times> mock_world) \<Rightarrow> lab \<Rightarrow> 'a \<times> lab" where
  "on_net f w = (case f (lab_net w) of (e, n) \<Rightarrow> (e, w\<lparr>lab_net := n\<rparr>))"

definition on_rt :: "(linuxRouter \<times> mem_host \<Rightarrow> goerr option \<times> linuxRouter \<times> mem_host) \<Rightarrow> lab \<Rightarrow> goerr option \<times> lab" where
  "on_rt f w = (case f (lab_rt w, lab_host w) of (e, r, h) \<Rightarrow> (e, w\<lparr>lab_rt := r, lab_host := h\<rparr>))"

definition on_fs :: "((string, bytes) gomap \<Rightarrow> goerr option \<times> (string, bytes) gomap) \<Rightarrow> lab \<Rightarrow> goerr option \<times> lab" where
  "on_fs f w = (case f (lab_fs w) of (e, g) \<Rightarrow> (e, w\<lparr>lab_fs := g\<rparr>))"

definition resolve_numeric :: "string \<Rightarrow> udpaddr option" where
  "resolve_numeric s =
     (case split_host_port s of
        None \<Rightarrow> None
      | Some (h, p) \<Rightarrow>
          (case parse_ip h of
             None \<Rightarrow> None
           | Some ip \<Rightarrow> if p \<noteq> [] \<and> list_all is_digit p \<and> dec_val p < 65536
                        then Some \<lparr>ua_ip = ip, ua_port = int (dec_val p)\<rparr> else None))"

definition lab_dev_ops :: "lab dev_ops" where
  "lab_dev_ops =
     \<lparr>dev_Setup = \<lambda>key p m a r. on_dev (dev_Setup fake_dev key p m a r),
      dev_Apply = \<lambda>ps. on_dev (dev_Apply fake_dev ps),
      dev_ApplyRoutes = \<lambda>rs. on_dev (dev_ApplyRoutes fake_dev rs),
      dev_Handshake = \<lambda>pub w. dev_Handshake fake_dev pub (lab_dev w),
      dev_Endpoint = \<lambda>pub w. dev_Endpoint fake_dev pub (lab_dev w)\<rparr>"

definition lab_store_ops :: "lab store_ops" where
  "lab_store_ops =
     \<lparr>put_op = \<lambda>key v. on_net (put_op mock_ops key v), get_op = \<lambda>key. on_net (get_op mock_ops key),
      sleep_op = \<lambda>d. on_net (sleep_op mock_ops d), ctx_op = \<lambda>w. ctx_op mock_ops (lab_net w)\<rparr>"

definition lab_router_ops :: "lab router_ops" where
  "lab_router_ops =
     \<lparr>rtr_Forwarding = on_rt (rtr_Forwarding (linux_router mem_fw)),
      rtr_AddSource = \<lambda>ip. on_rt (rtr_AddSource (linux_router mem_fw) ip),
      rtr_RemoveSource = \<lambda>ip. on_rt (rtr_RemoveSource (linux_router mem_fw) ip),
      rtr_AnnounceNAT = \<lambda>ov subs. on_rt (rtr_AnnounceNAT (linux_router mem_fw) ov subs),
      rtr_EnsurePort = on_rt (rtr_EnsurePort (linux_router mem_fw)),
      rtr_Close = on_rt (rtr_Close (linux_router mem_fw))\<rparr>"

definition lab_fs_ops :: "lab fs_ops" where
  "lab_fs_ops =
     \<lparr>read_file = \<lambda>p w. read_file mem_fs p (lab_fs w), mkdir_all = \<lambda>d. on_fs (mkdir_all mem_fs d),
      write_file = \<lambda>p b. on_fs (write_file mem_fs p b), rename_file = \<lambda>p q. on_fs (rename_file mem_fs p q)\<rparr>"

definition lab_env :: "lab env" where
  "lab_env =
     \<lparr>e_dev = lab_dev_ops, e_store = lab_store_ops, e_router = lab_router_ops, e_fs = lab_fs_ops,
      e_now = \<lambda>w. clock (lab_net w),
      e_sleep = \<lambda>d w. w\<lparr>lab_net := (lab_net w)\<lparr>clock := clock (lab_net w) + max 0 d\<rparr>\<rparr>,
      e_probe = \<lambda>ip port w. w\<lparr>lab_dev := Traffic (clock (lab_net w) + 1) (lab_probed w) (lab_dev w)\<rparr>,
      e_gatherLocal = \<lambda>port w. lab_own w, e_gatherSRFLX = \<lambda>w. (lab_refl w, w),
      e_resolve = \<lambda>a w. resolve_numeric a, e_nonce = \<lambda>w. Some (replicate 24 (CHR 0x07)),
      e_range = \<lambda>ks w. ks\<rparr>"

lemmas lab_defs = lab_env_def lab_dev_ops_def lab_store_ops_def lab_router_ops_def lab_fs_ops_def
  on_dev_def on_net_def on_rt_def on_fs_def

lemma ranges_lab: "ranges lab_env"
  by (simp add: ranges_def lab_env_def)

lemma waits_lab: "waits lab_env"
  by (simp add: waits_def lab_env_def)

section \<open>Contracts\<close>

interpretation labfs: spoke_files lab_fs_ops "\<lambda>w. map_of (lab_fs w)"
  by unfold_locales
     (auto simp: lab_fs_ops_def on_fs_def mem_fs_def update_conv' delete_conv' split: option.splits)

interpretation labdev: wg_device lab_dev_ops
proof
  fix ps w e w' pub
  assume "dev_Apply lab_dev_ops ps w = (e, w')"
  then have a: "dev_Apply fake_dev ps (lab_dev w) = (e, lab_dev w')"
    by (auto simp: lab_dev_ops_def on_dev_def split: prod.splits)
  show "dev_Endpoint lab_dev_ops pub w' = dev_Endpoint lab_dev_ops pub w"
    if "\<forall>p \<in> set ps. pd_Pub p = pub \<longrightarrow> pd_Endpoint p = None" "dev_Endpoint lab_dev_ops pub w \<noteq> None"
      "pub \<in> wanted_keys ps"
    using fake.apply_keeps_endpoint [OF a that(1) _ that(3)] that(2) by (simp add: lab_dev_ops_def)
  show "dev_Handshake lab_dev_ops pub w' = dev_Handshake lab_dev_ops pub w" if "pub \<in> wanted_keys ps"
    using fake.apply_keeps_handshake [OF a that] by (simp add: lab_dev_ops_def)
next
  fix rs w e w' pub
  assume "dev_ApplyRoutes lab_dev_ops rs w = (e, w')"
  then have "dev_ApplyRoutes fake_dev rs (lab_dev w) = (e, lab_dev w')"
    by (auto simp: lab_dev_ops_def on_dev_def split: prod.splits)
  from fake.routes_keep [OF this] show "dev_Endpoint lab_dev_ops pub w' = dev_Endpoint lab_dev_ops pub w \<and>
      dev_Handshake lab_dev_ops pub w' = dev_Handshake lab_dev_ops pub w"
    by (simp add: lab_dev_ops_def)
qed

definition lab_ready :: "lab \<Rightarrow> bool" where
  "lab_ready w = mock_ready (lab_net w)"

definition lab_visible :: "lab \<Rightarrow> string \<Rightarrow> bytes set" where
  "lab_visible w = mock_visible (lab_net w)"

interpretation labkv: kv_store lab_store_ops lab_ready lab_visible
proof
  fix w key v
  assume r: "lab_ready w"
  show "\<exists>w'. put_op lab_store_ops key v w = (None, w') \<and> lab_ready w' \<and>
      lab_visible w' key = insert v (lab_visible w key) \<and>
      (\<forall>k. k \<noteq> key \<longrightarrow> lab_visible w' k = lab_visible w k)"
    using mock.put_ok [OF r [unfolded lab_ready_def], of key v]
    by (auto simp: lab_store_ops_def on_net_def lab_ready_def lab_visible_def)
  show "\<exists>vs w'. get_op lab_store_ops key w = (Inr vs, w') \<and> lab_ready w' \<and>
      set vs = lab_visible w key \<and> (\<forall>k. lab_visible w' k = lab_visible w k)"
    using mock.get_ok [OF r [unfolded lab_ready_def], of key]
    by (auto simp: lab_store_ops_def on_net_def lab_ready_def lab_visible_def)
qed

text \<open>What the daemon has applied since a given history: the planned peers up to their endpoints,
  sparing a set of live sessions.\<close>

definition spared ::
  "PeerDesire list list \<Rightarrow> bytes set \<Rightarrow> (string \<times> bytes \<times> ipnet list \<times> duration) list \<Rightarrow> lab \<Rightarrow> bool" where
  "spared h0 fresh ids w \<longleftrightarrow> (\<exists>applied. History (lab_dev w) = h0 @ applied \<and>
     (\<forall>ps \<in> set applied. spares fresh ps \<and> pd_ident ` set ps = set ids))"

lemma spared_same: "History (lab_dev w') = History (lab_dev w) \<Longrightarrow> spared h0 fresh ids w \<Longrightarrow> spared h0 fresh ids w'"
  by (simp add: spared_def)

lemma spared_apply:
  assumes "spared h0 fresh ids w" "spares fresh ps" "map pd_ident ps = ids" "dev_Apply lab_dev_ops ps w = (e, w')"
  shows "spared h0 fresh ids w'"
proof -
  obtain applied where h: "History (lab_dev w) = h0 @ applied"
    "\<forall>ps \<in> set applied. spares fresh ps \<and> pd_ident ` set ps = set ids"
    using assms(1) by (auto simp: spared_def)
  have "History (lab_dev w') \<in> {h0 @ applied, h0 @ (applied @ [sort_key pd_Name ps])}"
    using assms(4) h(1) by (auto simp: lab_dev_ops_def on_dev_def fake_dev_def fake_Apply_def split: option.splits)
  moreover have "spares fresh (sort_key pd_Name ps)" "pd_ident ` set (sort_key pd_Name ps) = set ids"
    using assms(2) by (auto simp: spares_def assms(3) [symmetric])
  ultimately show ?thesis
    unfolding spared_def using h(2) by (elim insertE emptyE) (auto intro!: exI [of _ "applied @ [sort_key pd_Name ps]"])
qed

lemma on_rt_dev: "on_rt f w = (e, w') \<Longrightarrow> lab_dev w' = lab_dev w"
  by (auto simp: on_rt_def split: prod.splits)

lemma on_fs_dev: "on_fs f w = (e, w') \<Longrightarrow> lab_dev w' = lab_dev w"
  by (auto simp: on_fs_def split: prod.splits)

lemma SaveSpokes_dev: "SaveSpokes lab_fs_ops path ns w = (e, w') \<Longrightarrow> lab_dev w' = lab_dev w"
  by (auto simp: SaveSpokes_def lab_fs_ops_def split: if_splits prod.splits option.splits dest!: on_fs_dev)

lemma Traffic_History [simp]: "History (Traffic now pub f) = History f"
  by (auto simp: Traffic_def split: option.splits)

lemmas lab_ops_simps = lab_env_def lab_router_ops_def

interpretation labrec: reconciler lab_env "spared h0 fresh ids" fresh ids for h0 fresh ids
proof (unfold_locales, goal_cases)
  case (1 w ps e w')
  then show ?case by (auto simp: lab_env_def elim: spared_apply)
next
  case (4 w rs e w')
  then have "History (lab_dev w') = History (lab_dev w)"
    by (auto simp: lab_env_def lab_dev_ops_def on_dev_def fake_dev_def fake_ApplyRoutes_def)
  from spared_same [OF this 4(1)] show ?case .
next
  case (10 w path ns e w')
  from 10(2) have "lab_dev w' = lab_dev w" by (auto simp: lab_env_def dest: SaveSpokes_dev)
  with 10(1) show ?case by (simp add: spared_def)
qed (auto simp: lab_ops_simps spared_def dest!: on_rt_dev)

definition lab_nat_ok :: "lab \<Rightarrow> bool" where
  "lab_nat_ok w = memnat.nat_ok (lab_rt w, lab_host w)"

definition lab_nat_srcs :: "lab \<Rightarrow> ip set" where
  "lab_nat_srcs w = memnat.nat_srcs (lab_rt w, lab_host w)"

lemma on_rt_lift:
  "on_rt f w = (e, w') \<Longrightarrow> f (lab_rt w, lab_host w) = (e, lab_rt w', lab_host w')"
  by (auto simp: on_rt_def split: prod.splits)

lemma lab_rtr:
  "rtr_Forwarding lab_router_ops w = (e, w') \<Longrightarrow>
     rtr_Forwarding (linux_router mem_fw) (lab_rt w, lab_host w) = (e, lab_rt w', lab_host w')"
  "rtr_AnnounceNAT lab_router_ops ov subs w = (e, w') \<Longrightarrow>
     rtr_AnnounceNAT (linux_router mem_fw) ov subs (lab_rt w, lab_host w) = (e, lab_rt w', lab_host w')"
  "rtr_EnsurePort lab_router_ops w = (e, w') \<Longrightarrow>
     rtr_EnsurePort (linux_router mem_fw) (lab_rt w, lab_host w) = (e, lab_rt w', lab_host w')"
  "rtr_AddSource lab_router_ops ip w = (e, w') \<Longrightarrow>
     rtr_AddSource (linux_router mem_fw) ip (lab_rt w, lab_host w) = (e, lab_rt w', lab_host w')"
  "rtr_RemoveSource lab_router_ops ip w = (e, w') \<Longrightarrow>
     rtr_RemoveSource (linux_router mem_fw) ip (lab_rt w, lab_host w) = (e, lab_rt w', lab_host w')"
  by (auto simp: lab_router_ops_def dest: on_rt_lift)

interpretation labnat: nat_sources lab_router_ops lab_nat_ok lab_nat_srcs
proof (unfold_locales, goal_cases)
  case (1 w e w')
  then show ?case using memnat.lnat.forwarding_srcs [OF _ lab_rtr(1)] by (simp add: lab_nat_ok_def lab_nat_srcs_def)
next
  case (2 w ov subs e w')
  then show ?case using memnat.lnat.announce_srcs [OF _ lab_rtr(2)] by (simp add: lab_nat_ok_def lab_nat_srcs_def)
next
  case (3 w e w')
  then show ?case using memnat.lnat.port_srcs [OF _ lab_rtr(3)] by (simp add: lab_nat_ok_def lab_nat_srcs_def)
next
  case (4 w ip e w')
  then show ?case using memnat.lnat.add_srcs [OF _ _ lab_rtr(4)] by (simp add: lab_nat_ok_def lab_nat_srcs_def)
next
  case (5 w ip e w')
  then show ?case using memnat.lnat.remove_srcs [OF _ _ lab_rtr(5)] by (simp add: lab_nat_ok_def lab_nat_srcs_def)
qed

end
