(* ===== verification/Lifecycle.thy ===== *)
theory Lifecycle
  imports Lab
begin

text \<open>
  The life of a daemon: what construction establishes and every tick keeps, its sequence
  numbers over a run and over a restart, what a whole tick does to live sessions, when the
  loop stops, and the way one node comes to know another.
\<close>

section \<open>The identity invariant\<close>

definition daemon_inv :: "crypto \<Rightarrow> Daemon \<Rightarrow> bool" where
  "daemon_inv cr dm \<longleftrightarrow>
     ValidateName (cfg_Name (dm_cfg dm)) = None \<and>
     NodeWGKey cr (dm_d dm) (cfg_Name (dm_cfg dm)) = Inr (dm_key dm) \<and>
     NodeIdentity cr (dm_d dm) (cfg_Name (dm_cfg dm)) = Inr (dm_id dm) \<and>
     OverlayIP cr (dm_d dm) (cfg_Name (dm_cfg dm)) (cfg_CIDR (dm_cfg dm)) = Inr (dm_myIP dm) \<and>
     cfg_IFace (dm_cfg dm) \<noteq> [] \<and> cfg_Port (dm_cfg dm) \<noteq> 0 \<and>
     0 < cfg_Poll (dm_cfg dm) \<and> 0 < cfg_StaleAfter (dm_cfg dm) \<and>
     0 < racePoll dm \<and> 0 \<le> raceWait dm \<and>
     distinct (spokes dm) \<and> distinct (map fst (spokeSrc dm))"

text \<open>The fields no operation of the daemon changes.\<close>

definition same_node :: "Daemon \<Rightarrow> Daemon \<Rightarrow> bool" where
  "same_node a b \<longleftrightarrow> dm_cfg a = dm_cfg b \<and> dm_d a = dm_d b \<and> dm_id a = dm_id b \<and> dm_key a = dm_key b \<and>
     dm_myIP a = dm_myIP b \<and> dm_store a = dm_store b \<and> racePoll a = racePoll b \<and> raceWait a = raceWait b"

lemma same_node_trans: "same_node a b \<Longrightarrow> same_node b c \<Longrightarrow> same_node a c"
  by (simp add: same_node_def)

definition books_ok :: "Daemon \<Rightarrow> bool" where
  "books_ok dm \<longleftrightarrow> distinct (spokes dm) \<and> distinct (map fst (spokeSrc dm))"

lemma daemon_inv_same: "daemon_inv cr a \<Longrightarrow> same_node a b \<Longrightarrow> books_ok b \<Longrightarrow> daemon_inv cr b"
  by (simp add: daemon_inv_def same_node_def books_ok_def)

lemma LoadSpokes_distinct: "LoadSpokes fs path w = Inr s \<Longrightarrow> distinct s"
  by (auto simp: LoadSpokes_def parse_spokes_def distinct_foldl_add_line split: if_splits sum.splits)

lemma with_defaults_fields:
  "cfg_IFace (with_defaults c) \<noteq> []" "cfg_Port (with_defaults c) \<noteq> 0"
  "0 < cfg_Poll (with_defaults c)" "0 < cfg_StaleAfter (with_defaults c)"
  by (simp_all add: with_defaults_def sec_def)

lemma cfg_Name_with_defaults [simp]: "cfg_Name (with_defaults c) = cfg_Name c"
  by (simp add: with_defaults_def)

lemma NewDaemon_InrD:
  assumes "NewDaemon cr env cfg d st w = Inr dm"
  shows "dm_cfg dm = (with_defaults cfg)\<lparr>cfg_Name := NormalizeName (cfg_Name cfg)\<rparr> \<and>
     ValidateName (NormalizeName (cfg_Name cfg)) = None \<and> dm_d dm = d \<and> NodeWGKey cr d (cfg_Name cfg) = Inr (dm_key dm) \<and>
     NodeIdentity cr d (cfg_Name cfg) = Inr (dm_id dm) \<and>
     OverlayIP cr d (cfg_Name cfg) (cfg_CIDR (with_defaults cfg)) = Inr (dm_myIP dm) \<and>
     racePoll dm = 150000000 \<and> raceWait dm = 2500000000 \<and> distinct (spokes dm) \<and> spokeSrc dm = [] \<and>
     dm_seq dm = word_of_int (e_now env w)"
proof -
  define c where "c = with_defaults cfg"
  have c: "cfg_Name c = cfg_Name cfg" by (simp add: c_def)
  show ?thesis
    using assms unfolding NewDaemon_def c_def [symmetric] Let_def c
    by (auto simp: c LoadSpokes_distinct split: option.splits sum.splits)
qed

lemma NewDaemon_inv: "NewDaemon cr env cfg d st w = Inr dm \<Longrightarrow> daemon_inv cr dm"
  using with_defaults_fields [of cfg] by (auto simp: daemon_inv_def dest!: NewDaemon_InrD)

lemma reloadSpokes_node:
  "same_node dm (reloadSpokes env dm w)" "books_ok dm \<Longrightarrow> books_ok (reloadSpokes env dm w)"
  "dm_seq (reloadSpokes env dm w) = dm_seq dm"
  by (auto simp: reloadSpokes_def same_node_def books_ok_def LoadSpokes_distinct split: sum.splits)

lemma nextSeq_node:
  "nextSeq now dm = (s, dm') \<Longrightarrow> same_node dm dm' \<and> (books_ok dm \<longrightarrow> books_ok dm') \<and> dm_seq dm' = s"
  by (auto simp: nextSeq_def Let_def same_node_def books_ok_def)

lemma tick_publish_node:
  assumes "tick_publish cr env dm w = (r, dm', w')"
  shows "same_node dm dm' \<and> (books_ok dm \<longrightarrow> books_ok dm')"
proof -
  obtain s where n: "nextSeq (e_now env (snd (e_gatherSRFLX env w))) (reloadSpokes env dm w) = (s, dm')"
    using assms by (auto simp: tick_publish_def Let_def split: prod.splits sum.splits)
  from nextSeq_node [OF n] reloadSpokes_node(1,2) [where env = env and dm = dm and w = w] show ?thesis
    by (blast intro: same_node_trans)
qed

lemma drop_sources_distinct:
  "drop_sources rt want ns src w = (src', w') \<Longrightarrow> distinct (map fst src) \<Longrightarrow> distinct (map fst src')"
  by (induction ns arbitrary: src w) (auto simp: distinct_delete split: if_splits)

lemma add_sources_distinct:
  "add_sources rt want ns src w = (src', w') \<Longrightarrow> distinct (map fst src) \<Longrightarrow> distinct (map fst src')"
  by (induction ns arbitrary: src w) (auto simp: distinct_update split: if_splits option.splits prod.splits)

lemma syncNat_node:
  assumes "syncNat cr env dm w = (dm', w')"
  shows "same_node dm dm' \<and> (books_ok dm \<longrightarrow> books_ok dm') \<and> dm_seq dm' = dm_seq dm \<and> spokes dm' = spokes dm"
  using assms
  by (auto simp: syncNat_def Let_def same_node_def books_ok_def split: prod.splits
      dest!: drop_sources_distinct add_sources_distinct)

lemma evictStaleSpokes_node:
  assumes "evictStaleSpokes cr env dm w = (dm', w')"
  shows "same_node dm dm' \<and> (books_ok dm \<longrightarrow> books_ok dm') \<and> dm_seq dm' = dm_seq dm"
  using assms by (auto simp: evictStaleSpokes_def Let_def same_node_def books_ok_def split: if_splits)

lemma tick_apply_node:
  assumes "tick_apply cr env dm plans w = (e, dm', w')"
  shows "same_node dm dm' \<and> (books_ok dm \<longrightarrow> books_ok dm') \<and> dm_seq dm' = dm_seq dm"
proof -
  have l: "same_node dm (dm\<lparr>lastGood := lg\<rparr>)" "books_ok (dm\<lparr>lastGood := lg\<rparr>) = books_ok dm" for lg
    by (simp_all add: same_node_def books_ok_def)
  have r: "same_node dm dm" by (simp add: same_node_def)
  consider "dm' = dm" | lg w3 dm1 w4 where "syncNat cr env (dm\<lparr>lastGood := lg\<rparr>) w3 = (dm1, w4)"
    "evictStaleSpokes cr env dm1 w4 = (dm', w')"
    using assms by (auto simp: tick_apply_def Let_def split: prod.splits option.splits)
  then show ?thesis
  proof cases
    case (2 lg w3 dm1 w4)
    from syncNat_node [OF 2(1)] evictStaleSpokes_node [OF 2(2)] l [of lg] show ?thesis
      by (auto intro: same_node_trans)
  qed (simp add: r)
qed

text \<open>Every outcome of a tick, failures included.\<close>

lemma Tick_cases:
  assumes "Tick cr env dm w = (e, dm', w')"
  obtains r dm1 w1 where "tick_publish cr env dm w = (r, dm1, w1)"
    "same_node dm1 dm' \<and> (books_ok dm1 \<longrightarrow> books_ok dm') \<and> dm_seq dm' = dm_seq dm1"
proof -
  obtain r dm1 w1 where p: "tick_publish cr env dm w = (r, dm1, w1)" by (metis prod_cases3)
  consider "dm' = dm1" | plans w2 where "tick_apply cr env dm1 plans w2 = (e, dm', w')"
    using assms p by (auto simp: Tick_def split: prod.splits sum.splits)
  then have "same_node dm1 dm' \<and> (books_ok dm1 \<longrightarrow> books_ok dm') \<and> dm_seq dm' = dm_seq dm1"
    by cases (auto simp: same_node_def dest: tick_apply_node)
  with p that show ?thesis by blast
qed

lemma Tick_inv:
  assumes "Tick cr env dm w = (e, dm', w')" "daemon_inv cr dm"
  shows "daemon_inv cr dm' \<and> same_node dm dm'"
proof -
  obtain r dm1 w1 where p: "tick_publish cr env dm w = (r, dm1, w1)"
    and t: "same_node dm1 dm' \<and> (books_ok dm1 \<longrightarrow> books_ok dm') \<and> dm_seq dm' = dm_seq dm1"
    using Tick_cases [OF assms(1)] by blast
  have "books_ok dm" using assms(2) by (simp add: daemon_inv_def books_ok_def)
  with tick_publish_node [OF p] t have "same_node dm dm'" "books_ok dm'" by (auto intro: same_node_trans)
  with daemon_inv_same [OF assms(2)] show ?thesis by blast
qed

text \<open>The daemons a process goes through. Between two ticks the world may change at will.\<close>

inductive daemon_reach :: "crypto \<Rightarrow> 'w env \<Rightarrow> Daemon \<Rightarrow> bool" for cr env where
  reach_new: "NewDaemon cr env cfg d st w = Inr dm \<Longrightarrow> daemon_reach cr env dm"
| reach_tick: "daemon_reach cr env dm \<Longrightarrow> Tick cr env dm w = (e, dm', w') \<Longrightarrow> daemon_reach cr env dm'"

lemma daemon_reach_inv: "daemon_reach cr env dm \<Longrightarrow> daemon_inv cr dm"
  by (induction rule: daemon_reach.induct) (auto dest: NewDaemon_inv Tick_inv)

lemma own_record_binds:
  assumes "daemon_inv cr dm" "crypto_ok cr"
  shows "VerifyBinding cr (dm_d dm) (cfg_CIDR (dm_cfg dm)) (Record_Sign cr (dm_id dm) (own_record env dm mine sq w)) = None"
  using assms
  by (intro VerifyBinding_own [of cr _ "cfg_Name (dm_cfg dm)" "dm_id dm" _ "dm_myIP dm"])
     (auto simp: daemon_inv_def crypto_ok_def Record_Sign_def own_record_def Let_def)

section \<open>Sequence numbers\<close>

lemma tick_publish_seq:
  assumes "tick_publish cr env dm w = (r, dm', w')" "dm_seq dm \<noteq> 0"
  shows "dm_seq dm' = dm_seq dm + 1"
proof -
  obtain s where n: "nextSeq (e_now env (snd (e_gatherSRFLX env w))) (reloadSpokes env dm w) = (s, dm')"
    using assms(1) by (auto simp: tick_publish_def Let_def split: prod.splits sum.splits)
  then show ?thesis
    using assms(2) reloadSpokes_node(3) [where env = env and dm = dm and w = w] by (auto simp: nextSeq_def Let_def)
qed

lemma Tick_seq:
  assumes "Tick cr env dm w = (e, dm', w')" "dm_seq dm \<noteq> 0"
  shows "dm_seq dm' = dm_seq dm + 1"
  using Tick_cases [OF assms(1)] tick_publish_seq [OF _ assms(2)] by metis

lemma unat_suc: "unat (a :: 64 word) + 1 < 2 ^ 64 \<Longrightarrow> unat (a + 1) = unat a + 1"
  by (simp add: unat_word_ariths)

lemma Run_seq:
  assumes "Run cr env evs dm w = (r, dm', w')" "0 < unat (dm_seq dm)" "unat (dm_seq dm) + length evs < 2 ^ 64"
  shows "unat (dm_seq dm) \<le> unat (dm_seq dm') \<and> unat (dm_seq dm') \<le> unat (dm_seq dm) + length evs"
  using assms
proof (induction evs arbitrary: dm w)
  case (Cons ev evs)
  show ?case
  proof (cases ev)
    case CtxDone
    with Cons.prems(1) show ?thesis by simp
  next
    case TickerC
    obtain e dm1 w1 where t: "Tick cr env dm w = (e, dm1, w1)" by (metis prod_cases3)
    have "dm_seq dm \<noteq> 0" using Cons.prems(2) by auto
    from Tick_seq [OF t this] have s: "unat (dm_seq dm1) = unat (dm_seq dm) + 1"
      using unat_suc [of "dm_seq dm"] Cons.prems(3) by simp
    consider "dm' = dm1" | "Run cr env evs dm1 w1 = (r, dm', w')"
      using Cons.prems(1) t TickerC by (auto split: option.splits if_splits)
    then show ?thesis
    proof cases
      case 2
      from Cons.IH [OF this] Cons.prems(3) s show ?thesis by simp
    qed (use s in simp)
  qed
qed simp

lemma NewDaemon_seq:
  assumes "NewDaemon cr env cfg d st w = Inr dm" "0 \<le> e_now env w" "e_now env w < 2 ^ 64"
  shows "unat (dm_seq dm) = nat (e_now env w)"
  using NewDaemon_InrD [OF assms(1)] assms(2,3) by (simp add: unat_eq_nat_uint uint_word_of_int)

section \<open>A whole tick and the live sessions\<close>

interpretation labframe: store_frame lab_store_ops "\<lambda>w. lab_dev w = d" for d
  by unfold_locales (auto simp: lab_store_ops_def on_net_def split: prod.splits)

lemma tick_publish_dev:
  assumes "tick_publish cr lab_env dm w = (r, dm', w')"
  shows "lab_dev w' = lab_dev w"
proof -
  have p: "lab_dev (snd (Publish lab_store_ops st key v w)) = lab_dev w" for st key v
    using labframe.Publish_frame [OF refl] by (metis prod.collapse)
  from assms show ?thesis
    by (auto simp: tick_publish_def Let_def lab_env_def p split: sum.splits prod.splits)
qed

lemma buildPlans_dev:
  assumes "buildPlans cr lab_env dm mine w = (r, w')"
  shows "lab_dev w' = lab_dev w"
  using assms
  by (auto simp: buildPlans_def lab_env_def split: sum.splits prod.splits dest: labframe.FetchStable_frame [OF refl])

lemma buildPlans_pub:
  assumes "buildPlans cr env dm mine w = (Inr plans, w')" "p \<in> set plans"
  shows "pd_Pub (pp_desire p) = pp_pub p"
proof -
  obtain peers w1 where "plans = plans_of cr env dm mine peers w1"
    using assms(1) by (auto simp: buildPlans_def split: sum.splits prod.splits)
  with assms(2) have "p \<in> set (plans_of cr env dm mine peers w1)" by simp
  from plans_of_name [OF this] show ?thesis by (auto dest!: roster_plan_SomeD spoke_plan_SomeD)
qed

section \<open>Discovery\<close>

text \<open>On a working store the first attempt of a publication is the only one.\<close>

context kv_store
begin

lemma Publish_once:
  assumes "ready s"
  shows "\<exists>s1 vs s2. put_op ops key v s = (None, s1) \<and> get_op ops key s1 = (Inr vs, s2) \<and> Publish ops r key v s = (None, s2)"
proof -
  obtain s1 where p: "put_op ops key v s = (None, s1)" "ready s1" "v \<in> visible s1 key"
    using put_ok [OF assms, of key v] by auto
  obtain vs s2 where "get_op ops key s1 = (Inr vs, s2)" "v \<in> set vs"
    using get_ok [OF p(2), of key] p(3) by auto
  with p(1) show ?thesis by (simp add: Publish_def Publish_loop.simps [of ops r key v 0 s] confirm_def)
qed

end

text \<open>What a node announces, and that its tick puts it into the store.\<close>

lemma tick_publish_publishes:
  assumes "tick_publish cr lab_env dm w = (r, dm', w')" "lab_ready w"
  shows "\<exists>v st. sealRecord cr (Some (replicate 24 (CHR 0x07))) (dm_d dm)
       (Record_Sign cr (dm_id dm) (own_record lab_env dm (lab_own w @ lab_refl w) (dm_seq dm') w)) = Inr v \<and>
     Publish lab_store_ops st (RosterKey cr (dm_d dm)) v w = (None, w')"
proof -
  let ?mine = "lab_own w @ lab_refl w"
  obtain sq dm1 where n: "nextSeq (e_now lab_env w) (reloadSpokes lab_env dm w) = (sq, dm1)" by fastforce
  have same: "same_node dm dm1" "dm_seq dm1 = sq"
    using nextSeq_node [OF n] reloadSpokes_node(1) [where env = lab_env and dm = dm and w = w]
    by (auto intro: same_node_trans)
  then have o: "own_record lab_env dm1 mine sq w = own_record lab_env dm mine sq w" for mine
    by (simp add: own_record_def same_node_def)
  obtain v where v: "sealRecord cr (Some (replicate 24 (CHR 0x07))) (dm_d dm)
      (Record_Sign cr (dm_id dm) (own_record lab_env dm ?mine sq w)) = Inr v"
    by (simp add: sealRecord_def Seal_def sealRoom_def)
  obtain w1 where p: "Publish lab_store_ops (dm_store dm1) (RosterKey cr (dm_d dm)) v w = (None, w1)"
    using labkv.Publish_once [OF assms(2), of "RosterKey cr (dm_d dm)" v "dm_store dm1"] by blast
  have env: "e_nonce lab_env w = Some (replicate 24 (CHR 0x07))" "e_store lab_env = lab_store_ops"
    "e_gatherSRFLX lab_env w = (lab_refl w, w)" "e_gatherLocal lab_env port w = lab_own w" for port
    by (simp_all add: lab_env_def)
  have "dm_d dm1 = dm_d dm" "dm_id dm1 = dm_id dm" using same(1) by (simp_all add: same_node_def)
  then have "dm' = dm1 \<and> w' = w1"
    using assms(1) by (simp add: tick_publish_def Let_def env n o v p)
  with v p same(2) show ?thesis by auto
qed

lemma tick_publish_visible:
  assumes "tick_publish cr lab_env dm w = (r, dm', w')" "lab_ready w"
  shows "\<exists>v. sealRecord cr (Some (replicate 24 (CHR 0x07))) (dm_d dm)
       (Record_Sign cr (dm_id dm) (own_record lab_env dm (lab_own w @ lab_refl w) (dm_seq dm') w)) = Inr v \<and>
     v \<in> lab_visible w' (RosterKey cr (dm_d dm)) \<and> lab_ready w'"
proof -
  obtain v st where v: "sealRecord cr (Some (replicate 24 (CHR 0x07))) (dm_d dm)
       (Record_Sign cr (dm_id dm) (own_record lab_env dm (lab_own w @ lab_refl w) (dm_seq dm') w)) = Inr v"
    "Publish lab_store_ops st (RosterKey cr (dm_d dm)) v w = (None, w')"
    using tick_publish_publishes [OF assms] by blast
  then show ?thesis using labkv.Publish_visible [OF assms(2), of st "RosterKey cr (dm_d dm)" v] by auto
qed

text \<open>What the record of a node needs to survive its JSON form.\<close>

definition announceable :: "Daemon \<Rightarrow> lab \<Rightarrow> bool" where
  "announceable dm w \<longleftrightarrow>
     list_all (\<lambda>c. score c = 0 \<and> ascii (Type c) \<and> ascii (Addr c)) (lab_own w @ lab_refl w) \<and>
     list_all ascii (cfg_Announce (dm_cfg dm)) \<and>
     0 \<le> cfg_Port (dm_cfg dm) \<and> cfg_Port (dm_cfg dm) < 65536 \<and>
     0 \<le> unix_sec (clock (lab_net w)) \<and> unix_sec (clock (lab_net w)) < 9223372036854775808"

lemma ascii_valid_name: "ValidateName n = None \<Longrightarrow> ascii n"
  by (auto simp: ValidateName_def ascii_def name_char_def is_lower_def is_digit_def list_all_iff split: if_splits)

lemma wire_ok_own:
  assumes "announceable dm w" "daemon_inv cr dm"
  shows "wire_ok (own_record lab_env dm (lab_own w @ lab_refl w) sq w)"
proof -
  have "length (dm_myIP dm) = 4" using assms(2) by (auto simp: daemon_inv_def dest: length_OverlayIP)
  then have "ascii (ip_string (dm_myIP dm))" by (simp add: ascii_dotted)
  moreover have "ascii (cfg_Name (dm_cfg dm))" using assms(2) by (simp add: daemon_inv_def ascii_valid_name)
  moreover have "e_now lab_env w = clock (lab_net w)" by (simp add: lab_env_def)
  ultimately show ?thesis
    using assms(1) by (simp add: wire_ok_def own_record_def announceable_def)
qed

text \<open>The other node plans a peer for the first one: with the public key that belongs to the
  private key of the first, and its address among the allowed ones.\<close>

lemma buildPlans_finds:
  assumes "lab_ready w" "v \<in> lab_visible w (RosterKey cr (dm_d dm))" "ctx_op lab_store_ops w = None"
    "NewRoster (dm_d dm) (cfg_Name (dm_cfg dm)) (Some (cfg_CIDR (dm_cfg dm))) = Inr ro"
    "accept cr ro (freshBefore ro (clock (lab_net w))) v = Some r" "derivable cr dm (Name r)"
    "distinct (spokes dm)"
  shows "\<exists>plans w2. buildPlans cr lab_env dm mine w = (Inr plans, w2) \<and> (\<exists>p \<in> set plans. pp_name p = Name r)"
proof -
  have d: "ro_d ro = dm_d dm" using assms(4) by (auto simp: NewRoster_def)
  obtain view w2 where f: "FetchStable cr lab_store_ops (\<lambda>w. clock (lab_net w)) ro 3 (400 * 1000000) w = (Inr view, w2)"
    and n: "map_of view (Name r) \<noteq> None"
    using labkv.FetchStable_finds [OF assms(1), of v cr ro "\<lambda>w. clock (lab_net w)" r 3 "400 * 1000000"]
      assms(2,3,5) d by auto
  let ?plans = "plans_of cr lab_env dm mine view w2"
  have b: "buildPlans cr lab_env dm mine w = (Inr ?plans, w2)"
    using f assms(4) by (simp add: buildPlans_def) (simp add: lab_env_def)
  have "Name r \<in> fst ` set view" using n by (auto simp: map_of_eq_None_iff)
  then have "Name r \<in> pp_name ` set ?plans"
    unfolding plans_of_names [OF ranges_lab assms(7)] using assms(6) by simp
  with b show ?thesis by auto
qed

lemma buildPlans_peer:
  assumes "buildPlans cr env dm mine w = (Inr plans, w')" "p \<in> set plans"
  shows "NodeWGPubKey cr (dm_d dm) (pp_name p) = Inr (pp_pub p) \<and> pd_Pub (pp_desire p) = pp_pub p \<and>
     pd_Name (pp_desire p) = pp_name p \<and>
     (\<exists>ip. OverlayIP cr (dm_d dm) (pp_name p) (cfg_CIDR (dm_cfg dm)) = Inr ip \<and> host32 ip \<in> set (pd_AllowedIPs (pp_desire p)))"
proof -
  obtain peers w1 where "plans = plans_of cr env dm mine peers w1"
    using assms(1) by (auto simp: buildPlans_def split: sum.splits prod.splits)
  with assms(2) have "p \<in> set (plans_of cr env dm mine peers w1)" by simp
  from plans_of_name [OF this] show ?thesis by (auto dest!: roster_plan_SomeD spoke_plan_SomeD)
qed

text \<open>As long as a reader sees the announcement of a node, less than a day old, it plans a peer
  for that node.\<close>

lemma announcement_is_planned:
  assumes cr: "crypto_ok cr" and ia: "daemon_inv cr a" and ib: "daemon_inv cr b"
    and same: "dm_d b = dm_d a" "cfg_CIDR (dm_cfg b) = cfg_CIDR (dm_cfg a)" "cfg_Name (dm_cfg a) \<noteq> cfg_Name (dm_cfg b)"
    and ann: "announceable a w"
    and v: "sealRecord cr (Some (replicate 24 (CHR 0x07))) (dm_d a)
        (Record_Sign cr (dm_id a) (own_record lab_env a (lab_own w @ lab_refl w) sq w)) = Inr v"
    and seen: "lab_ready w2" "v \<in> lab_visible w2 (RosterKey cr (dm_d a))" "deadline (lab_net w2) = None"
      "clock (lab_net w2) \<le> clock (lab_net w) + 24 * 3600 * sec"
  shows "\<exists>plans w3. buildPlans cr lab_env b mine w2 = (Inr plans, w3) \<and>
     (\<exists>p \<in> set plans. pp_name p = cfg_Name (dm_cfg a) \<and> pd_Name (pp_desire p) = cfg_Name (dm_cfg a) \<and>
        pd_Pub (pp_desire p) = wg_public cr (dm_key a) \<and>
        host32 (dm_myIP a) \<in> set (pd_AllowedIPs (pp_desire p)))"
proof -
  let ?n = "cfg_Name (dm_cfg a)" and ?cidr = "cfg_CIDR (dm_cfg a)"
  let ?r = "own_record lab_env a (lab_own w @ lab_refl w) sq w"
  obtain ro where ro: "NewRoster (dm_d b) (cfg_Name (dm_cfg b)) (Some (cfg_CIDR (dm_cfg b))) = Inr ro"
    "ro_d ro = dm_d a" "ro_cidr ro = ?cidr" "me ro = cfg_Name (dm_cfg b)" "maxAge ro = 24 * 3600 * sec"
    using ib by (auto simp: NewRoster_def same daemon_inv_def NormalizeName_valid)
  have fields: "Name ?r = ?n" "IP ?r = ip_string (dm_myIP a)" "TS ?r = unix_sec (clock (lab_net w))"
    by (simp_all add: own_record_def) (simp add: lab_env_def)
  have "clock (lab_net w2) - maxAge ro \<le> clock (lab_net w)" using seen(4) ro(5) by simp
  then have f: "freshBefore ro (clock (lab_net w2)) \<le> TS ?r"
    unfolding fields freshBefore_def by (simp add: unix_sec_def sec_def zdiv_mono1)
  have "accept cr ro (freshBefore ro (clock (lab_net w2))) v = Some (?r\<lparr>PK := PublicString cr (dm_id a), Sig := []\<rparr>)"
    by (rule accept_own [OF cr wire_ok_own [OF ann ia], where nonce = "replicate 24 (CHR 0x07)" and ip = "dm_myIP a"])
       (use ia v f same(3) in \<open>simp_all add: fields ro daemon_inv_def\<close>)
  moreover have "v \<in> lab_visible w2 (RosterKey cr (dm_d b))" "ctx_op lab_store_ops w2 = None"
    using seen(2,3) same(1) by (simp_all add: lab_store_ops_def mock_ops_def ctx_err_def)
  moreover have "derivable cr b ?n" using ia same(1,2) by (auto simp: derivable_def daemon_inv_def)
  ultimately obtain plans w3 p where p: "buildPlans cr lab_env b mine w2 = (Inr plans, w3)" "p \<in> set plans" "pp_name p = ?n"
    using buildPlans_finds [where w = w2 and v = v and dm = b and ro = ro and mine = mine] ro(1) ib fields(1) seen(1)
    by (fastforce simp: daemon_inv_def)
  from buildPlans_peer [OF p(1,2)] ia same(1,2) p(3)
  have "pd_Pub (pp_desire p) = wg_public cr (dm_key a)" "host32 (dm_myIP a) \<in> set (pd_AllowedIPs (pp_desire p))"
      "pd_Name (pp_desire p) = ?n"
    by (auto simp: daemon_inv_def NodeWGPubKey_def)
  with p show ?thesis by blast
qed

section \<open>A node in memory\<close>

definition demo_lab :: lab where
  "demo_lab = \<lparr>lab_dev = NewFakeDevice, lab_net = empty_world, lab_rt = demo_router, lab_host = empty_host,
     lab_fs = [], lab_probed = [], lab_own = [mk_cand CandHost ''192.168.1.2:51820''], lab_refl = []\<rparr>"

definition demo_cfg :: "string \<Rightarrow> Config" where
  "demo_cfg n = \<lparr>cfg_Name = n, cfg_IFace = [], cfg_CIDR = demo_cidr, cfg_Port = 0, cfg_MTU = 0, cfg_Poll = 0,
     cfg_StaleAfter = 0, cfg_StunServers = [], cfg_StunTimeout = 0, cfg_Announce = [''192.168.5.0/24''], cfg_SpokesFile = []\<rparr>"

lemma demo_daemon:
  assumes "ValidateName (NormalizeName n) = None"
  shows "\<exists>dm. NewDaemon demo_crypto lab_env (demo_cfg n) demo_d NewReliable w = Inr dm \<and>
     dm_d dm = demo_d \<and> dm_cfg dm = (with_defaults (demo_cfg n))\<lparr>cfg_Name := NormalizeName n\<rparr>"
proof -
  have c: "cfg_CIDR (with_defaults (demo_cfg n)) = demo_cidr" "cfg_Name (demo_cfg n) = n"
    by (simp_all add: with_defaults_def demo_cfg_def)
  obtain ip where ip: "OverlayIP demo_crypto demo_d n demo_cidr = Inr ip" using demo_overlay [OF assms] by blast
  obtain key where k: "NodeWGKey demo_crypto demo_d n = Inr key" using OverlayIP_InrD [OF ip] by blast
  obtain i where i: "NodeIdentity demo_crypto demo_d n = Inr i" using assms by (simp add: NodeIdentity_def)
  show ?thesis using assms ip k i by (simp add: NewDaemon_def Let_def c)
qed

lemma demo_ready: "lab_ready demo_lab"
  by (simp add: lab_ready_def demo_lab_def mock_ready_def empty_world_def mock_inv_new)

text \<open>Once the context has ended no fetch is made and the plans are the spokes.\<close>

lemma buildPlans_no_time:
  assumes "ctx_op lab_store_ops w \<noteq> None"
  shows "buildPlans cr lab_env dm mine w = (Inr (plans_of cr lab_env dm mine [] w), w)"
proof -
  have "FetchStable cr lab_store_ops clk ro 3 pause w = (Inr [], w)" for clk ro pause
    using assms by (simp add: FetchStable_def stable_result_def numeral_3_eq_3)
  then show ?thesis by (simp add: buildPlans_def NewRoster_def) (simp add: lab_env_def)
qed

text \<open>A node on a Linux device with an empty roster, for any kernel.\<close>

definition host_env :: "'k kernel_ops \<Rightarrow> (LinuxDevice \<times> 'k) env" where
  "host_env ko =
     \<lparr>e_dev = linux_dev ko,
      e_store = \<lparr>put_op = \<lambda>key v s. (None, s), get_op = \<lambda>key s. (Inr [], s), sleep_op = \<lambda>d s. (None, s), ctx_op = \<lambda>s. None\<rparr>,
      e_router = noopRouter,
      e_fs = \<lparr>read_file = \<lambda>p w. Inl True, mkdir_all = \<lambda>d w. (None, w), write_file = \<lambda>p b w. (None, w), rename_file = \<lambda>p q w. (None, w)\<rparr>,
      e_now = \<lambda>w. 1000, e_sleep = \<lambda>d w. w, e_probe = \<lambda>ip port w. w, e_gatherLocal = \<lambda>port w. [], e_gatherSRFLX = \<lambda>w. ([], w),
      e_resolve = \<lambda>a w. None, e_nonce = \<lambda>w. Some (replicate 24 (CHR 0x07)), e_range = \<lambda>ks w. ks\<rparr>"

lemma host_fields:
  "e_dev (host_env ko) = linux_dev ko" "e_gatherSRFLX (host_env ko) w = ([], w)" "e_gatherLocal (host_env ko) port w = []"
  "e_nonce (host_env ko) w = Some (replicate 24 (CHR 0x07))"
  by (simp_all add: host_env_def)

interpretation hostframe: store_frame "e_store (host_env ko)" "\<lambda>w. w = s" for ko s
  by unfold_locales (auto simp: host_env_def)

lemma host_publish: "snd (Publish (e_store (host_env ko)) st key v w) = w"
  using hostframe.Publish_frame [OF refl] by (metis prod.collapse)

lemma host_fetch: "FetchStable cr (e_store (host_env ko)) clk ro 3 pause w = (Inr [], w)"
  by (simp add: host_env_def FetchStable_def numeral_3_eq_3 Fetch_def Read_def fold_values_def merge_view_def
      stable_result_def Let_def)

definition demo_node :: Daemon where
  "demo_node = \<lparr>dm_cfg = with_defaults (demo_cfg ''beta''), dm_d = demo_d, dm_id = \<lparr>seed = ''s''\<rparr>, dm_key = ''k'', dm_myIP = [],
     dm_store = NewReliable, spokeSrc = [], spokes = [], fwdWarned = False, dm_seq = 1, lastGood = [], racePoll = 1, raceWait = 1\<rparr>"

definition demo_plan :: peerPlan where
  "demo_plan = \<lparr>pp_name = ''b'', pp_rec = zero_record, pp_pub = ''B'',
     pp_desire = \<lparr>pd_Name = ''b'', pd_Pub = ''B'', pd_Endpoint = None, pd_AllowedIPs = [demo_cidr], pd_Keepalive = 0\<rparr>,
     pp_ordered = [], pp_winner = no_cand, pp_haveWin = False, pp_freshNow = False\<rparr>"

definition demo_ld :: LinuxDevice where
  "demo_ld = \<lparr>ld_iface = ''wgmesh0'', ld_link = None, ld_routes = []\<rparr>"

section \<open>Properties\<close>



text \<open>The record a daemon signs in a tick passes the binding check of every node with the
  same secret and overlay range.\<close>

theorem own_record_passes_binding:
  assumes "daemon_reach cr env dm" "crypto_ok cr"
  shows "VerifyBinding cr (dm_d dm) (cfg_CIDR (dm_cfg dm)) (Record_Sign cr (dm_id dm) (own_record env' dm mine sq w)) = None"
  using own_record_binds [OF daemon_reach_inv [OF assms(1)] assms(2)] .

theorem own_record_passes_binding_witness:
  "\<exists>dm. NewDaemon demo_crypto lab_env (demo_cfg ''beta'') demo_d NewReliable demo_lab = Inr dm \<and>
     VerifyBinding demo_crypto (dm_d dm) (cfg_CIDR (dm_cfg dm))
       (Record_Sign demo_crypto (dm_id dm) (own_record lab_env dm [] 1 demo_lab)) = None"
proof -
  obtain dm where n: "NewDaemon demo_crypto lab_env (demo_cfg ''beta'') demo_d NewReliable demo_lab = Inr dm"
    using demo_daemon [OF demo_names(2)] by blast
  with own_record_passes_binding [OF reach_new [OF n] crypto_ok_demo, of lab_env "[]" 1 demo_lab]
  show ?thesis by (intro exI [of _ dm] conjI)
qed

text \<open>A node becomes a peer. When one node has announced itself in a tick, every other node
  of the mesh that next plans its peers from the same store, with the announcement less than a
  day old, plans one for it: under the public key of the private key the first node holds, and
  with the overlay address of that node among the allowed ones.\<close>

theorem announced_node_becomes_peer:
  assumes cr: "crypto_ok cr" and a: "daemon_reach cr ea a" and b: "daemon_reach cr eb b"
    and same: "dm_d b = dm_d a" "cfg_CIDR (dm_cfg b) = cfg_CIDR (dm_cfg a)" "cfg_Name (dm_cfg a) \<noteq> cfg_Name (dm_cfg b)"
    and w: "lab_ready w" "announceable a w" and t: "tick_publish cr lab_env a w = (r, a', w1)"
    and net: "lab_net w2 = lab_net w1" "deadline (lab_net w1) = None"
      "clock (lab_net w1) \<le> clock (lab_net w) + 24 * 3600 * sec"
  shows "\<exists>plans w3. buildPlans cr lab_env b mine w2 = (Inr plans, w3) \<and>
     (\<exists>p \<in> set plans. pp_name p = cfg_Name (dm_cfg a) \<and> pd_Pub (pp_desire p) = wg_public cr (dm_key a) \<and>
        host32 (dm_myIP a) \<in> set (pd_AllowedIPs (pp_desire p)))"
proof -
  have i: "daemon_inv cr a" "daemon_inv cr b" using a b by (auto dest: daemon_reach_inv)
  obtain v where v: "sealRecord cr (Some (replicate 24 (CHR 0x07))) (dm_d a)
      (Record_Sign cr (dm_id a) (own_record lab_env a (lab_own w @ lab_refl w) (dm_seq a') w)) = Inr v"
    "v \<in> lab_visible w1 (RosterKey cr (dm_d a))" "lab_ready w1"
    using tick_publish_visible [OF t w(1)] by blast
  have "\<exists>plans w3. buildPlans cr lab_env b mine w2 = (Inr plans, w3) \<and>
     (\<exists>p \<in> set plans. pp_name p = cfg_Name (dm_cfg a) \<and> pd_Name (pp_desire p) = cfg_Name (dm_cfg a) \<and>
        pd_Pub (pp_desire p) = wg_public cr (dm_key a) \<and> host32 (dm_myIP a) \<in> set (pd_AllowedIPs (pp_desire p)))"
    by (rule announcement_is_planned [OF cr i same w(2) v(1)])
       (use v(2,3) net in \<open>simp_all add: lab_ready_def lab_visible_def\<close>)
  then show ?thesis by blast
qed

lemma demo_announceable: "dm_cfg dm = (with_defaults (demo_cfg n))\<lparr>cfg_Name := m\<rparr> \<Longrightarrow> announceable dm demo_lab"
  by (simp add: announceable_def demo_lab_def demo_cfg_def with_defaults_def mk_cand_def CandHost_def empty_world_def
      unix_sec_def)

lemma demo_tick_clock:
  assumes "tick_publish cr lab_env dm w = (r, dm', w')" "lab_ready w"
  shows "deadline (lab_net w') = deadline (lab_net w) \<and> clock (lab_net w') = clock (lab_net w)"
proof -
  have p: "deadline (lab_net (snd (Publish lab_store_ops st key v w))) = deadline (lab_net w) \<and>
      clock (lab_net (snd (Publish lab_store_ops st key v w))) = clock (lab_net w)" for st key v
    using labkv.Publish_once [OF assms(2), of key v st]
    by (auto simp: lab_store_ops_def on_net_def mock_ops_def split: prod.splits)
  from assms(1) show ?thesis
    by (auto simp: tick_publish_def Let_def lab_env_def p split: sum.splits prod.splits)
qed

theorem announced_node_becomes_peer_witness:
  "\<exists>a b a' r w1 plans w3 p. tick_publish demo_crypto lab_env a demo_lab = (r, a', w1) \<and>
     buildPlans demo_crypto lab_env b [] w1 = (Inr plans, w3) \<and> p \<in> set plans \<and> pp_name p = ''alpha''"
proof -
  obtain a where a: "NewDaemon demo_crypto lab_env (demo_cfg ''Alpha '') demo_d NewReliable demo_lab = Inr a"
    "dm_d a = demo_d" "dm_cfg a = (with_defaults (demo_cfg ''Alpha ''))\<lparr>cfg_Name := NormalizeName ''Alpha ''\<rparr>"
    using demo_daemon [OF demo_names(1)] by blast
  obtain b where b: "NewDaemon demo_crypto lab_env (demo_cfg ''beta'') demo_d NewReliable demo_lab = Inr b"
    "dm_d b = demo_d" "dm_cfg b = (with_defaults (demo_cfg ''beta''))\<lparr>cfg_Name := NormalizeName ''beta''\<rparr>"
    using demo_daemon [OF demo_names(2)] by blast
  have n: "NormalizeName ''Alpha '' = ''alpha''" "NormalizeName ''beta'' = ''beta''" by code_simp+
  have c: "cfg_CIDR (with_defaults (demo_cfg m)) = demo_cidr" for m by (simp add: with_defaults_def demo_cfg_def)
  obtain r a' w1 where t: "tick_publish demo_crypto lab_env a demo_lab = (r, a', w1)" by (metis prod_cases3)
  have "deadline (lab_net w1) = None" "clock (lab_net w1) \<le> clock (lab_net demo_lab) + 24 * 3600 * sec"
    using demo_tick_clock [OF t demo_ready] by (simp_all add: demo_lab_def empty_world_def sec_def)
  from announced_node_becomes_peer [OF crypto_ok_demo reach_new [OF a(1)] reach_new [OF b(1)] _ _ _ demo_ready
      demo_announceable [OF a(3)] t refl this, of "[]"]
  obtain plans w3 p where "buildPlans demo_crypto lab_env b [] w1 = (Inr plans, w3)" "p \<in> set plans" "pp_name p = ''alpha''"
    using a(2,3) b(2,3) by (auto simp: n c)
  with t show ?thesis by blast
qed



text \<open>C15: records survive a restart in the right order. A daemon started at a later time, by at
  least a nanosecond per tick of the earlier run, announces itself with a sequence number above
  every one the earlier run had reached, however that run ended.\<close>

theorem restart_outranks_old_records:
  assumes "NewDaemon cr env cfg d st w = Inr dm" "Run cr env evs dm w1 = (res, dm', w')"
    "NewDaemon cr env cfg2 d2 st2 w2 = Inr dm2" "0 < e_now env w"
    "e_now env w + int (length evs) \<le> e_now env w2" "e_now env w2 < 2 ^ 64 - 1"
  shows "dm_seq dm' < fst (nextSeq now dm2)"
proof -
  have s: "unat (dm_seq dm) = nat (e_now env w)" "unat (dm_seq dm2) = nat (e_now env w2)"
    using NewDaemon_seq [OF assms(1)] NewDaemon_seq [OF assms(3)] assms(4-6) by auto
  have "0 < unat (dm_seq dm)" "unat (dm_seq dm) + length evs < 2 ^ 64" using assms(4-6) s by auto
  from Run_seq [OF assms(2) this] have le: "unat (dm_seq dm') \<le> unat (dm_seq dm2)" using s assms(4-5) by linarith
  have "dm_seq dm2 \<noteq> 0" using s(2) assms(4,5) by (auto simp: unat_eq_zero [symmetric])
  moreover have "unat (dm_seq dm2 + 1) = unat (dm_seq dm2) + 1" using s(2) assms(4-6) by (intro unat_suc) simp
  ultimately show ?thesis using le by (simp add: nextSeq_def Let_def word_less_nat_alt)
qed

theorem restart_outranks_old_records_witness:
  "\<exists>dm dm2. NewDaemon demo_crypto lab_env (demo_cfg ''beta'') demo_d NewReliable (demo_lab\<lparr>lab_net := empty_world\<lparr>clock := 5\<rparr>\<rparr>) = Inr dm \<and>
     NewDaemon demo_crypto lab_env (demo_cfg ''beta'') demo_d NewReliable (demo_lab\<lparr>lab_net := empty_world\<lparr>clock := 9\<rparr>\<rparr>) = Inr dm2 \<and>
     dm_seq dm < fst (nextSeq 9 dm2)"
proof -
  obtain dm dm2 where
    n: "NewDaemon demo_crypto lab_env (demo_cfg ''beta'') demo_d NewReliable (demo_lab\<lparr>lab_net := empty_world\<lparr>clock := 5\<rparr>\<rparr>) = Inr dm"
      "NewDaemon demo_crypto lab_env (demo_cfg ''beta'') demo_d NewReliable (demo_lab\<lparr>lab_net := empty_world\<lparr>clock := 9\<rparr>\<rparr>) = Inr dm2"
    using demo_daemon [OF demo_names(2)] by blast
  have r: "Run demo_crypto lab_env [] dm demo_lab = (Running, dm, demo_lab)" by simp
  have "dm_seq dm < fst (nextSeq 9 dm2)"
    by (rule restart_outranks_old_records [OF n(1) r n(2)]) (simp_all add: lab_env_def)
  with n show ?thesis by blast
qed

text \<open>C11: the peers a tick plans are exactly the nodes of the roster and the spokes whose keys
  derive. Each gets the key derived from its name, its own overlay address, and, for a node
  with a record, the subnets it announces.\<close>

theorem plans_are_roster_and_spokes:
  assumes b: "buildPlans cr env dm mine w = (Inr plans, w')" and r: "ranges env" "distinct (spokes dm)"
  shows "\<exists>ro peers. NewRoster (dm_d dm) (cfg_Name (dm_cfg dm)) (Some (cfg_CIDR (dm_cfg dm))) = Inr ro \<and>
     FetchStable cr (e_store env) (e_now env) ro 3 (400 * 1000000) w = (Inr peers, w') \<and>
     pp_name ` set plans = {n \<in> fst ` set peers \<union> set (spokes dm). derivable cr dm n} \<and>
     (\<forall>p \<in> set plans. NodeWGPubKey cr (dm_d dm) (pp_name p) = Inr (pd_Pub (pp_desire p)) \<and>
        (\<exists>ip. OverlayIP cr (dm_d dm) (pp_name p) (cfg_CIDR (dm_cfg dm)) = Inr ip \<and>
           pd_AllowedIPs (pp_desire p) =
             (case map_of peers (pp_name p) of None \<Rightarrow> [] | Some r \<Rightarrow> parseCIDRs (Adv r)) @ [host32 ip]))"
proof -
  obtain ro peers where n: "NewRoster (dm_d dm) (cfg_Name (dm_cfg dm)) (Some (cfg_CIDR (dm_cfg dm))) = Inr ro"
    "FetchStable cr (e_store env) (e_now env) ro 3 (400 * 1000000) w = (Inr peers, w')"
    and p: "plans = plans_of cr env dm mine peers w'"
    using b by (auto simp: buildPlans_def split: sum.splits prod.splits)
  have "NodeWGPubKey cr (dm_d dm) (pp_name p) = Inr (pd_Pub (pp_desire p)) \<and>
        (\<exists>ip. OverlayIP cr (dm_d dm) (pp_name p) (cfg_CIDR (dm_cfg dm)) = Inr ip \<and>
           pd_AllowedIPs (pp_desire p) =
             (case map_of peers (pp_name p) of None \<Rightarrow> [] | Some r \<Rightarrow> parseCIDRs (Adv r)) @ [host32 ip])"
    if "p \<in> set plans" for p
    using plans_of_name [OF that [unfolded p]] by (auto dest!: roster_plan_SomeD spoke_plan_SomeD)
  with n plans_of_names [OF r, of cr mine peers w'] p show ?thesis by blast
qed

theorem plans_are_roster_and_spokes_witness:
  "\<exists>dm plans w'. spokes dm = [''phone''] \<and>
     buildPlans demo_crypto lab_env dm [] (demo_lab\<lparr>lab_net := empty_world\<lparr>deadline := Some 0\<rparr>\<rparr>) = (Inr plans, w') \<and>
     pp_name ` set plans = {''phone''}"
proof -
  let ?w = "demo_lab\<lparr>lab_net := empty_world\<lparr>deadline := Some 0\<rparr>\<rparr>"
  obtain b where b: "NewDaemon demo_crypto lab_env (demo_cfg ''beta'') demo_d NewReliable demo_lab = Inr b"
    "dm_d b = demo_d" "dm_cfg b = (with_defaults (demo_cfg ''beta''))\<lparr>cfg_Name := NormalizeName ''beta''\<rparr>"
    using demo_daemon [OF demo_names(2)] by blast
  let ?dm = "b\<lparr>spokes := [''phone'']\<rparr>"
  have "ValidateName (NormalizeName ''phone'') = None" by code_simp
  then have d: "derivable demo_crypto ?dm ''phone''"
    using demo_overlay b(2,3) by (auto simp: derivable_def with_defaults_def demo_cfg_def)
  have c: "ctx_op lab_store_ops ?w \<noteq> None"
    by (simp add: lab_store_ops_def mock_ops_def ctx_err_def empty_world_def)
  note bp = buildPlans_no_time [OF c, of demo_crypto ?dm "[]"]
  from plans_are_roster_and_spokes [OF bp ranges_lab] obtain peers ro where
    f: "FetchStable demo_crypto (e_store lab_env) (e_now lab_env) ro 3 (400 * 1000000) ?w = (Inr peers, ?w)" and
    p: "pp_name ` set (plans_of demo_crypto lab_env ?dm [] [] ?w) =
      {n \<in> fst ` set peers \<union> set (spokes ?dm). derivable demo_crypto ?dm n}" by auto
  have "peers = []"
    using f c by (simp add: FetchStable_def stable_result_def numeral_3_eq_3 lab_env_def)
  with p d have "pp_name ` set (plans_of demo_crypto lab_env ?dm [] [] ?w) = {''phone''}" by auto
  with bp show ?thesis by (intro exI [of _ ?dm] exI conjI) auto
qed



text \<open>C40: when the interface is deleted under a running daemon, the next tick that gets to its
  peers reports the device gone and the loop ends there, before anything is raced or any
  firewall rule is touched.\<close>

theorem run_ends_when_device_gone:
  assumes dev: "e_dev env = linux_dev ko" and p: "tick_publish cr env dm w = (Inr mine, dm1, w1)"
    and b: "buildPlans cr env dm1 mine w1 = (Inr plans, (ld, k))" and gone: "k_Device ko (ld_iface ld) k = Inl err"
  shows "Run cr env (TickerC # evs) dm w = (StoppedGone, dm1, (ld, k))"
proof -
  have "dev_Apply (e_dev env) ps (ld, k) = (Some (Wrap ''apply'' ErrDeviceGone), (ld, k))" for ps
    using gone by (simp add: dev linux_dev_def linux_Apply_def)
  then have "Tick cr env dm w = (Some (Wrap ''apply'' (Wrap ''apply'' ErrDeviceGone)), dm1, (ld, k))"
    by (simp add: Tick_def p b tick_apply_def Let_def)
  then show ?thesis by simp
qed

theorem run_ends_when_device_gone_witness:
  "\<exists>dm1 w'. Run demo_crypto (host_env (mem_kernel\<lparr>k_Device := \<lambda>i k. Inl (Errorf ''no such device'')\<rparr>)) [TickerC, TickerC] demo_node (demo_ld, []) =
     (StoppedGone, dm1, w')"
proof -
  let ?ko = "mem_kernel\<lparr>k_Device := \<lambda>i k. Inl (Errorf ''no such device'')\<rparr>"
  let ?env = "host_env ?ko" and ?w = "(demo_ld, []) :: LinuxDevice \<times> wg_peer list"
  obtain r dm1 w1 where t: "tick_publish demo_crypto ?env demo_node ?w = (r, dm1, w1)" by (metis prod_cases3)
  then have r: "\<exists>mine. r = Inr mine" "w1 = ?w"
    by (auto simp: tick_publish_def Let_def host_fields host_publish sealRecord_def Seal_def sealRoom_def split: prod.splits)
  then obtain mine where m: "r = Inr mine" by blast
  have b: "buildPlans demo_crypto ?env dm1 mine ?w = (Inr (plans_of demo_crypto ?env dm1 mine [] ?w), ?w)"
    by (simp add: buildPlans_def NewRoster_def host_fetch)
  from run_ends_when_device_gone [of ?env ?ko demo_crypto demo_node ?w mine dm1 w1 "plans_of demo_crypto ?env dm1 mine [] ?w" demo_ld "[]"
      "Errorf ''no such device''" "[TickerC]"]
  show ?thesis using t m r(2) b by (auto simp: host_fields)
qed

end
