(* ===== verification/Export.thy ===== *)
theory Export
  imports Gofmt Lifecycle
begin

text \<open>
  The configuration file for a device that cannot run the daemon (\<open>internal/mesh/export.go\<close>):
  its checks in order and its text, and what the file says against what the hub plans for
  that device.
\<close>

section \<open>Model\<close>

record ExportConfInput =
  ec_Deriver :: "Deriver option"
  ec_CIDR :: "ipnet option"
  ec_LocalName :: string
  ec_RemoteName :: string
  ec_Endpoint :: string
  ec_ExtraRoutes :: "string list"
  ec_MTU :: int

text \<open>The text, from what the checks have computed.\<close>

definition conf_head ::
  "crypto \<Rightarrow> (nat \<Rightarrow> bool) \<Rightarrow> time \<Rightarrow> string \<Rightarrow> string \<Rightarrow> bytes \<Rightarrow> ip \<Rightarrow> int \<Rightarrow> bytes \<Rightarrow> string \<Rightarrow> string list" where
  "conf_head cr pr now local remote priv ip mtu hub endpoint =
     [''# routewire/meshd exported config for '' @ quote pr remote,
      ''# generated '' @ rfc3339 now @ '' by node '' @ quote pr local @ '' from its live routing knowledge.'',
      ''# regenerate to refresh endpoints/routes; keep this file secret (0600).'',
      [],
      ''[Interface]'',
      ''PrivateKey = '' @ b64 priv,
      ''Address = '' @ ip_string ip @ ''/32'',
      ''MTU = '' @ int_str mtu,
      [],
      ''[Peer]'',
      ''# routewire hub '' @ quote pr local @ '' (regenerate there after topology changes)'',
      ''PublicKey = '' @ b64 (wg_public cr hub),
      ''Endpoint = '' @ endpoint]"

definition ExportConf :: "crypto \<Rightarrow> (nat \<Rightarrow> bool) \<Rightarrow> time \<Rightarrow> ExportConfInput \<Rightarrow> bytes res" where
  "ExportConf cr pr now inp =
     (case (ec_Deriver inp, ec_CIDR inp) of
        (Some d, Some cidr) \<Rightarrow>
          (let local = NormalizeName (ec_LocalName inp); remote = NormalizeName (ec_RemoteName inp) in
           case ValidateName remote of
             Some e \<Rightarrow> Inl (Wrap ''export: remote name'' e)
           | None \<Rightarrow>
               if remote = local then Inl (Errorf ''export: remote name must differ from this node's name'')
               else if split_host_port (ec_Endpoint inp) = None then Inl (Errorf ''export: endpoint must be host:port'')
               else
                 (let mtu = (if ec_MTU inp \<le> 0 then 1420 else ec_MTU inp) in
                  case NodeWGKey cr d remote of
                    Inl e \<Rightarrow> Inl e
                  | Inr priv \<Rightarrow>
                      (case OverlayIP cr d remote cidr of
                         Inl e \<Rightarrow> Inl e
                       | Inr ip \<Rightarrow>
                           (case NodeWGKey cr d local of
                              Inl e \<Rightarrow> Inl e
                            | Inr hub \<Rightarrow>
                                (let allowed = ipnet_string cidr # map ipnet_string (parseCIDRs (ec_ExtraRoutes inp)) in
                                 Inr (join [nl] (conf_head cr pr now local remote priv ip mtu hub (ec_Endpoint inp) @
                                    [''AllowedIPs = '' @ join '', '' allowed, ''PersistentKeepalive = 25'']) @ [nl]))))))
      | _ \<Rightarrow> Inl (Errorf ''export: deriver and cidr required''))"

section \<open>Reading the file\<close>

text \<open>The value of a key as \<open>wg-quick\<close> finds it: the first line that assigns it.\<close>

definition conf_value :: "string \<Rightarrow> string \<Rightarrow> string option" where
  "conf_value k conf =
     map_option (drop (length k + 3)) (find (\<lambda>l. has_prefix l (k @ '' = '')) (split_on nl conf))"

lemma nl_not_digit [simp]: "\<not> is_digit nl"
  by (simp add: nl_def is_digit_def)

lemma nl_not_quote: "list_all name_char s \<Longrightarrow> nl \<notin> set (quote pr s)"
  by (auto simp: quote_def quote_loop_name name_char_def is_lower_def is_digit_def nl_def list_all_iff)

lemma nl_not_nat_str [simp]: "nl \<notin> set (nat_str n)"
  using nat_str_digits [of n] nl_not_digit by blast

lemma nl_not_b64: "nl \<notin> set (b64 s)"
  using b64_groups_no_eol [of "map of_char s" nl] by (auto simp: b64_def nl_def)

lemma nl_not_int_str: "nl \<notin> set (int_str i)"
  by (simp add: int_str_def) (simp add: nl_def)

lemma nl_not_rfc3339: "nl \<notin> set (rfc3339 t)"
  using rfc3339_chars [of nl t] nl_not_digit by (auto simp: nl_def)

lemma nl_not_ip: "length ip = 4 \<Longrightarrow> nl \<notin> set (ip_string ip)"
  by (elim length4E) (simp add: dotted_def, simp add: nl_def)

lemma nl_not_join: "(\<forall>w \<in> set ws. nl \<notin> set w) \<Longrightarrow> nl \<notin> set sep \<Longrightarrow> nl \<notin> set (join sep ws)"
  by (induction ws rule: induct_list012) auto

lemmas nl_free = nl_not_quote nl_not_b64 nl_not_int_str nl_not_rfc3339 nl_not_ip

lemma ExportConf_InrD:
  assumes "ExportConf cr pr now inp = Inr conf" "ec_Deriver inp = Some d" "ec_CIDR inp = Some cidr"
  shows "\<exists>priv ip hub mtu.
     ValidateName (NormalizeName (ec_RemoteName inp)) = None \<and> NormalizeName (ec_RemoteName inp) \<noteq> NormalizeName (ec_LocalName inp) \<and>
     split_host_port (ec_Endpoint inp) \<noteq> None \<and> NodeWGKey cr d (ec_RemoteName inp) = Inr priv \<and>
     OverlayIP cr d (ec_RemoteName inp) cidr = Inr ip \<and> NodeWGKey cr d (ec_LocalName inp) = Inr hub \<and>
     conf = join [nl] (conf_head cr pr now (NormalizeName (ec_LocalName inp)) (NormalizeName (ec_RemoteName inp)) priv ip mtu hub
         (ec_Endpoint inp) @ [''AllowedIPs = '' @ join '', '' (map ipnet_string (cidr # parseCIDRs (ec_ExtraRoutes inp))),
         ''PersistentKeepalive = 25'']) @ [nl]"
  using assms by (auto simp: ExportConf_def Let_def split: option.splits sum.splits if_splits)

lemma conf_lines:
  assumes "\<forall>l \<in> set ls. nl \<notin> set l" "ls \<noteq> []"
  shows "conf_value k (join [nl] ls @ [nl]) =
     map_option (drop (length k + 3)) (find (\<lambda>l. has_prefix l (k @ '' = '')) (ls @ [[]]))"
  using split_on_join_nl [OF assms(2,1)] by (simp add: conf_value_def)

lemma NodeWGKey_valid: "NodeWGKey cr d n = Inr k \<Longrightarrow> list_all name_char (NormalizeName n)"
  by (auto simp: NodeWGKey_def ValidateName_def Let_def split: option.splits if_splits)

lemma conf_head_nl:
  assumes "list_all name_char local" "list_all name_char remote" "length ip = 4" "nl \<notin> set endpoint"
  shows "\<forall>l \<in> set (conf_head cr pr now local remote priv ip mtu hub endpoint). nl \<notin> set l"
  using assms nl_free by (simp add: conf_head_def) (simp add: nl_def)

lemma conf_head_values:
  assumes "ls = conf_head cr pr now local remote priv ip mtu hub endpoint @ [''AllowedIPs = '' @ al, z]" "\<forall>l \<in> set ls. nl \<notin> set l"
  shows "conf_value ''PrivateKey'' (join [nl] ls @ [nl]) = Some (b64 priv)"
    "conf_value ''Address'' (join [nl] ls @ [nl]) = Some (ip_string ip @ ''/32'')"
    "conf_value ''PublicKey'' (join [nl] ls @ [nl]) = Some (b64 (wg_public cr hub))"
    "conf_value ''Endpoint'' (join [nl] ls @ [nl]) = Some endpoint"
    "conf_value ''AllowedIPs'' (join [nl] ls @ [nl]) = Some al"
proof -
  have "ls \<noteq> []" using assms(1) by (simp add: conf_head_def)
  note v = conf_lines [OF assms(2) this]
  show "conf_value ''PrivateKey'' (join [nl] ls @ [nl]) = Some (b64 priv)"
    "conf_value ''Address'' (join [nl] ls @ [nl]) = Some (ip_string ip @ ''/32'')"
    "conf_value ''PublicKey'' (join [nl] ls @ [nl]) = Some (b64 (wg_public cr hub))"
    "conf_value ''Endpoint'' (join [nl] ls @ [nl]) = Some endpoint"
    "conf_value ''AllowedIPs'' (join [nl] ls @ [nl]) = Some al"
    unfolding v by (simp_all add: assms(1) conf_head_def has_prefix_def)
qed

section \<open>Properties\<close>

text \<open>C31: an exported device and its hub agree. The private key and the address in the file are
  the ones of the peer the hub plans for that spoke, the peer in the file carries the public key
  of the key the hub runs with, and the overlay range and the announced subnets are routed
  through it.\<close>

theorem exported_device_matches_hub:
  assumes reach: "daemon_reach cr env dm" and ex: "ExportConf cr pr now inp = Inr conf"
    and inp: "ec_Deriver inp = Some (dm_d dm)" "ec_CIDR inp = Some (cfg_CIDR (dm_cfg dm))"
      "NormalizeName (ec_LocalName inp) = cfg_Name (dm_cfg dm)"
    and plain: "nl \<notin> set (ec_Endpoint inp)" "canon4 (cfg_CIDR (dm_cfg dm))"
      "\<forall>s \<in> set (ec_ExtraRoutes inp). \<forall>n. cidr_of s = Some n \<longrightarrow> canon4 n"
  shows "\<exists>p priv ip. spoke_plan cr dm (NormalizeName (ec_RemoteName inp)) = Some p \<and>
     pd_Pub (pp_desire p) = wg_public cr priv \<and> pd_AllowedIPs (pp_desire p) = [host32 ip] \<and>
     conf_value ''PrivateKey'' conf = Some (b64 priv) \<and> conf_value ''Address'' conf = Some (ip_string ip @ ''/32'') \<and>
     conf_value ''PublicKey'' conf = Some (b64 (wg_public cr (dm_key dm))) \<and>
     conf_value ''Endpoint'' conf = Some (ec_Endpoint inp) \<and>
     conf_value ''AllowedIPs'' conf =
       Some (join '', '' (map ipnet_string (cfg_CIDR (dm_cfg dm) # parseCIDRs (ec_ExtraRoutes inp))))"
proof -
  let ?r = "NormalizeName (ec_RemoteName inp)" and ?cidr = "cfg_CIDR (dm_cfg dm)"
  obtain priv ip hub mtu where e: "NodeWGKey cr (dm_d dm) (ec_RemoteName inp) = Inr priv"
    "OverlayIP cr (dm_d dm) (ec_RemoteName inp) ?cidr = Inr ip" "NodeWGKey cr (dm_d dm) (ec_LocalName inp) = Inr hub"
    and c: "conf = join [nl] (conf_head cr pr now (NormalizeName (ec_LocalName inp)) ?r priv ip mtu hub (ec_Endpoint inp) @
       [''AllowedIPs = '' @ join '', '' (map ipnet_string (?cidr # parseCIDRs (ec_ExtraRoutes inp))), ''PersistentKeepalive = 25'']) @ [nl]"
    using ExportConf_InrD [OF ex inp(1,2)] by blast
  have inv: "daemon_inv cr dm" by (rule daemon_reach_inv [OF reach])
  then have h: "hub = dm_key dm" using e(3) inp(3) NodeWGKey_normalize [of cr "dm_d dm" "ec_LocalName inp"] by (simp add: daemon_inv_def)
  have "\<forall>n \<in> set (?cidr # parseCIDRs (ec_ExtraRoutes inp)). canon4 n"
    using plain(2,3) parseCIDRs_fold [of "ec_ExtraRoutes inp"] by auto
  moreover have "is_space nl" by (simp add: is_space_def nl_def)
  ultimately have n: "\<forall>n \<in> set (?cidr # parseCIDRs (ec_ExtraRoutes inp)). nl \<notin> set (ipnet_string n)"
    using ipnet_string_no_space by blast
  have sep: "nl \<notin> set '', ''" "nl \<notin> set ''AllowedIPs = ''" "nl \<notin> set ''PersistentKeepalive = 25''" by (simp_all add: nl_def)
  have "nl \<notin> set (join '', '' (map ipnet_string (?cidr # parseCIDRs (ec_ExtraRoutes inp))))"
    using n sep(1) by (intro nl_not_join) auto
  with sep(2,3) conf_head_nl [OF NodeWGKey_valid [OF e(3)] NodeWGKey_valid [OF e(1)] length_OverlayIP [OF e(2)] plain(1)]
  have "\<forall>l \<in> set (conf_head cr pr now (NormalizeName (ec_LocalName inp)) ?r priv ip mtu hub (ec_Endpoint inp) @
       [''AllowedIPs = '' @ join '', '' (map ipnet_string (?cidr # parseCIDRs (ec_ExtraRoutes inp))), ''PersistentKeepalive = 25'']). nl \<notin> set l"
    unfolding set_append by auto
  note vals = conf_head_values [OF refl this, folded c]
  obtain p where p: "spoke_plan cr dm ?r = Some p"
    using spoke_plan_iff [of cr dm ?r] e(2) by (auto simp: derivable_def)
  have "pd_Pub (pp_desire p) = wg_public cr priv" "pd_AllowedIPs (pp_desire p) = [host32 ip]"
    using spoke_plan_SomeD [OF p] e(1,2) by (auto simp: NodeWGPubKey_def)
  with p vals h show ?thesis by blast
qed

theorem exported_device_matches_hub_witness:
  "\<exists>dm conf. NewDaemon demo_crypto lab_env (demo_cfg ''beta'') demo_d NewReliable demo_lab = Inr dm \<and>
     ExportConf demo_crypto (\<lambda>r. False) 0 \<lparr>ec_Deriver = Some demo_d, ec_CIDR = Some demo_cidr, ec_LocalName = ''beta'',
       ec_RemoteName = ''Phone'', ec_Endpoint = ''192.0.2.1:51820'', ec_ExtraRoutes = [], ec_MTU = 0\<rparr> = Inr conf \<and>
     conf_value ''PublicKey'' conf = Some (b64 (wg_public demo_crypto (dm_key dm)))"
proof -
  let ?inp = "\<lparr>ec_Deriver = Some demo_d, ec_CIDR = Some demo_cidr, ec_LocalName = ''beta'',
       ec_RemoteName = ''Phone'', ec_Endpoint = ''192.0.2.1:51820'', ec_ExtraRoutes = [], ec_MTU = 0\<rparr>"
  obtain dm where dm: "NewDaemon demo_crypto lab_env (demo_cfg ''beta'') demo_d NewReliable demo_lab = Inr dm"
    "dm_d dm = demo_d" "dm_cfg dm = (with_defaults (demo_cfg ''beta''))\<lparr>cfg_Name := NormalizeName ''beta''\<rparr>"
    using demo_daemon [OF demo_names(2)] by blast
  have c: "cfg_CIDR (dm_cfg dm) = demo_cidr" "cfg_Name (dm_cfg dm) = NormalizeName ''beta''"
    by (simp_all add: dm(3) with_defaults_def demo_cfg_def)
  have names: "ValidateName (NormalizeName ''Phone'') = None" "NormalizeName ''Phone'' \<noteq> NormalizeName ''beta''" by code_simp+
  have ep: "split_host_port ''192.0.2.1:51820'' \<noteq> None" "nl \<notin> set ''192.0.2.1:51820''" by code_simp (simp add: nl_def)
  obtain ip where ip: "OverlayIP demo_crypto demo_d ''Phone'' demo_cidr = Inr ip" using demo_overlay [OF names(1)] by blast
  obtain k where k: "NodeWGKey demo_crypto demo_d ''Phone'' = Inr k" using OverlayIP_InrD [OF ip] by blast
  obtain ip' where ip': "OverlayIP demo_crypto demo_d ''beta'' demo_cidr = Inr ip'" using demo_overlay [OF demo_names(2)] by blast
  obtain k' where k': "NodeWGKey demo_crypto demo_d ''beta'' = Inr k'" using OverlayIP_InrD [OF ip'] by blast
  obtain conf where e: "ExportConf demo_crypto (\<lambda>r. False) 0 ?inp = Inr conf"
    using names ep ip k k' by (auto simp: ExportConf_def Let_def)
  from exported_device_matches_hub [OF reach_new [OF dm(1)] e] dm(2) c ep(2) demo_cidr_ok(1)
  have "conf_value ''PublicKey'' conf = Some (b64 (wg_public demo_crypto (dm_key dm)))" by auto
  with dm(1) e show ?thesis by blast
qed

end
