(* ===== verification/Meshconfig.thy ===== *)
theory Meshconfig
  imports Encoding
begin

text \<open>
  The configuration of a node (\<open>internal/config\<close>): the schema, the merge of its layers
  (built-in defaults, file, environment, explicit flags) and the small parsers of flag
  values. A file is parsed by the YAML library, which is an argument; maps of flags and
  of the environment are association lists.
\<close>

section \<open>Model\<close>

record MeshConfig =
  mc_PSK :: string
  mc_Name :: string
  mc_IFace :: string
  mc_CIDR :: string
  mc_Port :: int
  mc_MTU :: int
  mc_Poll :: string
  mc_Stale :: string
  mc_Stun :: "string list"
  mc_Proxies :: "string list"
  mc_Backend :: string
  mc_Announce :: "string list"
  mc_DryRun :: bool
  mc_FirewallSelfHeal :: bool

definition zero_config :: MeshConfig where
  "zero_config = \<lparr>mc_PSK = [], mc_Name = [], mc_IFace = [], mc_CIDR = [], mc_Port = 0, mc_MTU = 0, mc_Poll = [],
     mc_Stale = [], mc_Stun = [], mc_Proxies = [], mc_Backend = [], mc_Announce = [], mc_DryRun = False,
     mc_FirewallSelfHeal = False\<rparr>"

definition DefaultProxies :: "string list" where
  "DefaultProxies = [''https://dhtproxy3.jami.net'', ''https://dhtproxy2.jami.net'']"

text \<open>\<open>read\<close> is the file, \<open>yaml\<close> the parser; both may fail.\<close>

definition LoadMeshConfig :: "(string \<Rightarrow> bytes res) \<Rightarrow> (bytes \<Rightarrow> MeshConfig res) \<Rightarrow> string \<Rightarrow> MeshConfig res" where
  "LoadMeshConfig read yaml path =
     (case read path of
        Inl e \<Rightarrow> Inl e
      | Inr raw \<Rightarrow> (case yaml raw of Inl e \<Rightarrow> Inl (Wrap (''parse '' @ path) e) | Inr c \<Rightarrow> Inr c))"

definition mergeMeshInto :: "MeshConfig \<Rightarrow> MeshConfig \<Rightarrow> MeshConfig" where
  "mergeMeshInto dst src =
     dst\<lparr>mc_PSK := (if mc_PSK src \<noteq> [] then mc_PSK src else mc_PSK dst),
         mc_Name := (if mc_Name src \<noteq> [] then mc_Name src else mc_Name dst),
         mc_IFace := (if mc_IFace src \<noteq> [] then mc_IFace src else mc_IFace dst),
         mc_CIDR := (if mc_CIDR src \<noteq> [] then mc_CIDR src else mc_CIDR dst),
         mc_Port := (if mc_Port src \<noteq> 0 then mc_Port src else mc_Port dst),
         mc_MTU := (if mc_MTU src \<noteq> 0 then mc_MTU src else mc_MTU dst),
         mc_Poll := (if mc_Poll src \<noteq> [] then mc_Poll src else mc_Poll dst),
         mc_Stale := (if mc_Stale src \<noteq> [] then mc_Stale src else mc_Stale dst),
         mc_Stun := (if mc_Stun src \<noteq> [] then mc_Stun src else mc_Stun dst),
         mc_Proxies := (if mc_Proxies src \<noteq> [] then mc_Proxies src else mc_Proxies dst),
         mc_Backend := (if mc_Backend src \<noteq> [] then mc_Backend src else mc_Backend dst),
         mc_Announce := (if mc_Announce src \<noteq> [] then mc_Announce src else mc_Announce dst),
         mc_DryRun := (if mc_DryRun src then True else mc_DryRun dst),
         mc_FirewallSelfHeal := (if mc_FirewallSelfHeal src then True else mc_FirewallSelfHeal dst)\<rparr>"

definition flagsSet :: "(string, string) gomap \<Rightarrow> string \<Rightarrow> bool" where
  "flagsSet flags name \<longleftrightarrow> map_of flags name \<noteq> None"

text \<open>The loop of \<open>splitComma\<close>: \<open>part\<close> is \<open>s[start:i]\<close>, the second argument the rest of \<open>s\<close>.\<close>

fun split_loop :: "string \<Rightarrow> string \<Rightarrow> string list" where
  "split_loop part [] = (if part \<noteq> [] then [part] else [])"
| "split_loop part (c # s) =
     (if c = CHR '','' then (if part \<noteq> [] then part # split_loop [] s else split_loop [] s)
      else split_loop (part @ [c]) s)"

definition splitComma :: "string \<Rightarrow> string list" where
  "splitComma s = split_loop [] s"

text \<open>Go's \<open>int\<close> has 64 bits: the accumulator wraps.\<close>

fun atoi_loop :: "int \<Rightarrow> string \<Rightarrow> int" where
  "atoi_loop n [] = n"
| "atoi_loop n (c # s) = (if \<not> is_digit c then 0 else atoi_loop (i64 (n * 10 + int (digit_val c))) s)"

definition atoiOrZero :: "string \<Rightarrow> int" where
  "atoiOrZero s = atoi_loop 0 s"

definition truthy :: "string \<Rightarrow> bool" where
  "truthy s \<longleftrightarrow> s \<in> {''1'', ''true'', ''TRUE'', ''True'', ''yes''}"

definition flag_str :: "(string, string) gomap \<Rightarrow> string \<Rightarrow> string" where
  "flag_str flags n = (case map_of flags n of None \<Rightarrow> [] | Some v \<Rightarrow> v)"

definition flag_int :: "(string, string) gomap \<Rightarrow> string \<Rightarrow> int" where
  "flag_int flags n = (case map_of flags n of None \<Rightarrow> 0 | Some v \<Rightarrow> atoiOrZero v)"

definition flag_list :: "(string, string) gomap \<Rightarrow> string \<Rightarrow> string list" where
  "flag_list flags n = (case map_of flags n of None \<Rightarrow> [] | Some v \<Rightarrow> splitComma v)"

definition flagsToMesh :: "(string, string) gomap \<Rightarrow> MeshConfig" where
  "flagsToMesh flags = zero_config\<lparr>
     mc_PSK := flag_str flags ''psk'', mc_Name := flag_str flags ''name'', mc_IFace := flag_str flags ''iface'',
     mc_CIDR := flag_str flags ''cidr'', mc_Port := flag_int flags ''port'', mc_MTU := flag_int flags ''mtu'',
     mc_Poll := flag_str flags ''poll'', mc_Stale := flag_str flags ''stale'', mc_Stun := flag_list flags ''stun'',
     mc_Proxies := flag_list flags ''proxies'', mc_Announce := flag_list flags ''announce'',
     mc_Backend := flag_str flags ''backend'',
     mc_DryRun := (case map_of flags ''dry-run'' of None \<Rightarrow> False | Some v \<Rightarrow> truthy v)\<rparr>"

text \<open>\<open>None\<close> is a nil pointer or a nil map.\<close>

definition ResolveMesh ::
  "MeshConfig option \<Rightarrow> MeshConfig option \<Rightarrow> (string, string) gomap \<Rightarrow> (string, string) gomap option \<Rightarrow> MeshConfig" where
  "ResolveMesh defs file env flags =
     (let fl = (case flags of None \<Rightarrow> [] | Some f \<Rightarrow> f);
          out1 = (case defs of None \<Rightarrow> zero_config | Some d \<Rightarrow> d);
          out2 = (case file of None \<Rightarrow> out1 | Some f \<Rightarrow> mergeMeshInto out1 f);
          out3 = (case map_of env ''MESH_PSK'' of
                    None \<Rightarrow> out2
                  | Some v \<Rightarrow> if flagsSet fl ''psk'' then out2 else out2\<lparr>mc_PSK := v\<rparr>);
          out4 = (case map_of env ''MESH_NAME'' of
                    None \<Rightarrow> out3
                  | Some v \<Rightarrow> if flagsSet fl ''name'' then out3 else out3\<lparr>mc_Name := v\<rparr>)
      in case flags of None \<Rightarrow> out4 | Some f \<Rightarrow> mergeMeshInto out4 (flagsToMesh f))"

section \<open>Reference definitions\<close>

text \<open>The value of a setting by its layers, the strongest first: the first one that is set.\<close>

fun first_set :: "'a \<Rightarrow> 'a list \<Rightarrow> 'a" where
  "first_set unset [] = unset"
| "first_set unset (v # vs) = (if v \<noteq> unset then v else first_set unset vs)"

lemma first_set_nest: "first_set u [a, first_set u vs] = first_set u (a # vs)"
  by simp

definition layer :: "(MeshConfig \<Rightarrow> 'a) \<Rightarrow> MeshConfig option \<Rightarrow> 'a" where
  "layer f c = f (case c of None \<Rightarrow> zero_config | Some x \<Rightarrow> x)"

lemma split_loop_spec: "CHR '','' \<notin> set part \<Longrightarrow> split_loop part s = filter (\<lambda>w. w \<noteq> []) (split_on (CHR '','') (part @ s))"
proof (induction part s rule: split_loop.induct)
  case (1 part)
  then show ?case by (simp add: split_on_no_sep)
next
  case (2 part c s)
  then show ?case by (auto simp: split_on_append)
qed

lemma splitComma_spec: "splitComma s = filter (\<lambda>w. w \<noteq> []) (split_on (CHR '','') s)"
  by (simp add: splitComma_def split_loop_spec)

lemma i64_step: "i64 (i64 n * 10 + d) = i64 (n * 10 + d)"
proof -
  define q where "q = (n + 9223372036854775808) div (18446744073709551616 :: int)"
  have "i64 n = n - 18446744073709551616 * q"
    unfolding i64_def q_def by (simp add: minus_mult_div_eq_mod [symmetric])
  then have "i64 n * 10 + d + 9223372036854775808 = n * 10 + d + 9223372036854775808 + 18446744073709551616 * (- 10 * q)"
    by (simp add: algebra_simps)
  then have "(i64 n * 10 + d + 9223372036854775808) mod 18446744073709551616 =
      (n * 10 + d + 9223372036854775808) mod 18446744073709551616"
    by (simp only: mod_mult_self2)
  then show ?thesis unfolding i64_def [of "i64 n * 10 + d"] i64_def [of "n * 10 + d"] by simp
qed

lemma atoi_loop_spec:
  "atoi_loop (i64 n) s = (if list_all is_digit s then i64 (foldl (\<lambda>n c. n * 10 + int (digit_val c)) n s) else 0)"
  by (induction s arbitrary: n) (auto simp: i64_step)

lemma int_dec_val: "foldl (\<lambda>n c. n * 10 + int (digit_val c)) (int n) s = int (foldl (\<lambda>n c. n * 10 + digit_val c) n s)"
proof (induction s arbitrary: n)
  case (Cons c s)
  from Cons.IH [of "n * 10 + digit_val c"] show ?case by simp
qed simp

lemma atoiOrZero_spec: "atoiOrZero s = (if list_all is_digit s then i64 (int (dec_val s)) else 0)"
  using atoi_loop_spec [of 0 s] int_dec_val [of 0 s] by (simp add: atoiOrZero_def dec_val_def i64_id)

lemma layer_None [simp]:
  "layer mc_PSK None = []" "layer mc_Name None = []" "layer mc_IFace None = []" "layer mc_CIDR None = []"
  "layer mc_Port None = 0" "layer mc_MTU None = 0" "layer mc_Poll None = []" "layer mc_Stale None = []"
  "layer mc_Stun None = []" "layer mc_Proxies None = []" "layer mc_Backend None = []" "layer mc_Announce None = []"
  "\<not> layer mc_DryRun None" "\<not> layer mc_FirewallSelfHeal None"
  by (simp_all add: layer_def zero_config_def)

lemma layer_Some [simp]: "layer f (Some c) = f c"
  by (simp add: layer_def)

text \<open>One merge, field by field.\<close>

lemma merge_fields:
  "mc_PSK (mergeMeshInto d s) = first_set [] [mc_PSK s, mc_PSK d]" "mc_Name (mergeMeshInto d s) = first_set [] [mc_Name s, mc_Name d]"
  "mc_IFace (mergeMeshInto d s) = first_set [] [mc_IFace s, mc_IFace d]" "mc_CIDR (mergeMeshInto d s) = first_set [] [mc_CIDR s, mc_CIDR d]"
  "mc_Port (mergeMeshInto d s) = first_set 0 [mc_Port s, mc_Port d]" "mc_MTU (mergeMeshInto d s) = first_set 0 [mc_MTU s, mc_MTU d]"
  "mc_Poll (mergeMeshInto d s) = first_set [] [mc_Poll s, mc_Poll d]" "mc_Stale (mergeMeshInto d s) = first_set [] [mc_Stale s, mc_Stale d]"
  "mc_Stun (mergeMeshInto d s) = first_set [] [mc_Stun s, mc_Stun d]" "mc_Proxies (mergeMeshInto d s) = first_set [] [mc_Proxies s, mc_Proxies d]"
  "mc_Backend (mergeMeshInto d s) = first_set [] [mc_Backend s, mc_Backend d]"
  "mc_Announce (mergeMeshInto d s) = first_set [] [mc_Announce s, mc_Announce d]"
  "mc_DryRun (mergeMeshInto d s) = (mc_DryRun s \<or> mc_DryRun d)"
  "mc_FirewallSelfHeal (mergeMeshInto d s) = (mc_FirewallSelfHeal s \<or> mc_FirewallSelfHeal d)"
  by (simp_all add: mergeMeshInto_def)

lemma flags_fields:
  "mc_PSK (flagsToMesh f) = flag_str f ''psk''" "mc_Name (flagsToMesh f) = flag_str f ''name''"
  "mc_IFace (flagsToMesh f) = flag_str f ''iface''" "mc_CIDR (flagsToMesh f) = flag_str f ''cidr''"
  "mc_Port (flagsToMesh f) = flag_int f ''port''" "mc_MTU (flagsToMesh f) = flag_int f ''mtu''"
  "mc_Poll (flagsToMesh f) = flag_str f ''poll''" "mc_Stale (flagsToMesh f) = flag_str f ''stale''"
  "mc_Stun (flagsToMesh f) = flag_list f ''stun''" "mc_Proxies (flagsToMesh f) = flag_list f ''proxies''"
  "mc_Backend (flagsToMesh f) = flag_str f ''backend''" "mc_Announce (flagsToMesh f) = flag_list f ''announce''"
  "mc_DryRun (flagsToMesh f) \<longleftrightarrow> truthy (flag_str f ''dry-run'')" "\<not> mc_FirewallSelfHeal (flagsToMesh f)"
  by (simp_all add: flagsToMesh_def zero_config_def flag_str_def truthy_def split: option.splits)

lemma flags_nil [simp]: "flag_str [] n = []" "flag_int [] n = 0" "flag_list [] n = []" "\<not> truthy []" "\<not> flagsSet [] n"
  by (simp_all add: flag_str_def flag_int_def flag_list_def truthy_def flagsSet_def)

lemmas config_fields = merge_fields flags_fields

text \<open>What the environment contributes to a setting: its value, unless the flag is given.\<close>

definition env_layer :: "(string, string) gomap \<Rightarrow> string \<Rightarrow> (string, string) gomap \<Rightarrow> string \<Rightarrow> string" where
  "env_layer flags n env key = (if flagsSet flags n then [] else case map_of env key of None \<Rightarrow> [] | Some v \<Rightarrow> v)"

section \<open>Properties\<close>



text \<open>The two parsers of flag values: a list flag is its non-empty parts between commas, so a
  joined list of non-empty parts reads back, and a number is its decimal value on 64 bits, or zero
  for anything that is not all digits.\<close>

theorem flag_values_parse:
  assumes "\<forall>w \<in> set ws. w \<noteq> [] \<and> CHR '','' \<notin> set w"
  shows "splitComma (join '','' ws) = ws \<and>
     splitComma s = filter (\<lambda>w. w \<noteq> []) (split_on (CHR '','') s) \<and>
     atoiOrZero s = (if list_all is_digit s then i64 (int (dec_val s)) else 0)"
proof -
  have "filter (\<lambda>w. w \<noteq> []) (split_on (CHR '','') (join '','' ws)) = ws"
    using assms by (cases "ws = []") (auto simp: split_on_join filter_id_conv)
  then show ?thesis by (simp add: splitComma_spec atoiOrZero_spec)
qed

theorem flag_values_parse_witness: "splitComma ''a,b'' = [''a'', ''b''] \<and> atoiOrZero ''-5'' = 0"
  using flag_values_parse [of "[''a'', ''b'']" "''-5''"] by (simp add: is_digit_def)

end
