(* ===== verification/Opendht.thy ===== *)
theory Opendht
  imports Store Json
begin

text \<open>
  The OpenDHT proxy client (\<open>internal/engine/opendhtstore.go\<close>): key validation, the request
  with failover over the proxies, and the NDJSON wire format. The HTTP client is an
  argument: what one request gives, over a state.

  A value put is the value read: \<open>decodeBody\<close> inverts the payload line by line.
\<close>

section \<open>State\<close>

record OpenDHT =
  dht_base :: "string list"
  magic :: string
  dht_timeout :: duration
  insecureTLS :: bool

definition NewOpenDHT :: "string list \<Rightarrow> (OpenDHT \<Rightarrow> OpenDHT) list \<Rightarrow> OpenDHT" where
  "NewOpenDHT endpoints opts =
     foldl (\<lambda>o1 opt. opt o1)
       \<lparr>dht_base = map (\<lambda>e. trim_right_set (trim_space e) ''/'') endpoints, magic = ''stunmeshchat-v1'',
        dht_timeout = 15 * sec, insecureTLS = False\<rparr> opts"

definition WithMagic :: "string \<Rightarrow> OpenDHT \<Rightarrow> OpenDHT" where
  "WithMagic m o1 = o1\<lparr>magic := m\<rparr>"

definition WithInsecureTLS :: "bool \<Rightarrow> OpenDHT \<Rightarrow> OpenDHT" where
  "WithInsecureTLS v o1 = o1\<lparr>insecureTLS := v\<rparr>"

definition WithTimeTo :: "duration \<Rightarrow> OpenDHT \<Rightarrow> OpenDHT" where
  "WithTimeTo d o1 = o1\<lparr>dht_timeout := d\<rparr>"

text \<open>What a request gives: the request cannot be built, it fails, its body cannot be read,
  or a status and a body.\<close>

datatype http_reply = BadRequest goerr | DoErr goerr | ReadErr goerr | Reply int bytes

type_synonym 'w http = "string \<Rightarrow> string \<Rightarrow> bytes option \<Rightarrow> 'w \<Rightarrow> http_reply \<times> 'w"

section \<open>Requests\<close>

definition checkInfoHash :: "string \<Rightarrow> goerr option" where
  "checkInfoHash key =
     (if length key \<noteq> 40 then Some ErrInvalidKey
      else if list_all is_hex_char key
      then None else Some ErrInvalidKey)"

definition body_limit :: nat where "body_limit = 2 ^ 20"

fun raw_loop ::
  "'w http \<Rightarrow> string \<Rightarrow> string \<Rightarrow> bytes option \<Rightarrow> string list \<Rightarrow> goerr option \<Rightarrow> 'w \<Rightarrow> bytes res \<times> 'w" where
  "raw_loop http meth key body [] lastErr w =
     (Inl (case lastErr of None \<Rightarrow> ErrUnavailable | Some e \<Rightarrow> e), w)"
| "raw_loop http meth key body (ep # eps) lastErr w =
     (case http meth (ep @ ''/key/'' @ key) body w of
        (BadRequest e, w1) \<Rightarrow> (Inl e, w1)
      | (DoErr e, w1) \<Rightarrow> raw_loop http meth key body eps (Some e) w1
      | (ReadErr e, w1) \<Rightarrow> raw_loop http meth key body eps (Some e) w1
      | (Reply status got, w1) \<Rightarrow>
          if status \<ge> 200 \<and> status < 300 then (Inr (take body_limit got), w1)
          else raw_loop http meth key body eps (Some (Errorf (''proxy '' @ ep @ '': '' @ int_str status))) w1)"

definition raw :: "'w http \<Rightarrow> OpenDHT \<Rightarrow> string \<Rightarrow> string \<Rightarrow> bytes option \<Rightarrow> 'w \<Rightarrow> bytes res \<times> 'w" where
  "raw http o1 meth key body w = raw_loop http meth key body (dht_base o1) None w"

section \<open>Wire format\<close>

record dhtInner =
  in_Magic :: string
  in_TS :: int
  in_Data :: string

definition inner_json :: "dhtInner \<Rightarrow> json" where
  "inner_json i = JObj [(''magic'', JStr (in_Magic i)), (''ts'', jint (in_TS i)), (''data'', JStr (in_Data i))]"

definition outer_json :: "string \<Rightarrow> json" where
  "outer_json data = JObj [(''data'', JStr data)]"

definition inner_field :: "bytes \<Rightarrow> dhtInner \<Rightarrow> json \<Rightarrow> dhtInner option" where
  "inner_field key i j =
     (if key_is ''magic'' key then map_option (\<lambda>x. i\<lparr>in_Magic := x\<rparr>) (dec_str (in_Magic i) j)
      else if key_is ''ts'' key then map_option (\<lambda>x. i\<lparr>in_TS := x\<rparr>) (dec_i64 (in_TS i) j)
      else if key_is ''data'' key then map_option (\<lambda>x. i\<lparr>in_Data := x\<rparr>) (dec_str (in_Data i) j)
      else Some i)"

definition outer_field :: "bytes \<Rightarrow> string \<Rightarrow> json \<Rightarrow> string option" where
  "outer_field key d j = (if key_is ''data'' key then dec_str d j else Some d)"

definition unmarshal_inner :: "bytes \<Rightarrow> dhtInner option" where
  "unmarshal_inner b = (case parse_json b of None \<Rightarrow> None
     | Some j \<Rightarrow> dec_struct inner_field \<lparr>in_Magic = [], in_TS = 0, in_Data = []\<rparr> j)"

definition unmarshal_outer :: "bytes \<Rightarrow> string option" where
  "unmarshal_outer b = (case parse_json b of None \<Rightarrow> None | Some j \<Rightarrow> dec_struct outer_field [] j)"

text \<open>The body of the loop of \<open>decodeBody\<close>: the value of one line, if it has one.\<close>

definition decode_line :: "string \<Rightarrow> bytes \<Rightarrow> bytes option" where
  "decode_line mg l =
     (let line = trim_space l in
      if line = [] then None
      else case unmarshal_outer line of
        None \<Rightarrow> None
      | Some data \<Rightarrow>
          (case b64dec data of
             None \<Rightarrow> None
           | Some innerBytes \<Rightarrow>
               (case unmarshal_inner innerBytes of
                  None \<Rightarrow> None
                | Some inner \<Rightarrow> if in_Magic inner \<noteq> mg then None else b64dec (in_Data inner))))"

text \<open>\<open>bufio.Scanner\<close>: the lines of the body, up to the first one that does not fit the
  64 KiB buffer together with its line end.\<close>

definition scan_lines_of :: "bytes \<Rightarrow> bytes list" where
  "scan_lines_of body =
     (let ls = split_on (CHR 0x0A) body; ls' = (if last ls = [] then butlast ls else ls)
      in takeWhile (\<lambda>l. length l < 65536) ls')"

definition decodeBody :: "OpenDHT \<Rightarrow> bytes \<Rightarrow> bytes list" where
  "decodeBody o1 body = List.map_filter (decode_line (magic o1)) (scan_lines_of body)"

definition payload :: "OpenDHT \<Rightarrow> int \<Rightarrow> bytes \<Rightarrow> bytes" where
  "payload o1 ts v =
     print_json (outer_json (b64 (print_json (inner_json \<lparr>in_Magic = magic o1, in_TS = ts, in_Data = b64 v\<rparr>))))"

definition dht_Get :: "'w http \<Rightarrow> OpenDHT \<Rightarrow> string \<Rightarrow> 'w \<Rightarrow> bytes list res \<times> 'w" where
  "dht_Get http o1 key w =
     (case checkInfoHash key of
        Some e \<Rightarrow> (Inl e, w)
      | None \<Rightarrow>
          (case raw http o1 ''GET'' key None w of
             (Inl e, w1) \<Rightarrow> (Inl e, w1)
           | (Inr body, w1) \<Rightarrow> (Inr (decodeBody o1 body), w1)))"

definition dht_Put :: "'w http \<Rightarrow> ('w \<Rightarrow> time) \<Rightarrow> OpenDHT \<Rightarrow> string \<Rightarrow> bytes \<Rightarrow> 'w \<Rightarrow> goerr option \<times> 'w" where
  "dht_Put http now o1 key v w =
     (case checkInfoHash key of
        Some e \<Rightarrow> (Some e, w)
      | None \<Rightarrow>
          (case raw http o1 ''POST'' key (Some (payload o1 (unix_sec (now w)) v)) w of
             (Inl e, w1) \<Rightarrow> (Some e, w1)
           | (Inr _, w1) \<Rightarrow> (None, w1)))"

section \<open>Laws\<close>

lemma unmarshal_inner_print:
  assumes "ascii (in_Magic i)" "ascii (in_Data i)" "- 9223372036854775808 \<le> in_TS i" "in_TS i < 9223372036854775808"
  shows "unmarshal_inner (print_json (inner_json i)) = Some i"
proof -
  have "json_ok (inner_json i)" using assms(1,2) by (simp add: inner_json_def)
  then show ?thesis
    using dec_i64_jint [OF assms(3,4)]
    by (simp add: unmarshal_inner_def parse_print_json)
       (simp add: inner_json_def dec_struct_def inner_field_def key_is_def to_lower_def lower_char_def
          is_upper_def dec_str_def)
qed

lemma unmarshal_outer_print: "ascii d \<Longrightarrow> unmarshal_outer (print_json (outer_json d)) = Some d"
  by (simp add: unmarshal_outer_def outer_json_def parse_print_json del: print_json.simps)
     (simp add: dec_struct_def outer_field_def key_is_def to_lower_def lower_char_def is_upper_def dec_str_def)

lemma payload_shape:
  assumes "ascii (magic o1)" "- 9223372036854775808 \<le> ts" "ts < 9223372036854775808"
  shows "decode_line (magic o1) (payload o1 ts v) = Some v" and "CHR 0x0A \<notin> set (payload o1 ts v)"
    and "payload o1 ts v \<noteq> []"
proof -
  let ?inner = "print_json (inner_json \<lparr>in_Magic = magic o1, in_TS = ts, in_Data = b64 v\<rparr>)"
  have ok: "json_ok (outer_json (b64 ?inner))" by (simp add: outer_json_def ascii_b64)
  show "CHR 0x0A \<notin> set (payload o1 ts v)"
    using print_chars [OF ok, of "CHR 0x0A"] by (auto simp: payload_def)
  have "trim_space (payload o1 ts v) = payload o1 ts v" "payload o1 ts v \<noteq> []"
    by (rule trim_space_ends) (simp_all add: payload_def outer_json_def is_space_def)
  moreover have "unmarshal_outer (payload o1 ts v) = Some (b64 ?inner)"
    unfolding payload_def by (rule unmarshal_outer_print) (rule ascii_b64)
  moreover have "unmarshal_inner ?inner = Some \<lparr>in_Magic = magic o1, in_TS = ts, in_Data = b64 v\<rparr>"
    using assms by (intro unmarshal_inner_print) (simp_all add: ascii_b64)
  ultimately show "decode_line (magic o1) (payload o1 ts v) = Some v" "payload o1 ts v \<noteq> []"
    by (simp_all add: decode_line_def)
qed

text \<open>A body with the payloads of several values, one a line, gives the values in order.\<close>

lemma decodeBody_payloads:
  assumes "ascii (magic o1)" "\<forall>(ts, v) \<in> set tvs. - 9223372036854775808 \<le> ts \<and> ts < 9223372036854775808"
    "\<forall>(ts, v) \<in> set tvs. length (payload o1 ts v) < 65536"
  shows "decodeBody o1 (join [CHR 0x0A] (map (\<lambda>(ts, v). payload o1 ts v) tvs)) = map snd tvs"
proof (cases "tvs = []")
  case True
  then show ?thesis by (simp add: decodeBody_def scan_lines_of_def map_filter_simps)
next
  case False
  let ?ls = "map (\<lambda>(ts, v). payload o1 ts v) tvs"
  have "\<forall>l \<in> set ?ls. CHR 0x0A \<notin> set l" "last ?ls \<noteq> []"
    using payload_shape [OF assms(1)] assms(2) False by (auto simp: last_map split: prod.splits)
      (metis last_in_set case_prodD)
  moreover have "\<forall>l \<in> set ?ls. length l < 65536" using assms(3) by auto
  ultimately have "scan_lines_of (join [CHR 0x0A] ?ls) = ?ls"
    using split_on_join [of ?ls "CHR 0x0A"] False by (simp add: scan_lines_of_def Let_def)
  moreover have "List.map_filter (decode_line (magic o1)) ?ls = map snd tvs"
    using payload_shape(1) [OF assms(1)] assms(2) by (induction tvs) (auto simp: map_filter_simps)
  ultimately show ?thesis by (simp add: decodeBody_def)
qed

text \<open>Failover: the result is the first good answer, else the last error.\<close>

lemma raw_loop_Inr:
  "raw_loop http meth key body eps e w = (Inr got, w') \<Longrightarrow>
   \<exists>ep \<in> set eps. \<exists>w1 status full. http meth (ep @ ''/key/'' @ key) body w1 = (Reply status full, w') \<and>
      200 \<le> status \<and> status < 300 \<and> got = take body_limit full"
  by (induction eps arbitrary: e w) (fastforce split: http_reply.splits prod.splits if_splits)+

section \<open>Properties\<close>



text \<open>C29: the derived roster key and room keys are InfoHashes the proxies accept: forty
  hexadecimal digits, whatever the secret, so that \<open>Get\<close> and \<open>Put\<close> never refuse them.\<close>

theorem derived_keys_are_infohashes:
  assumes "lengths_ok cr"
  shows "checkInfoHash (RosterKey cr d) = None \<and> checkInfoHash (roomKeyID cr token) = None"
proof -
  have "checkInfoHash (concat (map hex_byte (take 20 b))) = None" if "length b = 32" for b
    using length_concat_hex [of "take 20 b"] concat_hex_chars [of _ "take 20 b"] that
    by (auto simp: checkInfoHash_def list_all_iff)
  with assms show ?thesis
    by (simp add: RosterKey_def keyID_def cutHex40_def roomKeyID_def cut40_def lengths_ok_def)
qed

theorem derived_keys_are_infohashes_witness: "checkInfoHash (RosterKey demo_crypto demo_d) = None"
  using derived_keys_are_infohashes [of demo_crypto] demo_laws by blast



end
