(* ===== verification/Cli.thy ===== *)
theory Cli
  imports Export Meshconfig Opendht Router_Scan
begin

text \<open>
  The command line (\<open>cmd/meshd/main.go\<close>): subcommands, the default name, the starter
  configuration, the choice of the store and the advice on set-up failures. The commands are in
  \<open>Commands\<close>.

  A call of \<open>fatalf\<close> is \<open>Inl\<close>; the message texts are shortened.
\<close>

section \<open>Arguments and names\<close>

definition subcommandFlags :: "(string, string) gomap" where
  "subcommandFlags = [(''init'', ''-init''), (''export'', ''-export''), (''stop'', ''-stop''), (''peek'', ''-peek''),
     (''remove'', ''-remove''), (''service'', ''-service'')]"

definition valueFlags :: "string list" where
  "valueFlags = [''psk'', ''name'', ''iface'', ''cidr'', ''port'', ''mtu'', ''poll'', ''stale'', ''stun'', ''proxies'',
     ''backend'', ''announce'', ''config'', ''remote'', ''out'', ''endpoint'', ''routes'', ''system'']"

definition takes_value :: "string \<Rightarrow> bool" where
  "takes_value prev \<longleftrightarrow> has_prefix prev ''-'' \<and> CHR ''='' \<notin> set prev \<and> trim_left_set prev ''-'' \<in> set valueFlags"

text \<open>The loop over the arguments; \<open>pre\<close> are the ones already passed.\<close>

fun expand_loop :: "string list \<Rightarrow> string list \<Rightarrow> string list" where
  "expand_loop pre [] = pre"
| "expand_loop pre (a # as) =
     (if has_prefix a ''-'' then expand_loop (pre @ [a]) as
      else if pre \<noteq> [] \<and> takes_value (last pre) then expand_loop (pre @ [a]) as
      else case map_of subcommandFlags a of
        Some flagName \<Rightarrow> flagName # pre @ as
      | None \<Rightarrow> expand_loop (pre @ [a]) as)"

definition expandSubcommand :: "string list \<Rightarrow> string list" where
  "expandSubcommand args = expand_loop [] args"

text \<open>\<open>host\<close> is the result of \<open>os.Hostname\<close>, \<open>pid\<close> of \<open>os.Getpid\<close>.\<close>

definition defaultName :: "string res \<Rightarrow> int \<Rightarrow> string" where
  "defaultName host pid =
     (case host of
        Inl _ \<Rightarrow> ''node-'' @ int_str pid
      | Inr h \<Rightarrow> (let n = filter name_char (to_lower h) in if n = [] then ''node'' else n))"

section \<open>The starter configuration\<close>

definition defaultStunServers :: "string list" where
  "defaultStunServers = [''stun.l.google.com:19402'', ''stun1.l.google.com:19402'', ''stun.cloudflare.com:3478'']"

definition genPSK :: "bytes option \<Rightarrow> string res" where
  "genPSK rnd = (case rnd of None \<Rightarrow> Inl (Errorf ''generate psk'') | Some b \<Rightarrow> Inr (b64 b))"

definition write_list :: "(nat \<Rightarrow> bool) \<Rightarrow> string \<Rightarrow> string \<Rightarrow> string list \<Rightarrow> string" where
  "write_list pr title comment items =
     [nl] @ ''# '' @ comment @ [nl] @ title @ '':'' @ (if items = [] then '' []'' else []) @ [nl] @
     concat (map (\<lambda>it. ''  - '' @ quote pr it @ [nl]) items)"

definition bool_str :: "bool \<Rightarrow> string" where
  "bool_str b = (if b then ''true'' else ''false'')"

definition renderConfigYAML :: "(nat \<Rightarrow> bool) \<Rightarrow> MeshConfig \<Rightarrow> bytes" where
  "renderConfigYAML pr rc =
     (let stun = (if mc_Stun rc = [] then defaultStunServers else mc_Stun rc);
          proxies = (if mc_Proxies rc = [] then DefaultProxies else mc_Proxies rc) in
      ''# routewire/meshd node configuration'' @ [nl] @
      ''# layers: built-in defaults < this file < env (MESH_PSK, MESH_NAME) < explicit flags'' @ [nl] @
      [nl] @ ''# shared mesh secret: every node of a mesh uses the same value'' @ [nl] @
      ''psk: '' @ quote pr (mc_PSK rc) @ [nl] @
      [nl] @ ''# node identity [a-z0-9-] (default: hostname)'' @ [nl] @ ''name: '' @ quote pr (mc_Name rc) @ [nl] @
      ''# kernel wireguard interface created and managed by meshd'' @ [nl] @ ''iface: '' @ quote pr (mc_IFace rc) @ [nl] @
      ''# overlay network from which every node IP derives'' @ [nl] @ ''cidr: '' @ mc_CIDR rc @ [nl] @
      ''port: '' @ int_str (mc_Port rc) @ '' # wireguard UDP listen port'' @ [nl] @ ''mtu: '' @ int_str (mc_MTU rc) @ [nl] @
      [nl] @ ''# reconcile cadence / endpoint re-race threshold'' @ [nl] @ ''poll: '' @ mc_Poll rc @ [nl] @
      ''stale: '' @ mc_Stale rc @ [nl] @
      write_list pr ''stun'' ''STUN servers for NAT discovery (set to [] to disable)'' stun @
      write_list pr ''proxies'' ''OpenDHT roster proxies'' proxies @
      [nl] @ ''# roster backend: opendht | mock'' @ [nl] @ ''backend: '' @ mc_Backend rc @ [nl] @
      write_list pr ''announce'' ''extra subnets THIS node serves to the mesh'' (mc_Announce rc) @
      [nl] @ ''# simulate device control without touching the kernel'' @ [nl] @ ''dry_run: '' @ bool_str (mc_DryRun rc) @ [nl] @
      ''# insert accepts into host firewalls with drop policies (off = warn only)'' @ [nl] @
      ''firewall_selfheal: '' @ bool_str (mc_FirewallSelfHeal rc) @ [nl])"

section \<open>The store\<close>

datatype backend = MockBackend MockStore | DhtBackend OpenDHT

definition newStore :: "string \<Rightarrow> string \<Rightarrow> bool \<Rightarrow> (backend \<times> ReliableStore) res" where
  "newStore backend proxyOverride insecure =
     (if backend = ''mock'' then Inr (MockBackend (NewMockStore (600 * sec)), NewReliable)
      else if backend = ''opendht'' then
        (let endpoints = (if proxyOverride \<noteq> [] then filter (\<lambda>e. e \<noteq> []) (map trim_space (split_on (CHR '','') proxyOverride))
                          else DefaultProxies)
         in Inr (DhtBackend (NewOpenDHT endpoints [WithInsecureTLS insecure]), NewReliable))
      else Inl (Errorf ''unknown backend''))"

text \<open>\<open>is\<close> tells which errno the error wraps, \<open>msg\<close> is its text.\<close>

definition setupHint :: "(string \<Rightarrow> bool) \<Rightarrow> string \<Rightarrow> string" where
  "setupHint is msg =
     (if is ''EOPNOTSUPP'' \<or> contains_str (to_lower msg) ''not supported'' then
        [nl] @ ''  the kernel has no WireGuard support: needs Linux >= 5.6, or the'' @ [nl] @
        ''  wireguard module/dkms package for this kernel (try: modprobe wireguard)''
      else if is ''EPERM'' then
        [nl] @ ''  missing privileges: run as root, or in containers add --cap-add=NET_ADMIN''
      else if is ''EEXIST'' then
        [nl] @ ''  leftover interface: sudo meshd stop (or: ip link del <iface>)''
      else [])"

section \<open>Properties\<close>

text \<open>Position \<open>i\<close> holds a subcommand: a bare word of the table that is not the value of the
  flag before it.\<close>

definition command_at :: "string list \<Rightarrow> nat \<Rightarrow> bool" where
  "command_at args i \<longleftrightarrow> \<not> has_prefix (args ! i) ''-'' \<and> \<not> (i > 0 \<and> takes_value (args ! (i - 1))) \<and>
     map_of subcommandFlags (args ! i) \<noteq> None"

definition move_command :: "string list \<Rightarrow> nat \<Rightarrow> string list" where
  "move_command args i = the (map_of subcommandFlags (args ! i)) # take i args @ drop (Suc i) args"

lemma find_upt_Cons: "n < m \<Longrightarrow> find P [n..<m] = (if P n then Some n else find P [Suc n..<m])"
  by (simp add: upt_conv_Cons)

lemma expand_loop_spec:
  "expand_loop pre as = (case find (command_at (pre @ as)) [length pre..<length (pre @ as)] of
     None \<Rightarrow> pre @ as | Some i \<Rightarrow> move_command (pre @ as) i)"
proof (induction as arbitrary: pre)
  case (Cons a as)
  let ?args = "pre @ a # as"
  have at: "command_at ?args (length pre) \<longleftrightarrow>
      \<not> has_prefix a ''-'' \<and> \<not> (pre \<noteq> [] \<and> takes_value (last pre)) \<and> map_of subcommandFlags a \<noteq> None"
    by (auto simp: command_at_def nth_append last_conv_nth)
  have rng: "[length pre..<length ?args] = length pre # [length (pre @ [a])..<length ?args]"
    by (subst upt_conv_Cons) simp_all
  show ?case
  proof (cases "command_at ?args (length pre)")
    case True
    then obtain f where "map_of subcommandFlags a = Some f" using at by blast
    with True at have "expand_loop pre (a # as) = move_command ?args (length pre)" by (auto simp: move_command_def)
    with True show ?thesis unfolding rng by simp
  next
    case False
    then have "expand_loop pre (a # as) = expand_loop (pre @ [a]) as" using at by (auto split: option.splits)
    moreover have "expand_loop (pre @ [a]) as = (case find (command_at ?args) [length (pre @ [a])..<length ?args] of
        None \<Rightarrow> ?args | Some i \<Rightarrow> move_command ?args i)"
      using Cons.IH [of "pre @ [a]"] unfolding append.assoc append_Cons append_Nil .
    ultimately show ?thesis using False unfolding rng by simp
  qed
qed simp

text \<open>C37: a subcommand works wherever it stands. The first bare word of the table that is not the
  value of a flag is replaced by its flag at the front and nothing else changes; without one the
  arguments stay as they are; and writing the subcommand first gives the same arguments.\<close>

theorem subcommand_anywhere:
  "expandSubcommand args =
     (case find (command_at args) [0..<length args] of None \<Rightarrow> args | Some i \<Rightarrow> move_command args i) \<and>
   (\<forall>i. find (command_at args) [0..<length args] = Some i \<longrightarrow>
      expandSubcommand (args ! i # take i args @ drop (Suc i) args) = expandSubcommand args)"
proof -
  have spec: "expandSubcommand as = (case find (command_at as) [0..<length as] of None \<Rightarrow> as | Some i \<Rightarrow> move_command as i)" for as
    using expand_loop_spec [of "[]" as] unfolding append_Nil list.size(3) expandSubcommand_def .
  have "expandSubcommand (args ! i # take i args @ drop (Suc i) args) = expandSubcommand args"
    if "find (command_at args) [0..<length args] = Some i" for i
  proof -
    let ?front = "args ! i # take i args @ drop (Suc i) args"
    have "command_at args i" using that by (auto simp: find_Some_iff)
    then have "command_at ?front 0" by (simp add: command_at_def)
    then have "find (command_at ?front) [0..<length ?front] = Some 0"
      by (subst find_upt_Cons) simp_all
    then have "expandSubcommand ?front = move_command ?front 0" using spec [of ?front] by simp
    also have "\<dots> = move_command args i" by (simp add: move_command_def)
    also have "\<dots> = expandSubcommand args" using spec [of args] that by simp
    finally show ?thesis .
  qed
  with spec [of args] show ?thesis by blast
qed

theorem subcommand_anywhere_witness:
  "expandSubcommand [''-config'', ''m.yaml'', ''peek''] = [''-peek'', ''-config'', ''m.yaml''] \<and>
   expandSubcommand [''peek'', ''-config'', ''m.yaml''] = expandSubcommand [''-config'', ''m.yaml'', ''peek''] \<and>
   expandSubcommand [''-name'', ''peek''] = [''-name'', ''peek'']"
proof -
  let ?args = "[''-config'', ''m.yaml'', ''peek'']"
  have f: "find (command_at ?args) [0..<length ?args] = Some 2" by code_simp
  have "expandSubcommand ?args = move_command ?args 2"
    "expandSubcommand (?args ! 2 # take 2 ?args @ drop (Suc 2) ?args) = expandSubcommand ?args"
    using subcommand_anywhere [of ?args] unfolding f option.case by blast+
  then have "expandSubcommand ?args = [''-peek'', ''-config'', ''m.yaml'']"
    "expandSubcommand [''peek'', ''-config'', ''m.yaml''] = expandSubcommand ?args"
    by (simp_all add: move_command_def subcommandFlags_def)
  moreover have "expandSubcommand [''-name'', ''peek''] = [''-name'', ''peek'']" by code_simp
  ultimately show ?thesis by blast
qed

end
