(* ===== verification/Service.thy ===== *)
theory Service
  imports Spokes
begin

text \<open>
  Installation as a system service (\<open>cmd/meshd/service.go\<close>): the check of the flags, the choice
  of the service manager, the two service files, installing and removing. The host is a record of
  operations over a state: files, removal (the flag of its error says that the file did not
  exist), commands that succeed or fail, and what the process knows of itself. File modes are
  dropped. A call of
  \<open>fatalf\<close> ends the command with \<open>Some\<close> error.

  The locale \<open>service_host\<close> states what files promise; under it an installed service file is
  the rendered text, and removing the service removes it and nothing else.
\<close>

section \<open>Model\<close>

definition systemdUnitPath :: string where
  "systemdUnitPath = ''/etc/systemd/system/meshd.service''"

definition sysvScriptPath :: string where
  "sysvScriptPath = ''/etc/init.d/meshd''"

definition defaultSvcConfig :: string where
  "defaultSvcConfig = ''/etc/meshd.yaml''"

record 'w sys_ops =
  sy_stat :: "string \<Rightarrow> 'w \<Rightarrow> bool"
  sy_read :: "string \<Rightarrow> 'w \<Rightarrow> bytes option"
  sy_write :: "string \<Rightarrow> bytes \<Rightarrow> 'w \<Rightarrow> goerr option \<times> 'w"
  sy_remove :: "string \<Rightarrow> 'w \<Rightarrow> (goerr \<times> bool) option \<times> 'w"
  sy_exec :: "string list \<Rightarrow> 'w \<Rightarrow> bool \<times> 'w"
  sy_euid :: int
  sy_executable :: "string res"
  sy_evalSymlinks :: "string \<Rightarrow> string res"

definition checkServiceArgs :: "bool \<Rightarrow> bool \<Rightarrow> string \<Rightarrow> goerr option" where
  "checkServiceArgs install uninstall system =
     (if \<not> install \<and> \<not> uninstall then Some (Errorf ''-service needs -install or -uninstall'')
      else if install \<and> uninstall then Some (Errorf ''-install and -uninstall are mutually exclusive'')
      else if system \<in> {[], ''auto'', ''systemd'', ''sysvinit''} then None
      else Some (Errorf ''-system must be auto, systemd, or sysvinit''))"

definition detectInitSystem :: "'w sys_ops \<Rightarrow> 'w \<Rightarrow> string" where
  "detectInitSystem sy w =
     (if sy_stat sy ''/run/systemd/system'' w then ''systemd''
      else case sy_read sy ''/proc/1/comm'' w of
        Some b \<Rightarrow> if trim_space b = ''systemd'' then ''systemd'' else ''sysvinit''
      | None \<Rightarrow> ''sysvinit'')"

text \<open>A template is the list of its lines; the last one is empty, for the final line end.\<close>

definition tabs :: "nat \<Rightarrow> string" where
  "tabs n = replicate n (CHR 0x09)"

definition systemdUnit :: "string \<Rightarrow> string \<Rightarrow> string" where
  \<open>systemdUnit bin conf = join [nl]
     [''[Unit]'',
      ''Description=RoutWire mesh daemon'',
      ''After=network-online.target'',
      ''Wants=network-online.target'',
      [],
      ''[Service]'',
      ''ExecStart='' @ bin @ '' -config '' @ conf,
      ''Restart=always'',
      ''RestartSec=5'',
      [],
      ''[Install]'',
      ''WantedBy=multi-user.target'',
      []]\<close>

definition sysvScript :: "string \<Rightarrow> string \<Rightarrow> string" where
  \<open>sysvScript bin conf = join [nl]
     [''#!/bin/sh'',
      ''### BEGIN INIT INFO'',
      ''# Provides:          meshd'',
      ''# Required-Start:    $network $remote_fs'',
      ''# Required-Stop:     $network $remote_fs'',
      ''# Default-Start:     2 3 4 5'',
      ''# Default-Stop:      0 1 6'',
      ''# Short-Description: Routewire mesh daemon'',
      ''# Description:       Decentralized WireGuard mesh daemon'',
      ''### END INIT INFO'',
      [],
      ''NAME=meshd'',
      ''DAEMON='' @ bin,
      ''CONFIG='' @ conf,
      ''PIDFILE=/run/meshd.pid'',
      [],
      ''is_running() {'',
      tabs 1 @ ''[ -f "$PIDFILE" ] && kill -0 "$(cat "$PIDFILE")" 2>/dev/null'',
      ''}'',
      [],
      ''case "$1" in'',
      ''start)'',
      tabs 1 @ ''if is_running; then'',
      tabs 2 @ ''echo "$NAME already running"'',
      tabs 2 @ ''exit 0'',
      tabs 1 @ ''fi'',
      tabs 1 @ ''echo "Starting $NAME"'',
      tabs 1 @ ''if command -v start-stop-daemon >/dev/null 2>&1; then'',
      tabs 2 @ ''start-stop-daemon --start --background --make-pidfile --pidfile "$PIDFILE" --exec "$DAEMON" -- -config "$CONFIG"'',
      tabs 1 @ ''else'',
      tabs 2 @ ''nohup "$DAEMON" -config "$CONFIG" >>/var/log/meshd.log 2>&1 &'',
      tabs 2 @ ''echo $! >"$PIDFILE"'',
      tabs 1 @ ''fi'',
      tabs 1 @ '';;'',
      ''stop)'',
      tabs 1 @ ''if ! is_running; then'',
      tabs 2 @ ''rm -f "$PIDFILE"'',
      tabs 2 @ ''exit 0'',
      tabs 1 @ ''fi'',
      tabs 1 @ ''echo "Stopping $NAME"'',
      tabs 1 @ ''PID=$(cat "$PIDFILE")'',
      tabs 1 @ ''kill "$PID" 2>/dev/null'',
      tabs 1 @ ''i=0'',
      tabs 1 @ ''while kill -0 "$PID" 2>/dev/null && [ "$i" -lt 20 ]; do'',
      tabs 2 @ ''sleep 0.5'',
      tabs 2 @ ''i=$((i + 1))'',
      tabs 1 @ ''done'',
      tabs 1 @ ''rm -f "$PIDFILE"'',
      tabs 1 @ '';;'',
      ''restart)'',
      tabs 1 @ ''"$0" stop'',
      tabs 1 @ ''"$0" start'',
      tabs 1 @ '';;'',
      ''status)'',
      tabs 1 @ ''if is_running; then'',
      tabs 2 @ ''echo "$NAME is running (pid $(cat "$PIDFILE"))"'',
      tabs 1 @ ''else'',
      tabs 2 @ ''echo "$NAME is not running"'',
      tabs 2 @ ''exit 1'',
      tabs 1 @ ''fi'',
      tabs 1 @ '';;'',
      ''*)'',
      tabs 1 @ ''echo "Usage: $0 {start|stop|restart|status}"'',
      tabs 1 @ ''exit 1'',
      tabs 1 @ '';;'',
      ''esac'',
      []]\<close>

definition runOrDie :: "'w sys_ops \<Rightarrow> string list \<Rightarrow> 'w \<Rightarrow> goerr option \<times> 'w" where
  "runOrDie sy cmd w =
     (case sy_exec sy cmd w of (ok, w') \<Rightarrow> (if ok then None else Some (Errorf (join '' '' cmd)), w'))"

definition enableSysVBoot :: "'w sys_ops \<Rightarrow> 'w \<Rightarrow> goerr option \<times> 'w" where
  "enableSysVBoot sy w =
     (case sy_exec sy [''update-rc.d'', ''meshd'', ''defaults''] w of
        (True, w1) \<Rightarrow> (None, w1)
      | (False, w1) \<Rightarrow>
          (case sy_exec sy [''chkconfig'', ''meshd'', ''on''] w1 of
             (True, w2) \<Rightarrow> (None, w2)
           | (False, w2) \<Rightarrow> (Some (Errorf ''neither update-rc.d nor chkconfig succeeded''), w2)))"

definition installService :: "'w sys_ops \<Rightarrow> string \<Rightarrow> string \<Rightarrow> string \<Rightarrow> 'w \<Rightarrow> goerr option \<times> 'w" where
  "installService sy mgr bin conf w =
     (if mgr = ''systemd'' then
        (case sy_write sy systemdUnitPath (systemdUnit bin conf) w of
           (Some e, w1) \<Rightarrow> (Some (Wrap ''write'' e), w1)
         | (None, w1) \<Rightarrow>
             (case runOrDie sy [''systemctl'', ''daemon-reload''] w1 of
                (Some e, w2) \<Rightarrow> (Some e, w2)
              | (None, w2) \<Rightarrow> runOrDie sy [''systemctl'', ''enable'', ''--now'', ''meshd''] w2))
      else if mgr = ''sysvinit'' then
        (case sy_write sy sysvScriptPath (sysvScript bin conf) w of
           (Some e, w1) \<Rightarrow> (Some (Wrap ''write'' e), w1)
         | (None, w1) \<Rightarrow> runOrDie sy [sysvScriptPath, ''start''] (snd (enableSysVBoot sy w1)))
      else (Some (Errorf ''unknown init system''), w))"

definition remove_quietly :: "'w sys_ops \<Rightarrow> string \<Rightarrow> 'w \<Rightarrow> goerr option \<times> 'w" where
  "remove_quietly sy path w =
     (case sy_remove sy path w of
        (Some (e, missing), w1) \<Rightarrow> (if missing then None else Some (Wrap ''remove'' e), w1)
      | (None, w1) \<Rightarrow> (None, w1))"

definition uninstallService :: "'w sys_ops \<Rightarrow> string \<Rightarrow> 'w \<Rightarrow> goerr option \<times> 'w" where
  "uninstallService sy mgr w =
     (if mgr = ''systemd'' then
        (case remove_quietly sy systemdUnitPath (snd (sy_exec sy [''systemctl'', ''disable'', ''--now'', ''meshd''] w)) of
           (Some e, w1) \<Rightarrow> (Some e, w1)
         | (None, w1) \<Rightarrow> (None, snd (sy_exec sy [''systemctl'', ''daemon-reload''] w1)))
      else if mgr = ''sysvinit'' then
        remove_quietly sy sysvScriptPath
          (fold (\<lambda>cmd w. snd (sy_exec sy cmd w))
             [[sysvScriptPath, ''stop''], [''update-rc.d'', ''-f'', ''meshd'', ''remove''], [''chkconfig'', ''meshd'', ''off'']] w)
      else (Some (Errorf ''unknown init system''), w))"

definition pick_manager :: "'w sys_ops \<Rightarrow> string \<Rightarrow> 'w \<Rightarrow> string" where
  "pick_manager sy system w = (if system = [] \<or> system = ''auto'' then detectInitSystem sy w else system)"

definition runService :: "'w sys_ops \<Rightarrow> string \<Rightarrow> bool \<Rightarrow> bool \<Rightarrow> string \<Rightarrow> 'w \<Rightarrow> goerr option \<times> 'w" where
  "runService sy configPath0 install uninstall system w =
     (case checkServiceArgs install uninstall system of
        Some e \<Rightarrow> (Some e, w)
      | None \<Rightarrow>
          if sy_euid sy \<noteq> 0 then (Some (Errorf ''managing the system service requires root''), w)
          else case sy_executable sy of
            Inl e \<Rightarrow> (Some (Wrap ''resolve binary'' e), w)
          | Inr bin0 \<Rightarrow>
              (case sy_evalSymlinks sy bin0 of
                 Inl e \<Rightarrow> (Some (Wrap ''resolve binary'' e), w)
               | Inr bin \<Rightarrow>
                   (let configPath = (if configPath0 = [] then defaultSvcConfig else configPath0);
                        mgr = pick_manager sy system w in
                    if install then
                      if \<not> sy_stat sy configPath w then (Some (Errorf ''config not found''), w)
                      else installService sy mgr bin configPath w
                    else uninstallService sy mgr w)))"

section \<open>What the files of a host promise\<close>

definition svc_path :: "string \<Rightarrow> string" where
  "svc_path mgr = (if mgr = ''systemd'' then systemdUnitPath else sysvScriptPath)"

definition svc_text :: "string \<Rightarrow> string \<Rightarrow> string \<Rightarrow> string" where
  "svc_text mgr bin conf = (if mgr = ''systemd'' then systemdUnit bin conf else sysvScript bin conf)"

abbreviation svc_paths :: "string set" where
  "svc_paths \<equiv> {systemdUnitPath, sysvScriptPath}"

lemma svc_path_in [simp]: "svc_path mgr \<in> svc_paths"
  by (simp add: svc_path_def)

lemma svc_paths_differ [simp]: "systemdUnitPath \<noteq> sysvScriptPath" "sysvScriptPath \<noteq> systemdUnitPath"
  by (simp_all add: systemdUnitPath_def sysvScriptPath_def)

locale service_host =
  fixes sy :: "'w sys_ops"
    and files :: "'w \<Rightarrow> string \<Rightarrow> bytes option"
  assumes write_sets: "sy_write sy p b w = (None, w') \<Longrightarrow> files w' q = (if q = p then Some b else files w q)"
    and remove_drops: "sy_remove sy p w = (r, w') \<Longrightarrow> \<forall>e. r \<noteq> Some (e, False) \<Longrightarrow> files w' q = (if q = p then None else files w q)"
    and exec_keeps: "q \<in> svc_paths \<Longrightarrow> files (snd (sy_exec sy cmd w)) q = files w q"
begin

lemma runOrDie_keeps: "q \<in> svc_paths \<Longrightarrow> files (snd (runOrDie sy cmd w)) q = files w q"
  using exec_keeps [of q cmd w] by (cases "sy_exec sy cmd w") (simp add: runOrDie_def)

lemma enableSysVBoot_keeps: "q \<in> svc_paths \<Longrightarrow> files (snd (enableSysVBoot sy w)) q = files w q"
  using exec_keeps [of q] by (simp add: enableSysVBoot_def split: prod.splits bool.splits) (metis snd_conv)

lemma remove_quietly_drops:
  "remove_quietly sy p w = (None, w') \<Longrightarrow> files w' q = (if q = p then None else files w q)"
  using remove_drops [of p w _ w' q]
  by (auto simp: remove_quietly_def split: prod.splits option.splits if_splits)

lemma installService_files:
  assumes "installService sy mgr bin conf w = (None, w')" "q \<in> svc_paths"
  shows "files w' q = (if q = svc_path mgr then Some (svc_text mgr bin conf) else files w q)"
proof (cases "mgr = ''systemd''")
  case True
  then obtain w1 w2 where w: "sy_write sy systemdUnitPath (systemdUnit bin conf) w = (None, w1)"
    "runOrDie sy [''systemctl'', ''daemon-reload''] w1 = (None, w2)"
    "runOrDie sy [''systemctl'', ''enable'', ''--now'', ''meshd''] w2 = (None, w')"
    using assms(1) by (auto simp: installService_def split: prod.splits option.splits)
  from runOrDie_keeps [OF assms(2), of _ w2] runOrDie_keeps [OF assms(2), of _ w1] w(2,3)
  have "files w' q = files w1 q" by (metis snd_conv)
  with True write_sets [OF w(1)] show ?thesis by (simp add: svc_path_def svc_text_def)
next
  case False
  then obtain w1 where w: "sy_write sy sysvScriptPath (sysvScript bin conf) w = (None, w1)"
    "runOrDie sy [sysvScriptPath, ''start''] (snd (enableSysVBoot sy w1)) = (None, w')"
    using assms(1) by (auto simp: installService_def split: prod.splits option.splits if_splits)
  from runOrDie_keeps [OF assms(2), of _ "snd (enableSysVBoot sy w1)"] enableSysVBoot_keeps [OF assms(2), of w1] w(2)
  have "files w' q = files w1 q" by (metis snd_conv)
  with False write_sets [OF w(1)] show ?thesis by (simp add: svc_path_def svc_text_def)
qed

lemma exec_all_keeps: "q \<in> svc_paths \<Longrightarrow> files (fold (\<lambda>cmd w. snd (sy_exec sy cmd w)) cmds w) q = files w q"
  by (induction cmds arbitrary: w) (simp_all add: exec_keeps)

lemma uninstallService_files:
  assumes "uninstallService sy mgr w = (None, w')" "q \<in> svc_paths"
  shows "files w' q = (if q = svc_path mgr then None else files w q)"
proof (cases "mgr = ''systemd''")
  case True
  then obtain w1 where "remove_quietly sy systemdUnitPath (snd (sy_exec sy [''systemctl'', ''disable'', ''--now'', ''meshd''] w)) = (None, w1)"
    "w' = snd (sy_exec sy [''systemctl'', ''daemon-reload''] w1)"
    using assms(1) by (auto simp: uninstallService_def split: prod.splits option.splits)
  with True remove_quietly_drops exec_keeps [OF assms(2)] show ?thesis by (simp add: svc_path_def)
next
  case False
  then have "remove_quietly sy sysvScriptPath (fold (\<lambda>cmd w. snd (sy_exec sy cmd w))
       [[sysvScriptPath, ''stop''], [''update-rc.d'', ''-f'', ''meshd'', ''remove''], [''chkconfig'', ''meshd'', ''off'']] w) = (None, w')"
    using assms(1) by (simp add: uninstallService_def split: if_splits)
  from remove_quietly_drops [OF this] False exec_all_keeps [OF assms(2)] show ?thesis
    by (simp only: svc_path_def if_False)
qed

lemma runService_files:
  assumes "runService sy conf inst uninst system w = (None, w')" "q \<in> svc_paths"
  shows "sy_euid sy = 0 \<and> inst = (\<not> uninst) \<and>
     (\<exists>bin0 bin. sy_executable sy = Inr bin0 \<and> sy_evalSymlinks sy bin0 = Inr bin \<and>
        (let cp = (if conf = [] then defaultSvcConfig else conf); mgr = pick_manager sy system w in
         files w' q = (if q = svc_path mgr then if inst then Some (svc_text mgr bin cp) else None else files w q) \<and>
         (inst \<longrightarrow> sy_stat sy cp w)))"
  using assms(1) installService_files [OF _ assms(2)] uninstallService_files [OF _ assms(2)]
  by (auto simp: runService_def checkServiceArgs_def Let_def split: option.splits sum.splits if_splits)

end

text \<open>A host in memory: its files and the commands it has run. \<open>ok\<close> tells which commands succeed.\<close>

definition mem_sys :: "int \<Rightarrow> string res \<Rightarrow> (string list \<Rightarrow> bool) \<Rightarrow> ((string, bytes) gomap \<times> string list list) sys_ops" where
  "mem_sys euid exe ok =
     \<lparr>sy_stat = \<lambda>p (f, l). map_of f p \<noteq> None,
      sy_read = \<lambda>p (f, l). map_of f p,
      sy_write = \<lambda>p b (f, l). (None, AList.update p b f, l),
      sy_remove = \<lambda>p (f, l). (if map_of f p = None then Some (Errorf ''no such file'', True) else None, AList.delete p f, l),
      sy_exec = \<lambda>cmd (f, l). (ok cmd, f, l @ [cmd]),
      sy_euid = euid, sy_executable = exe, sy_evalSymlinks = Inr\<rparr>"

interpretation memsys: service_host "mem_sys euid exe ok" "\<lambda>w. map_of (fst w)"
  by unfold_locales (auto simp: mem_sys_def update_conv' delete_conv' split: if_splits)

section \<open>Properties\<close>

text \<open>C36: installing and removing the service. A successful installation, possible for root with
  exactly one of the two flags and an existing configuration file only, leaves the rendered file
  of the chosen manager, naming this binary and that configuration, and a successful removal with the same
  manager takes it away again; the file of the other manager stays as it was.\<close>

theorem service_install_uninstall:
  assumes "runService (mem_sys euid exe ok) conf inst uninst system w = (None, w1)"
    "runService (mem_sys euid exe ok) conf' False True system w1 = (None, w2)"
    "pick_manager (mem_sys euid exe ok) system w = mgr" "pick_manager (mem_sys euid exe ok) system w1 = mgr"
  shows "euid = 0 \<and> inst = (\<not> uninst) \<and>
     (\<exists>bin. exe = Inr bin \<and> (let cp = (if conf = [] then defaultSvcConfig else conf) in
        map_of (fst w1) (svc_path mgr) = (if inst then Some (svc_text mgr bin cp) else None) \<and>
        (inst \<longrightarrow> map_of (fst w) cp \<noteq> None))) \<and>
     map_of (fst w2) (svc_path mgr) = None \<and>
     (\<forall>p \<in> svc_paths - {svc_path mgr}. map_of (fst w1) p = map_of (fst w) p \<and> map_of (fst w2) p = map_of (fst w) p)"
proof -
  note i = memsys.runService_files [OF assms(1), unfolded assms(3)] and u = memsys.runService_files [OF assms(2), unfolded assms(4)]
  from i [OF svc_path_in [of mgr]] have a: "euid = 0 \<and> inst = (\<not> uninst) \<and>
     (\<exists>bin. exe = Inr bin \<and> (let cp = (if conf = [] then defaultSvcConfig else conf) in
        map_of (fst w1) (svc_path mgr) = (if inst then Some (svc_text mgr bin cp) else None) \<and>
        (inst \<longrightarrow> map_of (fst w) cp \<noteq> None)))"
    unfolding Let_def by (cases w) (force simp: mem_sys_def)
  from u [OF svc_path_in [of mgr]] have b: "map_of (fst w2) (svc_path mgr) = None" by (auto simp: Let_def)
  have "map_of (fst w1) p = map_of (fst w) p \<and> map_of (fst w2) p = map_of (fst w) p" if "p \<in> svc_paths - {svc_path mgr}" for p
    using i [of p] u [of p] that by (auto simp: Let_def)
  with a b show ?thesis by blast
qed

theorem service_install_uninstall_witness:
  "\<exists>w1 w2. runService (mem_sys 0 (Inr ''/usr/bin/meshd'') (\<lambda>c. True)) [] True False ''systemd'' ([(defaultSvcConfig, [])], []) = (None, w1) \<and>
     runService (mem_sys 0 (Inr ''/usr/bin/meshd'') (\<lambda>c. True)) [] False True ''systemd'' w1 = (None, w2) \<and>
     map_of (fst w1) systemdUnitPath = Some (systemdUnit ''/usr/bin/meshd'' defaultSvcConfig) \<and>
     map_of (fst w2) systemdUnitPath = None"
proof -
  let ?sy = "mem_sys 0 (Inr ''/usr/bin/meshd'') (\<lambda>c. True)"
  note d = runService_def checkServiceArgs_def mem_sys_def Let_def pick_manager_def installService_def uninstallService_def
    remove_quietly_def runOrDie_def
  obtain w1 where w1: "runService ?sy [] True False ''systemd'' ([(defaultSvcConfig, [])], []) = (None, w1)"
    by (simp add: d)
  obtain w2 where w2: "runService ?sy [] False True ''systemd'' w1 = (None, w2)"
    by (cases w1; cases "map_of (fst w1) systemdUnitPath") (simp_all add: d)
  from service_install_uninstall [OF w1 w2, of "''systemd''"]
  have "map_of (fst w1) systemdUnitPath = Some (systemdUnit ''/usr/bin/meshd'' defaultSvcConfig)" "map_of (fst w2) systemdUnitPath = None"
    by (simp_all add: pick_manager_def svc_path_def svc_text_def Let_def)
  with w1 w2 show ?thesis by blast
qed

end
