(* ===== verification/Upkeep.thy ===== *)
theory Upkeep
  imports Lifecycle
begin

text \<open>
  What a tick does besides the peers: the bounded wait of the race, the announced subnets,
  the masquerade rules of the spokes and the eviction of spokes that went quiet, proved of
  the daemon over the files and the rules of a host in memory; what a tick does when the store
  is out or its context has ended; and two ticks of one daemon at a time.
\<close>

section \<open>The wait of the race\<close>

lemma try_loop_waited:
  assumes "waits env" "0 < poll"
  shows "try_loop env poll pub start dl k w = (False, w') \<Longrightarrow> dl \<le> e_now env w + int k * poll \<Longrightarrow> dl \<le> e_now env w'"
proof (induction k arbitrary: w)
  case (Suc k)
  show ?case
  proof (cases "e_now env w < dl")
    case True
    have "dl \<le> e_now env (e_sleep env poll w) + int k * poll"
      using Suc.prems(2) assms(1) [unfolded waits_def, rule_format, where d = poll and w = w]
      by (simp add: algebra_simps)
    with Suc True show ?thesis by (auto simp: Let_def split: if_splits)
  next
    case False
    with Suc.prems(1) show ?thesis by simp
  qed
qed simp

section \<open>Spoke files\<close>

lemma SaveSpokes_lab: "fst (SaveSpokes lab_fs_ops path ns w) = None"
  by (auto simp: SaveSpokes_def lab_fs_ops_def on_fs_def mem_fs_def update_conv' Let_def split: option.splits)

section \<open>Rules of the host\<close>

lemma AddSource_lab: "lab_nat_ok w \<longrightarrow> length ip = 4 \<longrightarrow> fst (rtr_AddSource lab_router_ops ip w) = None"
proof (intro impI)
  assume l: "length ip = 4"
  have "fst (run mem_fw ''nat'' (''-I'' # ''POSTROUTING'' # ''1'' # spec) h) = None" for spec h
    by (simp add: run_def run_bin_def mem_fw_def mem_exec_def mem_op_def split: prod.splits)
  then have "fst (AddSource mem_fw ip r h) = None" for r h
    using l by (auto simp: AddSource_def Let_def split: prod.splits option.splits) (metis fst_conv option.distinct(1))+
  then show "fst (rtr_AddSource lab_router_ops ip w) = None"
    by (auto simp: lab_router_ops_def on_rt_def linux_router_def split: prod.splits) (metis fst_conv)
qed

section \<open>Two ticks at a time\<close>

text \<open>\<open>main\<close> starts \<open>Run\<close> in a goroutine and makes the first tick itself, on the same daemon and without
  a lock. The increment of \<open>nextSeq\<close> is then a load and a store of each tick.\<close>

datatype seq_tick = Before | Loaded "64 word" | Took "64 word"

inductive seq_step :: "64 word \<times> seq_tick list \<Rightarrow> 64 word \<times> seq_tick list \<Rightarrow> bool" where
  seq_load: "i < length ts \<Longrightarrow> ts ! i = Before \<Longrightarrow> seq_step (q, ts) (q, ts[i := Loaded q])"
| seq_store: "i < length ts \<Longrightarrow> ts ! i = Loaded x \<Longrightarrow> seq_step (q, ts) (x + 1, ts[i := Took (x + 1)])"

text \<open>A tick alone takes the number \<open>nextSeq\<close> gives.\<close>

theorem lone_tick_takes_next_sequence_number:
  assumes "dm_seq dm \<noteq> 0"
  shows "seq_step\<^sup>*\<^sup>* (dm_seq dm, [Before]) (dm_seq (snd (nextSeq now dm)), [Took (fst (nextSeq now dm))])"
proof -
  have "seq_step (dm_seq dm, [Before]) (dm_seq dm, [Loaded (dm_seq dm)])"
    using seq_load [of 0 "[Before]" "dm_seq dm"] by simp
  moreover have "seq_step (dm_seq dm, [Loaded (dm_seq dm)]) (dm_seq dm + 1, [Took (dm_seq dm + 1)])"
    using seq_store [of 0 "[Loaded (dm_seq dm)]" "dm_seq dm" "dm_seq dm"] by simp
  ultimately show ?thesis using assms by (simp add: nextSeq_def Let_def)
qed

text \<open>Two ticks at a time may take the same one; readers then keep only the first of the two
  records they see.\<close>

theorem two_ticks_share_a_sequence_number:
  "seq_step\<^sup>*\<^sup>* (q, [Before, Before]) (q + 1, [Took (q + 1), Took (q + 1)])"
proof -
  have "seq_step (q, [Before, Before]) (q, [Loaded q, Before])" using seq_load [of 0 "[Before, Before]" q] by simp
  moreover have "seq_step (q, [Loaded q, Before]) (q, [Loaded q, Loaded q])"
    using seq_load [of 1 "[Loaded q, Before]" q] by simp
  moreover have "seq_step (q, [Loaded q, Loaded q]) (q + 1, [Took (q + 1), Loaded q])"
    using seq_store [of 0 "[Loaded q, Loaded q]" q q] by simp
  moreover have "seq_step (q + 1, [Took (q + 1), Loaded q]) (q + 1, [Took (q + 1), Took (q + 1)])"
    using seq_store [of 1 "[Took (q + 1), Loaded q]" q "q + 1"] by simp
  ultimately show ?thesis by (meson r_into_rtranclp rtranclp_trans)
qed

theorem equal_sequence_number_is_not_newer:
  assumes "map_of out (Name r) = Some cur" "Seq r = Seq cur"
  shows "keep_newest out r = out"
  using assms by (simp add: keep_newest_def)

section \<open>Ticks without the store\<close>

lemma tick_publish_books:
  assumes "tick_publish cr env dm w = (r, dm', w')"
  shows "lastGood dm' = lastGood dm \<and> spokeSrc dm' = spokeSrc dm"
  using assms
  by (auto simp: tick_publish_def Let_def nextSeq_def reloadSpokes_def split: sum.splits prod.splits if_splits)

lemma tick_publish_frame:
  assumes t: "tick_publish cr env dm w = (r, dm', w')" and f: "store_frame (e_store env) P"
    and g: "\<forall>s. P s \<longrightarrow> P (snd (e_gatherSRFLX env s))" and w: "P w"
  shows "P w'"
proof -
  obtain refl w1 where r: "e_gatherSRFLX env w = (refl, w1)" by fastforce
  then have "P w1" using g w by (metis snd_conv)
  then have "P (snd (Publish (e_store env) st key v w1))" for st key v
    using store_frame.Publish_frame [OF f] by (metis prod.collapse)
  with \<open>P w1\<close> show ?thesis using t r by (auto simp: tick_publish_def Let_def split: sum.splits prod.splits)
qed

lemma buildPlans_frame:
  assumes "buildPlans cr env dm mine w = (r, w')" "store_frame (e_store env) P" "P w"
  shows "P w'"
  using assms store_reads.FetchStable_frame [OF store_frame.axioms(1) [OF assms(2)] assms(3)]
  by (auto simp: buildPlans_def split: sum.splits prod.splits)

lemma stable_loop_down:
  assumes "\<forall>key s. \<exists>x s'. get_op ops key s = (Inl x, s')" "\<forall>s. ctx_op ops s = None" "\<forall>d s. fst (sleep_op ops d s) = None"
  shows "\<exists>x s'. stable_loop cr ops clk ro pause (Suc k) [] lastErr s = (Inl x, s')"
proof (induction k arbitrary: lastErr s)
  case 0
  obtain x s' where "Fetch cr ops ro (clk s) s = (Inl x, s')"
    using assms(1) by (metis (mono_tags, lifting) Fetch_def Read_def case_prod_conv sum.case(1))
  then show ?case using assms(2) by (simp add: stable_result_def merge_view_def)
next
  case (Suc k)
  obtain x s1 where f: "Fetch cr ops ro (clk s) s = (Inl x, s1)"
    using assms(1) by (metis (mono_tags, lifting) Fetch_def Read_def case_prod_conv sum.case(1))
  obtain s2 where p: "sleep_op ops pause s1 = (None, s2)" using assms(3) by (metis prod.collapse)
  show ?case using Suc.IH [of "Some x" s2] f p assms(2) by (simp add: merge_view_def)
qed

lemma buildPlans_down:
  assumes "buildPlans cr env dm mine w = (r, w')" "\<forall>key s. \<exists>x s'. get_op (e_store env) key s = (Inl x, s')"
    "\<forall>s. ctx_op (e_store env) s = None" "\<forall>d s. fst (sleep_op (e_store env) d s) = None"
  shows "\<exists>x. r = Inl x"
proof -
  have "\<exists>x s'. FetchStable cr (e_store env) (e_now env) ro 3 (400 * 1000000) w = (Inl x, s')" for ro
    using stable_loop_down [OF assms(2-4), of cr "e_now env" ro "400 * 1000000" 2 None w]
    by (simp add: FetchStable_def numeral_3_eq_3 numeral_2_eq_2)
  then show ?thesis using assms(1) by (auto simp: buildPlans_def split: sum.splits prod.splits) (metis Inl_Inr_False Pair_inject)
qed

text \<open>A store that answers nothing.\<close>

definition dead_store :: "lab store_ops" where
  "dead_store = \<lparr>put_op = \<lambda>key v w. (Some ErrUnavailable, w), get_op = \<lambda>key w. (Inl ErrUnavailable, w),
     sleep_op = \<lambda>d w. (None, w), ctx_op = \<lambda>w. None\<rparr>"

text \<open>But once the context has ended, the fetch gives an empty roster and no error: the tick plans
  the spokes only, and its first \<open>Apply\<close> drops every other peer from the device.\<close>

theorem ended_context_plans_spokes_only:
  assumes "ctx_op (e_store env) w \<noteq> None"
  shows "buildPlans cr env dm mine w = (Inr (List.map_filter (spoke_plan cr dm) (e_range env (spokes dm) w)), w)"
proof -
  have "FetchStable cr (e_store env) clk ro 3 pause w = (Inr [], w)" for clk ro pause
    using assms by (simp add: FetchStable_def stable_result_def numeral_3_eq_3)
  then show ?thesis by (simp add: buildPlans_def NewRoster_def plans_of_def Names_def)
qed

section \<open>Properties\<close>

text \<open>C18: racing a candidate ends: every larger number of rounds gives the same outcome. It says
  yes only after a handshake that came after the race began, and no only once the whole wait has
  passed.\<close>

theorem race_wait_is_bounded:
  assumes "waits env" "0 < racePoll dm" "0 \<le> raceWait dm" "tryConnect env dm pub ip port w = (b, w')"
    "e_now env w \<le> e_now env (e_probe env ip port w)" "try_rounds dm \<le> k"
  shows "try_loop env (racePoll dm) pub (e_now env w) (e_now env w + raceWait dm) k (e_probe env ip port w) = (b, w') \<and>
     (if b then dev_Handshake (e_dev env) pub w' > e_now env w else e_now env w + raceWait dm \<le> e_now env w')"
proof -
  let ?dl = "e_now env w + raceWait dm" and ?w = "e_probe env ip port w"
  have l: "try_loop env (racePoll dm) pub (e_now env w) ?dl (try_rounds dm) ?w = (b, w')"
    using assms(4) by (simp add: tryConnect_def Let_def)
  have d: "?dl \<le> e_now env ?w + int (try_rounds dm) * racePoll dm"
    using try_rounds_enough [OF assms(2,3)] assms(5) by linarith
  have "try_loop env (racePoll dm) pub (e_now env w) ?dl k ?w = (b, w')"
    using try_loop_enough [OF assms(1,2) d assms(6)] l by simp
  moreover have "?dl \<le> e_now env w'" if "\<not> b" using try_loop_waited [OF assms(1,2) _ d] l that by simp
  moreover have "dev_Handshake (e_dev env) pub w' > e_now env w" if b
    using tryConnect_True [of env dm pub ip port w w'] assms(4) that by simp
  ultimately show ?thesis by simp
qed

theorem race_wait_is_bounded_witness:
  "\<exists>b w'. tryConnect lab_env demo_node ''B'' [] 0 demo_lab = (b, w') \<and>
     try_loop lab_env 1 ''B'' 0 1 100 (e_probe lab_env [] 0 demo_lab) = (b, w')"
proof -
  obtain b w' where t: "tryConnect lab_env demo_node ''B'' [] 0 demo_lab = (b, w')" by fastforce
  have r: "racePoll demo_node = 1" "raceWait demo_node = 1" "try_rounds demo_node \<le> 100"
    by (simp_all add: demo_node_def try_rounds_def)
  have n: "e_now lab_env demo_lab = 0" "e_now lab_env demo_lab \<le> e_now lab_env (e_probe lab_env [] 0 demo_lab)"
    by (simp_all add: lab_env_def demo_lab_def empty_world_def)
  from race_wait_is_bounded [OF waits_lab _ _ t n(2) r(3)] r n t show ?thesis by auto
qed

text \<open>The subnets read from announcements, for IPv4 ones: every announced network that
  parses and no other, none twice, and printing them and reading them again changes nothing.\<close>

theorem announced_subnets_canonical:
  assumes "\<forall>s \<in> set ss. \<forall>n. cidr_of s = Some n \<longrightarrow> canon4 n"
  shows "distinct (parseCIDRs ss) \<and> set (parseCIDRs ss) = {n. \<exists>s \<in> set ss. cidr_of s = Some n} \<and>
     parseCIDRs (map ipnet_string (parseCIDRs ss)) = parseCIDRs ss"
proof -
  let ?N = "{n. \<exists>s \<in> set ss. cidr_of s = Some n}"
  note f = parseCIDRs_fold [of ss]
  have d: "distinct (parseCIDRs ss)" using f by (simp add: distinct_map)
  have c: "\<forall>n \<in> set (parseCIDRs ss). canon4 n" using f assms by auto
  have "?N \<subseteq> set (parseCIDRs ss)"
  proof
    fix n assume n: "n \<in> ?N"
    then have "ipnet_string n \<in> ipnet_string ` set (parseCIDRs ss)" using f by blast
    then obtain m where m: "m \<in> set (parseCIDRs ss)" "ipnet_string n = ipnet_string m" by auto
    with ipnet_string_inj [of n m] c n assms show "n \<in> set (parseCIDRs ss)" by auto
  qed
  with f d parseCIDRs_print [OF c d] show ?thesis by blast
qed

theorem announced_subnets_canonical_witness:
  "parseCIDRs (map ipnet_string (parseCIDRs [ipnet_string demo_cidr, ''junk''])) = parseCIDRs [ipnet_string demo_cidr, ''junk'']"
proof -
  have "cidr_of (ipnet_string demo_cidr) = Some demo_cidr"
    using ipnet_string_no_space [OF demo_cidr_ok(1)] trim_space_no_space [of "ipnet_string demo_cidr"]
    by (auto simp: cidr_of_def parse_cidr_ipnet_string [OF demo_cidr_ok(1)])
  moreover have "cidr_of ''junk'' = None" by code_simp
  ultimately have "\<forall>s \<in> set [ipnet_string demo_cidr, ''junk'']. \<forall>n. cidr_of s = Some n \<longrightarrow> canon4 n"
    using demo_cidr_ok(1) by simp
  from announced_subnets_canonical [OF this] show ?thesis by blast
qed


lemma demo_nat: "lab_nat_ok demo_lab \<and> lab_nat_srcs demo_lab = {}"
  by (simp add: lab_nat_ok_def lab_nat_srcs_def memnat.nat_ok_def memnat.nat_srcs_def demo_lab_def demo_router_def
      empty_host_def tracked_rules_def ann_rules_def spoke_specs_def router_ok_def)


text \<open>C17: eviction drops exactly the spokes that had connected and have been quiet for three
  times the staleness limit. A spoke that never connected stays, and so does one whose key does
  not derive; what is dropped is dropped from the file as well.\<close>

theorem eviction_drops_quiet_spokes:
  assumes e: "evictStaleSpokes cr lab_env dm w = (dm', w')" and d: "distinct (spokes dm)" "\<forall>n \<in> set (spokes dm). spoke_name n"
    and f: "cfg_SpokesFile (dm_cfg dm) \<noteq> []" "LoadSpokes lab_fs_ops (cfg_SpokesFile (dm_cfg dm)) w = Inr s" "set s = set (spokes dm)"
    and st: "0 < cfg_StaleAfter (dm_cfg dm)" "3 * cfg_StaleAfter (dm_cfg dm) < 2 ^ 63"
  shows "set (spokes dm') = {n \<in> set (spokes dm). \<forall>pub. NodeWGPubKey cr (dm_d dm) n = Inr pub \<longrightarrow>
       fake_Handshake pub (lab_dev w) = zero_time \<or>
       since (clock (lab_net w)) (fake_Handshake pub (lab_dev w)) < 3 * cfg_StaleAfter (dm_cfg dm)} \<and>
     (\<exists>s'. LoadSpokes lab_fs_ops (cfg_SpokesFile (dm_cfg dm)) w' = Inr s' \<and> set s' = set (spokes dm'))"
proof -
  let ?path = "cfg_SpokesFile (dm_cfg dm)"
  have ev: "spokeEvictAfter dm = 3 * cfg_StaleAfter (dm_cfg dm)"
    using st by (simp add: spokeEvictAfter_def i64_id)
  have sp: "spokes dm' = filter (\<lambda>n. \<not> stale_spoke cr lab_env dm w n) (spokes dm)"
    by (rule evictStaleSpokes_spokes [OF e ranges_lab d(1)])
  have q: "\<not> stale_spoke cr lab_env dm w n \<longleftrightarrow> (\<forall>pub. NodeWGPubKey cr (dm_d dm) n = Inr pub \<longrightarrow>
       fake_Handshake pub (lab_dev w) = zero_time \<or>
       since (clock (lab_net w)) (fake_Handshake pub (lab_dev w)) < 3 * cfg_StaleAfter (dm_cfg dm))" for n
    by (auto simp: stale_spoke_def ev Let_def lab_env_def lab_dev_ops_def fake_dev_def split: sum.splits)
  have "\<exists>s'. LoadSpokes lab_fs_ops ?path w' = Inr s' \<and> set s' = set (spokes dm')"
  proof (cases "filter (stale_spoke cr lab_env dm w) (spokes dm) = []")
    case True
    then have "w' = w" using e by (simp add: evictStaleSpokes_def Let_def lab_env_def)
    moreover have "set (spokes dm') = set (spokes dm)" using True sp by (auto simp: filter_empty_conv)
    ultimately show ?thesis using f(2,3) by simp
  next
    case False
    then have "w' = snd (SaveSpokes lab_fs_ops ?path (spokes dm') w)"
      using e f(1) by (auto simp: evictStaleSpokes_def Let_def lab_env_def)
    then have "SaveSpokes lab_fs_ops ?path (spokes dm') w = (None, w')" using SaveSpokes_lab by (metis prod.collapse)
    from labfs.Load_after_Save [OF this f(1)] d(2) sp show ?thesis by auto
  qed
  moreover have "set (spokes dm') = {n \<in> set (spokes dm). \<not> stale_spoke cr lab_env dm w n}" unfolding sp by simp
  ultimately show ?thesis unfolding q by blast
qed

theorem eviction_drops_quiet_spokes_witness:
  "\<exists>dm' w' s'. evictStaleSpokes demo_crypto lab_env (demo_node\<lparr>spokes := [''phone''], dm_cfg := (dm_cfg demo_node)\<lparr>cfg_SpokesFile := ''s''\<rparr>\<rparr>)
       (demo_lab\<lparr>lab_fs := [(''s'', ''phone'')]\<rparr>) = (dm', w') \<and>
     LoadSpokes lab_fs_ops ''s'' w' = Inr s' \<and> set s' = set (spokes dm')"
proof -
  let ?dm = "demo_node\<lparr>spokes := [''phone''], dm_cfg := (dm_cfg demo_node)\<lparr>cfg_SpokesFile := ''s''\<rparr>\<rparr>"
  let ?w = "demo_lab\<lparr>lab_fs := [(''s'', ''phone'')]\<rparr>"
  obtain dm' w' where e: "evictStaleSpokes demo_crypto lab_env ?dm ?w = (dm', w')" by fastforce
  have p: "parse_spokes ''phone'' = [''phone'']" by code_simp
  have l: "LoadSpokes lab_fs_ops ''s'' ?w = Inr [''phone'']"
    by (simp add: LoadSpokes_def lab_fs_ops_def mem_fs_def p)
  have "cfg_StaleAfter (dm_cfg ?dm) = 180 * sec"
    by (simp add: demo_node_def with_defaults_def demo_cfg_def)
  then have "0 < cfg_StaleAfter (dm_cfg ?dm)" "3 * cfg_StaleAfter (dm_cfg ?dm) < 2 ^ 63" by (simp_all add: sec_def)
  from eviction_drops_quiet_spokes [OF e _ _ _ _ _ this, of "[''phone'']", THEN conjunct2] l demo_spoke_name
  have "\<exists>s'. LoadSpokes lab_fs_ops ''s'' w' = Inr s' \<and> set s' = set (spokes dm')" by simp
  with e show ?thesis by blast
qed

text \<open>C19: an outage of the store is an error, not an empty mesh. While every read of the store fails
  and the context of the tick has not ended, a tick reports an error and does nothing to the
  device, the routes, the firewall or the spokes file: whatever the store and STUN do not touch
  stays as it was, and so do the recorded winners and the books of the daemon.\<close>

theorem store_outage_spares_device:
  assumes t: "Tick cr env dm w = (e, dm', w')"
    and down: "\<forall>key s. \<exists>x s'. get_op (e_store env) key s = (Inl x, s')"
    and time: "\<forall>s. ctx_op (e_store env) s = None" "\<forall>d s. fst (sleep_op (e_store env) d s) = None"
    and frame: "store_frame (e_store env) P" "\<forall>s. P s \<longrightarrow> P (snd (e_gatherSRFLX env s))" and w: "P w"
  shows "e \<noteq> None \<and> P w' \<and> same_node dm dm' \<and> lastGood dm' = lastGood dm \<and> spokeSrc dm' = spokeSrc dm"
proof -
  obtain r dm1 w1 where p: "tick_publish cr env dm w = (r, dm1, w1)" by (metis prod_cases3)
  have dm1: "same_node dm dm1" "lastGood dm1 = lastGood dm" "spokeSrc dm1 = spokeSrc dm"
    using tick_publish_node [OF p] tick_publish_books [OF p] by simp_all
  have w1: "P w1" by (rule tick_publish_frame [OF p frame w])
  obtain q w2 where b: "buildPlans cr env dm1 (case r of Inl _ \<Rightarrow> [] | Inr m \<Rightarrow> m) w1 = (q, w2)" by fastforce
  have "P w2" by (rule buildPlans_frame [OF b frame(1) w1])
  moreover obtain x where "q = Inl x" using buildPlans_down [OF b down time] by blast
  ultimately show ?thesis using t p b dm1 w1 by (auto simp: Tick_def split: sum.splits)
qed

theorem store_outage_spares_device_witness:
  "\<exists>e dm' w'. Tick demo_crypto (lab_env\<lparr>e_store := dead_store\<rparr>) demo_node demo_lab = (e, dm', w') \<and> e \<noteq> None \<and> w' = demo_lab"
proof -
  let ?env = "lab_env\<lparr>e_store := dead_store\<rparr>"
  obtain e dm' w' where t: "Tick demo_crypto ?env demo_node demo_lab = (e, dm', w')" by (metis prod_cases3)
  have f: "store_frame (e_store ?env) (\<lambda>w. w = demo_lab)" by unfold_locales (auto simp: dead_store_def)
  have "e \<noteq> None \<and> w' = demo_lab"
    using store_outage_spares_device [OF t _ _ _ f] by (simp add: dead_store_def) (simp add: lab_env_def)
  with t show ?thesis by blast
qed

end
