(* ===== verification/Commands.thy ===== *)
theory Commands
  imports Cli Service Upkeep
begin

text \<open>
  The commands of \<open>cmd/meshd/main.go\<close>: \<open>init\<close>, \<open>export\<close>, \<open>remove\<close>, \<open>peek\<close>, \<open>stop\<close>, the start and
  the shutdown of a node, and \<open>main\<close>, which resolves the configuration and picks one of them.

  The host is \<open>cli_env\<close>: files, the interface list, the store a backend reaches, firewall and
  kernel, the random source, and the environment of the daemon for a chosen device and router,
  over one world \<open>'w\<close>. Flag parsing is the \<open>flag\<close> package's: \<open>Flags\<close> is its result.
  \<open>time.ParseDuration\<close> and the YAML parser are arguments. A call of \<open>fatalf\<close> is \<open>Inl\<close>; what a
  command prints besides its result is not modelled. The first tick of a node runs beside the
  loop in the code and before it here.
\<close>

section \<open>The host\<close>

datatype node_dev = FakeDev | LinuxDev LinuxDevice

record 'w cli_env =
  ce_fs :: "'w fs_ops"
  ce_stat :: "string \<Rightarrow> 'w \<Rightarrow> bool"
  ce_euid :: int
  ce_random :: "bytes option"
  ce_now :: "'w \<Rightarrow> time"
  ce_store :: "backend \<Rightarrow> 'w store_ops"
  ce_ifaces :: "'w \<Rightarrow> net_iface list option"
  ce_fw :: "'w fw_ops"
  ce_kernel :: "'w kernel_ops"
  ce_wgctrl :: "'w \<Rightarrow> goerr option"
  ce_range :: "string list \<Rightarrow> 'w \<Rightarrow> string list"
  ce_node :: "node_dev \<Rightarrow> router option \<Rightarrow> 'w env"
  ce_yaml :: "bytes \<Rightarrow> MeshConfig res"
  ce_duration :: "string \<Rightarrow> duration res"
  ce_sys :: "'w sys_ops"
  ce_print :: "nat \<Rightarrow> bool"

definition blank :: "string \<Rightarrow> bool" where
  "blank s \<longleftrightarrow> trim_space s = []"

section \<open>\<open>init\<close>\<close>

text \<open>What the command reports; \<open>ir_Secret\<close> is the secret it prints when it made one.\<close>

record InitReport =
  ir_Name :: string
  ir_Path :: string
  ir_Address :: ip
  ir_PublicKey :: bytes
  ir_Port :: int
  ir_IFace :: string
  ir_Backend :: string
  ir_RosterKey :: string
  ir_Secret :: "string option"

definition init_path :: "'w cli_env \<Rightarrow> string \<Rightarrow> string" where
  "init_path ce outPath =
     (if outPath = [] then if ce_euid ce = 0 then ''/etc/meshd.yaml'' else ''meshd.yaml'' else outPath)"

definition init_report :: "crypto \<Rightarrow> Deriver \<Rightarrow> ipnet \<Rightarrow> MeshConfig \<Rightarrow> string \<Rightarrow> bool \<Rightarrow> InitReport res" where
  "init_report cr d cidr rc path generated =
     (case NodeWGKey cr d (mc_Name rc) of
        Inl e \<Rightarrow> Inl (Wrap ''key'' e)
      | Inr key \<Rightarrow>
          (case OverlayIP cr d (mc_Name rc) cidr of
             Inl e \<Rightarrow> Inl (Wrap ''overlay ip'' e)
           | Inr ip \<Rightarrow> Inr \<lparr>ir_Name = mc_Name rc, ir_Path = path, ir_Address = ip, ir_PublicKey = wg_public cr key,
               ir_Port = mc_Port rc, ir_IFace = mc_IFace rc, ir_Backend = mc_Backend rc, ir_RosterKey = RosterKey cr d,
               ir_Secret = (if generated then Some (mc_PSK rc) else None)\<rparr>))"

definition init_config :: "'w cli_env \<Rightarrow> MeshConfig \<Rightarrow> (MeshConfig \<times> bool) res" where
  "init_config ce rc =
     (if blank (mc_PSK rc) then case genPSK (ce_random ce) of Inl e \<Rightarrow> Inl e | Inr p \<Rightarrow> Inr (rc\<lparr>mc_PSK := p\<rparr>, True)
      else Inr (rc, False))"

definition runInit ::
  "crypto \<Rightarrow> 'w cli_env \<Rightarrow> MeshConfig \<Rightarrow> string \<Rightarrow> Deriver \<Rightarrow> ipnet \<Rightarrow> 'w \<Rightarrow> InitReport res \<times> 'w" where
  "runInit cr ce rc0 outPath d cidr w =
     (let path = init_path ce outPath in
      if ce_stat ce path w then (Inl (Errorf ''refusing to overwrite''), w)
      else case init_config ce rc0 of
        Inl e \<Rightarrow> (Inl e, w)
      | Inr (rc, generated) \<Rightarrow>
          (case write_file (ce_fs ce) path (renderConfigYAML (ce_print ce) rc) w of
             (Some e, w1) \<Rightarrow> (Inl (Wrap ''write'' e), w1)
           | (None, w1) \<Rightarrow> (init_report cr d cidr rc path generated, w1)))"

section \<open>\<open>export\<close> and \<open>remove\<close>\<close>

definition first_addr :: "CandType \<Rightarrow> Candidate list \<Rightarrow> string" where
  "first_addr t cands = (case find (\<lambda>c. Type c = t) cands of None \<Rightarrow> [] | Some c \<Rightarrow> Addr c)"

definition pick_endpoint :: "string \<Rightarrow> Candidate list \<Rightarrow> string" where
  "pick_endpoint endpointFlag cands =
     (if endpointFlag \<noteq> [] then endpointFlag
      else if first_addr CandHost cands \<noteq> [] then first_addr CandHost cands
      else first_addr CandSRFLX cands)"

text \<open>The routes baked into the file; a failed fetch leaves our own announcements.\<close>

definition export_routes ::
  "crypto \<Rightarrow> 'w cli_env \<Rightarrow> 'w store_ops \<Rightarrow> Deriver \<Rightarrow> ipnet \<Rightarrow> MeshConfig \<Rightarrow> 'w \<Rightarrow> string list res \<times> 'w" where
  "export_routes cr ce ops d cidr rc w =
     (case NewRoster d (mc_Name rc) (Some cidr) of
        Inl e \<Rightarrow> (Inl (Wrap ''roster'' e), w)
      | Inr ro \<Rightarrow>
          (case FetchStable cr ops (ce_now ce) ro 4 sec w of
             (res, w1) \<Rightarrow>
               (let recs = (case res of Inl _ \<Rightarrow> [] | Inr r \<Rightarrow> r);
                    adv = map (\<lambda>n. case map_of recs n of None \<Rightarrow> [] | Some r \<Rightarrow> Adv r) (ce_range ce (map fst recs) w1)
                in (Inr (map ipnet_string (parseCIDRs (mc_Announce rc)) @ concat adv), w1))))"

text \<open>\<open>Inr (Some conf)\<close>: written to standard output; \<open>Inr None\<close>: written to \<open>outPath\<close>.\<close>

definition runExport ::
  "crypto \<Rightarrow> 'w cli_env \<Rightarrow> Deriver \<Rightarrow> 'w store_ops \<Rightarrow> ipnet \<Rightarrow> MeshConfig \<Rightarrow> string \<Rightarrow> string \<Rightarrow> string \<Rightarrow> string \<Rightarrow> string
     \<Rightarrow> 'w \<Rightarrow> bytes option res \<times> 'w" where
  "runExport cr ce d ops cidr rc remoteRaw outPath endpointFlag routesFlag spokesPath w =
     (if blank (mc_PSK rc) then (Inl (Errorf ''missing PSK''), w)
      else if remoteRaw = [] then (Inl (Errorf ''-export requires -remote NAME''), w)
      else if routesFlag \<notin> {[], ''all'', ''none''} then (Inl (Errorf ''-routes''), w)
      else
        (let endpoint = pick_endpoint endpointFlag (LocalCandidates (ce_ifaces ce w) (mc_Port rc)) in
         if endpoint = [] then (Inl (Errorf ''no usable local address found''), w)
         else case (if routesFlag \<noteq> ''none'' then export_routes cr ce ops d cidr rc w else (Inr [], w)) of
             (Inl e, w1) \<Rightarrow> (Inl e, w1)
           | (Inr extra, w1) \<Rightarrow>
               (case ExportConf cr (ce_print ce) (ce_now ce w1)
                       \<lparr>ec_Deriver = Some d, ec_CIDR = Some cidr, ec_LocalName = mc_Name rc, ec_RemoteName = remoteRaw,
                        ec_Endpoint = endpoint, ec_ExtraRoutes = extra, ec_MTU = mc_MTU rc\<rparr> of
                  Inl e \<Rightarrow> (Inl (Wrap ''export'' e), w1)
                | Inr conf \<Rightarrow>
                    (case AddSpoke (ce_fs ce) spokesPath remoteRaw w1 of
                       (_, w2) \<Rightarrow>
                         if outPath = [] then (Inr (Some conf), w2)
                         else (case write_file (ce_fs ce) outPath conf w2 of
                             (Some e, w3) \<Rightarrow> (Inl (Wrap ''write'' e), w3)
                           | (None, w3) \<Rightarrow> (Inr None, w3))))))"

definition runRemove :: "'w cli_env \<Rightarrow> string \<Rightarrow> string \<Rightarrow> 'w \<Rightarrow> string res \<times> 'w" where
  "runRemove ce spokesPath remoteRaw w =
     (let name = NormalizeName remoteRaw in
      if name = [] then (Inl (Errorf ''-remove requires -remote NAME''), w)
      else if spokesPath = [] then (Inl (Errorf ''no config file found''), w)
      else case RemoveSpoke (ce_fs ce) spokesPath name w of
          (Some e, w1) \<Rightarrow> (Inl (Wrap ''remove spoke'' e), w1)
        | (None, w1) \<Rightarrow> (Inr name, w1))"

section \<open>\<open>peek\<close>\<close>

definition dash :: string where
  "dash = [CHR 0xE2, CHR 0x80, CHR 0x94]"

definition or_dash :: "string \<Rightarrow> string" where
  "or_dash s = (if s = [] then ''-'' else s)"

definition peek_row :: "time \<Rightarrow> string \<Rightarrow> Record \<Rightarrow> string" where
  "peek_row now n r =
     pad_right 14 n @ '' '' @ pad_right 16 (IP r) @ '' '' @ pad_left 5 (int_str (Port r)) @ ''  '' @
     pad_left 4 (int_str (i64 (unix_sec now - TS r))) @ ''s  '' @
     pad_right 46 (or_dash (join ''|'' (map (\<lambda>c. Type c @ '':'' @ Addr c) (Candidates r)))) @ '' '' @
     or_dash (join '','' (Adv r)) @ [nl]"

definition peek_text :: "crypto \<Rightarrow> Deriver \<Rightarrow> time \<Rightarrow> (string, Record) gomap \<Rightarrow> string" where
  "peek_text cr d now recs =
     (let names = Names recs in
      ''roster '' @ RosterKey cr d @ '' '' @ dash @ '' '' @ nat_str (length names) @ '' live node(s) (signature- and binding-verified)'' @ [nl] @
      (if names = [] then []
       else pad_right 14 ''NAME'' @ '' '' @ pad_right 16 ''OVERLAY'' @ '' '' @ pad_left 5 ''PORT'' @ ''  '' @ pad_left 5 ''AGE'' @ ''  '' @
            pad_right 46 ''CANDIDATES'' @ '' ANNOUNCED'' @ [nl] @
            concat (map (\<lambda>n. case map_of recs n of None \<Rightarrow> [] | Some r \<Rightarrow> peek_row now n r) names)))"

definition runPeek :: "crypto \<Rightarrow> 'w cli_env \<Rightarrow> Deriver \<Rightarrow> 'w store_ops \<Rightarrow> ipnet \<Rightarrow> 'w \<Rightarrow> string res \<times> 'w" where
  "runPeek cr ce d ops cidr w =
     (case NewRoster d [] (Some cidr) of
        Inl e \<Rightarrow> (Inl (Wrap ''roster'' e), w)
      | Inr ro \<Rightarrow>
          (case FetchStable cr ops (ce_now ce) ro 4 sec w of
             (Inl e, w1) \<Rightarrow> (Inl (Wrap ''fetch'' e), w1)
           | (Inr recs, w1) \<Rightarrow> (Inr (peek_text cr d (ce_now ce w1) recs), w1)))"

section \<open>\<open>stop\<close>\<close>

definition stopInterface :: "'w cli_env \<Rightarrow> string \<Rightarrow> 'w \<Rightarrow> goerr option \<times> 'w" where
  "stopInterface ce iface w =
     (if iface = [] then (Some (Errorf ''no iface''), w)
      else case NewLinuxDevice (ce_wgctrl ce w) iface of
        Inl e \<Rightarrow> (Some e, w)
      | Inr ld \<Rightarrow> linux_Delete (ce_kernel ce) ld w)"

definition spoke_addrs :: "crypto \<Rightarrow> 'w cli_env \<Rightarrow> Deriver \<Rightarrow> ipnet \<Rightarrow> string \<Rightarrow> 'w \<Rightarrow> ip list" where
  "spoke_addrs cr ce d cidr spokesPath w =
     (case LoadSpokes (ce_fs ce) spokesPath w of
        Inl _ \<Rightarrow> []
      | Inr names \<Rightarrow> List.map_filter (\<lambda>n. case OverlayIP cr d n cidr of Inl _ \<Rightarrow> None | Inr ip \<Rightarrow> Some ip) (ce_range ce names w))"

definition runStop :: "crypto \<Rightarrow> 'w cli_env \<Rightarrow> Deriver \<Rightarrow> ipnet \<Rightarrow> MeshConfig \<Rightarrow> string \<Rightarrow> 'w \<Rightarrow> goerr option \<times> 'w" where
  "runStop cr ce d cidr rc spokesPath w =
     stopInterface ce (mc_IFace rc)
       (CleanupFirewall (ce_fw ce) (mc_IFace rc) (mc_Port rc) (Some cidr) (parseCIDRs (mc_Announce rc))
          (spoke_addrs cr ce d cidr spokesPath w) w)"

section \<open>The node\<close>

text \<open>Device and router of the node. A host without iptables gets no router at all, whatever
  \<open>NewLinuxRouter\<close> returned with that error.\<close>

definition open_host :: "'w cli_env \<Rightarrow> MeshConfig \<Rightarrow> 'w \<Rightarrow> (node_dev \<times> router option) res option \<times> 'w" where
  "open_host ce rc w =
     (if mc_DryRun rc then (Some (Inr (FakeDev, None)), w)
      else case NewLinuxDevice (ce_wgctrl ce w) (mc_IFace rc) of
        Inl e \<Rightarrow> (Some (Inl (Wrap ''device'' e)), w)
      | Inr ld \<Rightarrow>
          (case NewLinuxRouter (ce_fw ce) (mc_IFace rc) (mc_Port rc) (mc_FirewallSelfHeal rc) True w of
             None \<Rightarrow> (None, w)
           | Some (r, None, w1) \<Rightarrow> (Some (Inr (LinuxDev ld, r)), w1)
           | Some (r, Some e, w1) \<Rightarrow>
               if err_is e ErrNoIptables then (Some (Inr (LinuxDev ld, None)), w1)
               else (Some (Inl (Wrap ''router'' e)), w1)))"

text \<open>The stopper: the router is closed, then the interface deleted; both errors are only logged.
  A call on the missing router is a panic, \<open>None\<close>.\<close>

definition stopper :: "'w cli_env \<Rightarrow> node_dev \<Rightarrow> router option \<Rightarrow> 'w \<Rightarrow> 'w option" where
  "stopper ce dev r w =
     (case dev of
        FakeDev \<Rightarrow> Some w
      | LinuxDev ld \<Rightarrow>
          (case r of
             None \<Rightarrow> None
           | Some _ \<Rightarrow> (case rtr_Close (e_router (ce_node ce dev r)) w of (_, w1) \<Rightarrow> Some (snd (linux_Delete (ce_kernel ce) ld w1)))))"

definition node_config :: "MeshConfig \<Rightarrow> ipnet \<Rightarrow> duration \<Rightarrow> duration \<Rightarrow> string \<Rightarrow> Config" where
  "node_config rc cidr poll stale spokesPath =
     \<lparr>cfg_Name = mc_Name rc, cfg_IFace = mc_IFace rc, cfg_CIDR = cidr, cfg_Port = mc_Port rc, cfg_MTU = mc_MTU rc,
      cfg_Poll = poll, cfg_StaleAfter = stale, cfg_StunServers = mc_Stun rc, cfg_StunTimeout = 0,
      cfg_Announce = mc_Announce rc, cfg_SpokesFile = spokesPath\<rparr>"

datatype outcome =
    Usage
  | Fatal goerr
  | Panic
  | DidService
  | DidInit InitReport
  | DidExport "bytes option"
  | DidRemove string
  | DidPeek string
  | DidStop
  | StillRunning
  | Bye run_result

text \<open>From the opened host on: construction, set-up, the first tick, the loop over its events
  and, once that has ended, the stopper.\<close>

definition serve ::
  "crypto \<Rightarrow> 'w cli_env \<Rightarrow> run_event list \<Rightarrow> Deriver \<Rightarrow> ReliableStore \<Rightarrow> Config \<Rightarrow> node_dev \<Rightarrow> router option \<Rightarrow> 'w
     \<Rightarrow> outcome \<times> 'w" where
  "serve cr ce evs d st cfg dev r w =
     (let env = ce_node ce dev r in
      case NewDaemon cr env cfg d st w of
        Inl e \<Rightarrow> (Fatal (Wrap ''daemon'' e), w)
      | Inr dm \<Rightarrow>
          (case NodeWGPubKey cr d (cfg_Name (dm_cfg dm)) of
             Inl e \<Rightarrow> (Fatal (Wrap ''key'' e), w)
           | Inr _ \<Rightarrow>
               (case dm_Setup env dm w of
                  (Some e, w1) \<Rightarrow> (Fatal (Wrap ''setup'' e), w1)
                | (None, w1) \<Rightarrow>
                    (case Tick cr env dm w1 of
                       (_, dm1, w2) \<Rightarrow>
                         (case Run cr env evs dm1 w2 of
                            (Running, dm2, w3) \<Rightarrow> (StillRunning, w3)
                          | (res, dm2, w3) \<Rightarrow>
                              (case stopper ce dev r w3 of None \<Rightarrow> (Panic, w3) | Some w4 \<Rightarrow> (Bye res, w4)))))))"

section \<open>\<open>main\<close>\<close>

text \<open>\<open>filepath.Clean\<close>, on the elements of a path; then \<open>filepath.Dir\<close> and the spoke list beside
  the configuration file.\<close>

fun clean_elems :: "bool \<Rightarrow> string list \<Rightarrow> string list \<Rightarrow> string list" where
  "clean_elems rooted out [] = rev out"
| "clean_elems rooted out (e # es) =
     (if e = [] \<or> e = ''.'' then clean_elems rooted out es
      else if e = ''..'' then
        (if out \<noteq> [] \<and> hd out \<noteq> ''..'' then clean_elems rooted (tl out) es
         else if rooted then clean_elems rooted out es
         else clean_elems rooted (e # out) es)
      else clean_elems rooted (e # out) es)"

definition clean_path :: "string \<Rightarrow> string" where
  "clean_path p =
     (let rooted = has_prefix p ''/''; es = clean_elems rooted [] (split_on (CHR ''/'') p) in
      if rooted then ''/'' @ join ''/'' es else if es = [] then ''.'' else join ''/'' es)"

definition file_dir :: "string \<Rightarrow> string" where
  "file_dir p = clean_path (rev (dropWhile (\<lambda>c. c \<noteq> CHR ''/'') (rev p)))"

definition spokes_path :: "string \<Rightarrow> string" where
  "spokes_path configF = (if configF = [] then [] else clean_path (file_dir configF @ ''/'' @ ''meshd.spokes''))"

record Flags =
  fl_config :: string
  fl_stop :: bool
  fl_export :: bool
  fl_init :: bool
  fl_peek :: bool
  fl_remove :: bool
  fl_service :: bool
  fl_install :: bool
  fl_uninstall :: bool
  fl_system :: string
  fl_insecure :: bool
  fl_remote :: string
  fl_out :: string
  fl_endpoint :: string
  fl_routes :: string
  fl_set :: "(string, string) gomap"

definition built_in :: "string \<Rightarrow> MeshConfig" where
  "built_in name = zero_config\<lparr>mc_Name := name, mc_IFace := ''wgmesh0'', mc_CIDR := ''10.99.0.0/16'', mc_Port := 51820,
     mc_MTU := 1420, mc_Poll := ''15s'', mc_Stale := ''3m'', mc_Backend := ''opendht''\<rparr>"

text \<open>Only variables that are set and not empty reach the resolver.\<close>

definition env_vars :: "(string \<Rightarrow> string) \<Rightarrow> (string, string) gomap" where
  "env_vars getenv = map (\<lambda>k. (k, getenv k)) (filter (\<lambda>k. getenv k \<noteq> []) [''MESH_PSK'', ''MESH_NAME''])"

definition read_res :: "'w cli_env \<Rightarrow> 'w \<Rightarrow> string \<Rightarrow> bytes res" where
  "read_res ce w path = (case read_file (ce_fs ce) path w of Inl _ \<Rightarrow> Inl (Errorf ''open'') | Inr b \<Rightarrow> Inr b)"

definition resolve ::
  "'w cli_env \<Rightarrow> (string \<Rightarrow> string) \<Rightarrow> string res \<Rightarrow> int \<Rightarrow> Flags \<Rightarrow> 'w \<Rightarrow> MeshConfig res" where
  "resolve ce getenv host pid fl w =
     (let defs = Some (built_in (defaultName host pid)); env = env_vars getenv in
      if fl_config fl = [] then Inr (ResolveMesh defs None env (Some (fl_set fl)))
      else case LoadMeshConfig (read_res ce w) (ce_yaml ce) (fl_config fl) of
        Inl e \<Rightarrow> Inl (Wrap ''config'' e)
      | Inr f \<Rightarrow> Inr (ResolveMesh defs (Some f) env (Some (fl_set fl))))"

text \<open>The checks every command but \<open>service\<close> goes through.\<close>

definition checked :: "'w cli_env \<Rightarrow> MeshConfig \<Rightarrow> (ipnet \<times> duration \<times> duration) res" where
  "checked ce rc =
     (case parse_cidr (mc_CIDR rc) of
        None \<Rightarrow> Inl (Errorf ''bad cidr'')
      | Some (_, cidr) \<Rightarrow>
          (case ce_duration ce (mc_Poll rc) of
             Inl e \<Rightarrow> Inl (Wrap ''bad poll'' e)
           | Inr poll \<Rightarrow>
               (case ce_duration ce (mc_Stale rc) of
                  Inl e \<Rightarrow> Inl (Wrap ''bad stale'' e)
                | Inr stale \<Rightarrow>
                    if list_ex (\<lambda>a. parse_cidr (trim_space a) = None) (mc_Announce rc) then Inl (Errorf ''bad announce entry'')
                    else Inr (cidr, poll, stale))))"

text \<open>The commands that need the store, in the order the code asks for them.\<close>

definition with_store ::
  "crypto \<Rightarrow> 'w cli_env \<Rightarrow> run_event list \<Rightarrow> Flags \<Rightarrow> MeshConfig \<Rightarrow> ipnet \<Rightarrow> duration \<Rightarrow> duration \<Rightarrow> Deriver \<Rightarrow> backend \<Rightarrow> ReliableStore
     \<Rightarrow> 'w \<Rightarrow> outcome \<times> 'w" where
  "with_store cr ce evs fl rc cidr poll stale d be st w =
     (let sp = spokes_path (fl_config fl); ops = ce_store ce be in
      if fl_export fl then
        (case runExport cr ce d ops cidr rc (fl_remote fl) (fl_out fl) (fl_endpoint fl) (fl_routes fl) sp w of
           (Inl e, w1) \<Rightarrow> (Fatal e, w1) | (Inr c, w1) \<Rightarrow> (DidExport c, w1))
      else if fl_remove fl then
        (case runRemove ce sp (fl_remote fl) w of (Inl e, w1) \<Rightarrow> (Fatal e, w1) | (Inr n, w1) \<Rightarrow> (DidRemove n, w1))
      else if blank (mc_PSK rc) then (Fatal (Errorf ''missing PSK''), w)
      else if fl_peek fl then
        (case runPeek cr ce d ops cidr w of (Inl e, w1) \<Rightarrow> (Fatal e, w1) | (Inr t, w1) \<Rightarrow> (DidPeek t, w1))
      else if fl_stop fl then
        (case runStop cr ce d cidr rc sp w of (Some e, w1) \<Rightarrow> (Fatal (Wrap ''stop'' e), w1) | (None, w1) \<Rightarrow> (DidStop, w1))
      else
        (case open_host ce rc w of
           (None, w1) \<Rightarrow> (Panic, w1)
         | (Some (Inl e), w1) \<Rightarrow> (Fatal e, w1)
         | (Some (Inr (dev, r)), w1) \<Rightarrow> serve cr ce evs d st (node_config rc cidr poll stale sp) dev r w1))"

text \<open>\<open>nargs\<close> is \<open>len(os.Args)\<close>; \<open>evs\<close> are the events a running node will see.\<close>

definition main ::
  "crypto \<Rightarrow> 'w cli_env \<Rightarrow> (string \<Rightarrow> string) \<Rightarrow> string res \<Rightarrow> int \<Rightarrow> nat \<Rightarrow> Flags \<Rightarrow> run_event list \<Rightarrow> 'w \<Rightarrow> outcome \<times> 'w" where
  "main cr ce getenv host pid nargs fl evs w =
     (if nargs \<le> 1 then (Usage, w)
      else if fl_service fl then 
        (case runService (ce_sys ce) (fl_config fl) (fl_install fl) (fl_uninstall fl) (fl_system fl) w of
           (Some e, w1) \<Rightarrow> (Fatal e, w1) | (None, w1) \<Rightarrow> (DidService, w1))
      else case resolve ce getenv host pid fl w of
        Inl e \<Rightarrow> (Fatal e, w)
      | Inr rc \<Rightarrow>
          (case checked ce rc of
             Inl e \<Rightarrow> (Fatal e, w)
           | Inr (cidr, poll, stale) \<Rightarrow>
               (let d = NewDeriver (mc_PSK rc) in
                if fl_init fl then
                  (case runInit cr ce rc (fl_out fl) d cidr w of (Inl e, w1) \<Rightarrow> (Fatal e, w1) | (Inr r, w1) \<Rightarrow> (DidInit r, w1))
                else case newStore (mc_Backend rc) (join '','' (mc_Proxies rc)) (fl_insecure fl) of
                  Inl e \<Rightarrow> (Fatal e, w)
                | Inr (be, st) \<Rightarrow> with_store cr ce evs fl rc cidr poll stale d be st w)))"

section \<open>Lemmas\<close>

lemma blank_iff: "blank s \<longleftrightarrow> (\<forall>c \<in> set s. is_space c)"
proof -
  have "blank s \<longleftrightarrow> dropWhile is_space (rev (dropWhile is_space s)) = []"
    by (simp add: blank_def trim_space_def trim_right_space_def trim_left_space_def)
  also have "\<dots> \<longleftrightarrow> (\<forall>c \<in> set (dropWhile is_space s). is_space c)" by simp
  also have "\<dots> \<longleftrightarrow> dropWhile is_space s = []"
    by (metis dropWhile_eq_Nil_conv empty_iff hd_dropWhile hd_in_set list.set(1))
  finally show ?thesis by simp
qed

lemma genPSK_not_blank: "genPSK (Some (c # b)) = Inr p \<Longrightarrow> \<not> blank p"
proof -
  have "\<exists>r. b64_groups (a # l) = b64_chr (a div 4) # r" for a l by (cases l rule: b64_groups.cases) auto
  then obtain r where r: "b64 (c # b) = b64_chr (of_char c div 4) # r" by (auto simp: b64_def)
  have n: "of_char c div 4 < (64 :: nat)" using of_char_le_255 [of c] by simp
  have "\<not> is_space (b64_chr (of_char c div 4))"
  proof
    assume "is_space (b64_chr (of_char c div 4))"
    then have "(of_char (b64_chr (of_char c div 4)) :: nat) \<in> {9, 10, 11, 12, 13, 32}" by (auto simp: is_space_def)
    with of_char_b64_chr [OF n] show False by (auto split: if_splits)
  qed
  with r show "genPSK (Some (c # b)) = Inr p \<Longrightarrow> \<not> blank p" by (auto simp: genPSK_def blank_iff)
qed

lemma runInit_InrD:
  assumes "runInit cr ce rc outPath d cidr w = (Inr r, w')"
  shows "ir_Path r = init_path ce outPath \<and> \<not> ce_stat ce (ir_Path r) w \<and> ir_RosterKey r = RosterKey cr d \<and>
     OverlayIP cr d (mc_Name rc) cidr = Inr (ir_Address r) \<and>
     (\<exists>rc'. write_file (ce_fs ce) (ir_Path r) (renderConfigYAML (ce_print ce) rc') w = (None, w') \<and>
        (if blank (mc_PSK rc) then \<exists>p. genPSK (ce_random ce) = Inr p \<and> rc' = rc\<lparr>mc_PSK := p\<rparr> \<and> ir_Secret r = Some p
         else rc' = rc \<and> ir_Secret r = None))"
  using assms
  by (auto simp: runInit_def init_config_def init_report_def Let_def split: if_splits sum.splits prod.splits option.splits)

lemma runExport_InrD:
  assumes "runExport cr ce d ops cidr rc remote outPath ep routes sp w = (Inr c, w')"
  shows "\<exists>conf extra endpoint now w1 w2 e.
     ExportConf cr (ce_print ce) now \<lparr>ec_Deriver = Some d, ec_CIDR = Some cidr, ec_LocalName = mc_Name rc, ec_RemoteName = remote,
       ec_Endpoint = endpoint, ec_ExtraRoutes = extra, ec_MTU = mc_MTU rc\<rparr> = Inr conf \<and>
     AddSpoke (ce_fs ce) sp remote w1 = (e, w2) \<and>
     (if outPath = [] then c = Some conf \<and> w' = w2 else c = None \<and> write_file (ce_fs ce) outPath conf w2 = (None, w'))"
  using assms unfolding runExport_def Let_def
  by (auto split: if_splits sum.splits prod.splits option.splits)

lemma NewDaemon_spokes:
  "NewDaemon cr env cfg d st w = Inr dm \<Longrightarrow>
   spokes dm = (case LoadSpokes (e_fs env) (cfg_SpokesFile cfg) w of Inl _ \<Rightarrow> [] | Inr s \<Rightarrow> s)"
proof -
  assume n: "NewDaemon cr env cfg d st w = Inr dm"
  define c where "c = with_defaults cfg"
  have c: "cfg_SpokesFile c = cfg_SpokesFile cfg" by (simp add: c_def with_defaults_def)
  from n show ?thesis
    unfolding NewDaemon_def c_def [symmetric] Let_def by (auto simp: c split: option.splits sum.splits)
qed

lemma spoke_name_valid: "NodeWGKey cr d n = Inr k \<Longrightarrow> spoke_name (NormalizeName n)"
proof -
  assume k: "NodeWGKey cr d n = Inr k"
  have "\<not> name_char nl" by (simp add: name_char_def is_lower_def is_digit_def nl_def)
  with NodeWGKey_valid [OF k] have "nl \<notin> set (NormalizeName n)" by (auto simp: list_all_iff)
  moreover have "NormalizeName n \<noteq> []"
    using k by (auto simp: NodeWGKey_def ValidateName_def Let_def split: option.splits if_splits)
  ultimately show ?thesis by (simp add: spoke_name_def NormalizeName_idem)
qed

lemma AddSpoke_lab: "fst (AddSpoke lab_fs_ops path n w) = None"
  using labfs.LoadSpokes_total [of path w] SaveSpokes_lab by (auto simp: AddSpoke_def Let_def)

text \<open>A host of files in memory with no network, no kernel device and no service manager.\<close>

definition demo_cli :: "lab cli_env" where
  "demo_cli =
     \<lparr>ce_fs = lab_fs_ops, ce_stat = \<lambda>p w. map_of (lab_fs w) p \<noteq> None, ce_euid = 0,
      ce_random = Some (replicate 32 (CHR 0x07)), ce_now = \<lambda>w. clock (lab_net w), ce_store = \<lambda>b. lab_store_ops,
      ce_ifaces = \<lambda>w. None,
      ce_fw = \<lparr>x_run = \<lambda>b a w. ((False, []), w), x_save = \<lambda>t a w. None, x_look = \<lambda>b w. False, x_read = \<lambda>w. Some ''0'',
        x_write = \<lambda>s w. (False, w), nft_new = \<lambda>w. False, nft_chains = \<lambda>w. None, nft_rules = \<lambda>c w. None,
        nft_add = \<lambda>r w. w, nft_del = \<lambda>r w. (None, w), nft_flush = \<lambda>w. (None, w)\<rparr>,
      ce_kernel = \<lparr>k_Device = \<lambda>i w. Inl (Errorf ''no device''), k_ConfigurePeers = \<lambda>i p w. (None, w),
        k_ConfigureKey = \<lambda>i b p w. (None, w), k_LinkByName = \<lambda>i w. Inl (Errorf ''no link''), k_LinkAdd = \<lambda>i m w. (None, w),
        k_LinkSetMTU = \<lambda>l m w. (None, w), k_LinkSetUp = \<lambda>l w. (None, w), k_AddrReplace = \<lambda>l a w. (None, w),
        k_RouteReplace = \<lambda>i r w. (None, w), k_RouteDel = \<lambda>i r w. (None, w), k_LinkDel = \<lambda>l w. (None, w)\<rparr>,
      ce_wgctrl = \<lambda>w. None, ce_range = \<lambda>ks w. ks, ce_node = \<lambda>d r. lab_env, ce_yaml = \<lambda>b. Inl (Errorf ''yaml''),
      ce_duration = \<lambda>s. Inr 0,
      ce_sys = \<lparr>sy_stat = \<lambda>p w. False, sy_read = \<lambda>p w. None, sy_write = \<lambda>p b w. (Some (Errorf ''read-only''), w),
        sy_remove = \<lambda>p w. (Some (Errorf ''read-only'', False), w), sy_exec = \<lambda>c w. (False, w), sy_euid = 0,
        sy_executable = Inr ''/usr/bin/meshd'', sy_evalSymlinks = Inr\<rparr>,
      ce_print = \<lambda>r. False\<rparr>"

definition demo_flags :: Flags where
  "demo_flags = \<lparr>fl_config = [], fl_stop = False, fl_export = False, fl_init = False, fl_peek = False, fl_remove = False,
     fl_service = False, fl_install = False, fl_uninstall = False, fl_system = [], fl_insecure = False, fl_remote = [],
     fl_out = [], fl_endpoint = [], fl_routes = ''all'', fl_set = []\<rparr>"

section \<open>Properties\<close>

text \<open>C33: without a secret nothing happens. When the resolved secret is blank, every command but
  \<open>init\<close>, \<open>remove\<close> and \<open>service\<close> ends in an error before it reads or changes anything of the
  host: no export, no peek, no stop and no node.\<close>

theorem no_command_without_secret:
  assumes "1 < nargs" "\<not> fl_service fl" "resolve ce getenv host pid fl w = Inr rc" "blank (mc_PSK rc)"
    "\<not> fl_init fl" "\<not> fl_remove fl"
  shows "\<exists>e. main cr ce getenv host pid nargs fl evs w = (Fatal e, w)"
proof -
  have "\<exists>e. with_store cr ce evs fl rc cidr poll stale d be st w = (Fatal e, w)" for cidr poll stale d be st
    using assms(4,6) by (simp add: with_store_def runExport_def Let_def)
  with assms show ?thesis by (auto simp: main_def Let_def split: sum.splits)
qed

theorem no_command_without_secret_witness:
  "\<exists>e. main demo_crypto demo_cli (\<lambda>k. []) (Inr ''Alpha'') 1 2 (demo_flags\<lparr>fl_peek := True\<rparr>) [] demo_lab = (Fatal e, demo_lab)"
proof -
  let ?fl = "demo_flags\<lparr>fl_peek := True\<rparr>"
  obtain rc where "resolve demo_cli (\<lambda>k. []) (Inr ''Alpha'') 1 ?fl demo_lab = Inr rc" "mc_PSK rc = []"
    by (simp add: resolve_def demo_flags_def Let_def ResolveMesh_def env_vars_def built_in_def zero_config_def
        mergeMeshInto_def flagsToMesh_def flag_str_def)
  with no_command_without_secret [of 2 ?fl demo_cli "\<lambda>k. []" "Inr ''Alpha''" 1 demo_lab rc demo_crypto "[]"]
  show ?thesis by (simp add: demo_flags_def blank_iff)
qed



text \<open>A host without iptables: whatever the configuration, the node that ends panics in its
  shutdown, after the interface was closed and before it is deleted.\<close>

theorem shutdown_panics_without_iptables:
  assumes "open_host ce rc w = (Some (Inr (LinuxDev ld, r)), w1)" "\<not> x_look (ce_fw ce) iptablesBin w"
    "x_read (ce_fw ce) w \<noteq> None"
  shows "stopper ce (LinuxDev ld) r w2 = None"
  using assms by (auto simp: open_host_def NewLinuxRouter_def stopper_def split: if_splits sum.splits option.splits)

end
