(* ===== verification/Keydump.thy ===== *)
theory Keydump
  imports Spokes
begin

text \<open>
  The key dump tool (\<open>cmd/keydump/main.go\<close>): for a secret and a list of node names, a line
  per name with the private and the public WireGuard key. It panics at the first name that has
  no key, or when no secret is given; what it printed before stays printed.
\<close>

datatype panic = IndexPanic | ErrPanic goerr

definition keydump_line :: "crypto \<Rightarrow> string \<Rightarrow> bytes \<Rightarrow> string" where
  "keydump_line cr n k = n @ '' priv='' @ b64 k @ '' pub='' @ b64 (wg_public cr k) @ [nl]"

fun keydump_names :: "crypto \<Rightarrow> Deriver \<Rightarrow> string list \<Rightarrow> string list \<times> panic option" where
  "keydump_names cr dr [] = ([], None)"
| "keydump_names cr dr (n # ns) =
     (case NodeWGKey cr dr n of
        Inl e \<Rightarrow> ([], Some (ErrPanic e))
      | Inr k \<Rightarrow> (case keydump_names cr dr ns of (ls, p) \<Rightarrow> (keydump_line cr n k # ls, p)))"

text \<open>\<open>os.Args[2:]\<close> is in range whenever \<open>os.Args[1]\<close> is.\<close>

definition keydump_main :: "crypto \<Rightarrow> string list \<Rightarrow> string list \<times> panic option" where
  "keydump_main cr args =
     (case args of
        _ # secret # names \<Rightarrow> keydump_names cr (NewDeriver secret) names
      | _ \<Rightarrow> ([], Some IndexPanic))"

lemma NodeWGPubKey_of: "NodeWGKey cr dr n = Inr k \<Longrightarrow> NodeWGPubKey cr dr n = Inr (wg_public cr k)"
  by (simp add: NodeWGPubKey_def)

text \<open>The lines are those of the names up to the first invalid one, each with the public key the
  other nodes of the mesh derive for the name; the tool comes to an end without a panic exactly
  when every name is valid.\<close>

lemma keydump_names_valid:
  assumes "lengths_ok cr"
  shows "keydump_names cr dr ns = (ls, p) \<Longrightarrow>
     (let ok = takeWhile (\<lambda>n. ValidateName (NormalizeName n) = None) ns in
      length ls = length ok \<and> (p = None \<longleftrightarrow> ok = ns) \<and>
      (\<forall>i < length ls. \<exists>k pub. NodeWGKey cr dr (ok ! i) = Inr k \<and> NodeWGPubKey cr dr (ok ! i) = Inr pub \<and>
         ls ! i = ok ! i @ '' priv='' @ b64 k @ '' pub='' @ b64 pub @ [nl]))"
proof (induction ns arbitrary: ls p)
  case (Cons n ns)
  show ?case
  proof (cases "NodeWGKey cr dr n")
    case (Inl e)
    then have "ValidateName (NormalizeName n) \<noteq> None" using NodeWGKey_ok [OF assms] by fastforce
    with Inl Cons.prems show ?thesis by (auto simp: Let_def)
  next
    case (Inr k)
    then have v: "ValidateName (NormalizeName n) = None" using NodeWGKey_InrD by blast
    obtain ls' p' where r: "keydump_names cr dr ns = (ls', p')" by fastforce
    with Inr Cons.prems have ls: "ls = keydump_line cr n k # ls'" "p = p'" by auto
    from Cons.IH [OF r] v Inr ls NodeWGPubKey_of [OF Inr] show ?thesis
      by (auto simp: Let_def nth_Cons keydump_line_def split: nat.splits)
  qed
qed simp

end
