(* ===== verification/Mesh.thy ===== *)
theory Mesh
  imports Lifecycle
begin

text \<open>
  A mesh of daemons on one store. Every node has its own device, router, files and probes; the
  store and the clock are shared. A node goes through the three parts of \<open>Tick\<close> (announce,
  plan, converge) in steps of its own, and the steps of the nodes interleave in any order with
  the passing of time, with changes of a node's own world, with nodes joining and restarting,
  and with anybody writing anything into the store. What one node announces is held by the store whatever the others do, so every
  other node that plans before the announcement expires finds it.
\<close>

section \<open>Nodes and steps\<close>

datatype phase = Idle | Announced "Candidate list" | Planned "peerPlan list"

record node =
  nd_dm :: Daemon
  nd_lab :: lab
  nd_phase :: phase

record mesh =
  mesh_net :: mock_world
  mesh_nodes :: "node list"

definition empty_mesh :: "time \<Rightarrow> duration \<Rightarrow> mesh" where
  "empty_mesh t0 life = \<lparr>mesh_net = \<lparr>clock = t0, deadline = None, mock = NewMockStore life\<rparr>, mesh_nodes = []\<rparr>"

text \<open>The world a node acts in: its own, on the shared store.\<close>

definition node_world :: "mesh \<Rightarrow> nat \<Rightarrow> lab" where
  "node_world s i = (nd_lab (mesh_nodes s ! i))\<lparr>lab_net := mesh_net s\<rparr>"

definition set_node :: "nat \<Rightarrow> Daemon \<Rightarrow> phase \<Rightarrow> lab \<Rightarrow> mesh \<Rightarrow> mesh" where
  "set_node i dm ph w s =
     \<lparr>mesh_net = lab_net w, mesh_nodes = (mesh_nodes s)[i := \<lparr>nd_dm = dm, nd_lab = w, nd_phase = ph\<rparr>]\<rparr>"

datatype mesh_event =
    Join
  | Restart nat
  | Announce nat
  | Plan nat
  | Converge nat
  | Elapse duration
  | World nat
  | Inject string bytes

inductive mesh_step :: "crypto \<Rightarrow> mesh \<Rightarrow> mesh_event \<Rightarrow> mesh \<Rightarrow> bool" for cr where
  step_join: "NewDaemon cr lab_env cfg d st (w\<lparr>lab_net := mesh_net s\<rparr>) = Inr dm \<Longrightarrow>
    mesh_step cr s Join (s\<lparr>mesh_nodes := mesh_nodes s @ [\<lparr>nd_dm = dm, nd_lab = w, nd_phase = Idle\<rparr>]\<rparr>)"
| step_restart: "i < length (mesh_nodes s) \<Longrightarrow> NewDaemon cr lab_env cfg d st (node_world s i) = Inr dm \<Longrightarrow>
    mesh_step cr s (Restart i) (set_node i dm Idle (node_world s i) s)"
| step_announce: "i < length (mesh_nodes s) \<Longrightarrow> nd_phase (mesh_nodes s ! i) = Idle \<Longrightarrow>
    tick_publish cr lab_env (nd_dm (mesh_nodes s ! i)) (node_world s i) = (r, dm', w') \<Longrightarrow>
    mesh_step cr s (Announce i) (set_node i dm' (case r of Inl _ \<Rightarrow> Idle | Inr mine \<Rightarrow> Announced mine) w' s)"
| step_plan: "i < length (mesh_nodes s) \<Longrightarrow> nd_phase (mesh_nodes s ! i) = Announced mine \<Longrightarrow>
    buildPlans cr lab_env (nd_dm (mesh_nodes s ! i)) mine (node_world s i) = (r', w') \<Longrightarrow>
    mesh_step cr s (Plan i)
      (set_node i (nd_dm (mesh_nodes s ! i)) (case r' of Inl _ \<Rightarrow> Idle | Inr plans \<Rightarrow> Planned plans) w' s)"
| step_converge: "i < length (mesh_nodes s) \<Longrightarrow> nd_phase (mesh_nodes s ! i) = Planned plans \<Longrightarrow>
    tick_apply cr lab_env (nd_dm (mesh_nodes s ! i)) plans (node_world s i) = (e, dm', w') \<Longrightarrow>
    mesh_step cr s (Converge i) (set_node i dm' Idle w' s)"
| step_elapse: "0 \<le> t \<Longrightarrow>
    mesh_step cr s (Elapse t) (s\<lparr>mesh_net := (mesh_net s)\<lparr>clock := clock (mesh_net s) + t\<rparr>\<rparr>)"
| step_world: "i < length (mesh_nodes s) \<Longrightarrow>
    mesh_step cr s (World i) (s\<lparr>mesh_nodes := (mesh_nodes s)[i := (mesh_nodes s ! i)\<lparr>nd_lab := w\<rparr>]\<rparr>)"
| step_inject: "mesh_step cr s (Inject key v) (s\<lparr>mesh_net := snd (put_op mock_ops key v (mesh_net s))\<rparr>)"

inductive_cases announceE: "mesh_step cr s (Announce i) s'"
inductive_cases planE: "mesh_step cr s (Plan i) s'"
inductive_cases convergeE: "mesh_step cr s (Converge i) s'"

inductive mesh_run :: "crypto \<Rightarrow> mesh \<Rightarrow> mesh_event list \<Rightarrow> mesh \<Rightarrow> bool" for cr where
  run_nil: "mesh_run cr s [] s"
| run_snoc: "mesh_run cr s evs s1 \<Longrightarrow> mesh_step cr s1 ev s2 \<Longrightarrow> mesh_run cr s (evs @ [ev]) s2"

lemma set_node_simps [simp]:
  "mesh_net (set_node i dm ph w s) = lab_net w"
  "length (mesh_nodes (set_node i dm ph w s)) = length (mesh_nodes s)"
  "i < length (mesh_nodes s) \<Longrightarrow> mesh_nodes (set_node i dm ph w s) ! i = \<lparr>nd_dm = dm, nd_lab = w, nd_phase = ph\<rparr>"
  by (simp_all add: set_node_def)

lemma node_world_simps [simp]: "lab_net (node_world s i) = mesh_net s"
  by (simp add: node_world_def)

lemma set_node_again [simp]: "set_node i dm2 ph2 w2 (set_node i dm1 ph1 w1 s) = set_node i dm2 ph2 w2 s"
  by (simp add: set_node_def)

lemma node_world_set_node [simp]: "i < length (mesh_nodes s) \<Longrightarrow> node_world (set_node i dm ph w s) i = w"
  by (simp add: node_world_def)

lemma mesh_run_trans: "mesh_run cr s2 evs' s3 \<Longrightarrow> mesh_run cr s1 evs s2 \<Longrightarrow> mesh_run cr s1 (evs @ evs') s3"
proof (induction rule: mesh_run.induct)
  case (run_snoc s evs'' sa ev sb)
  then show ?case using mesh_run.run_snoc [of cr s1 "evs @ evs''" sa ev sb] by simp
qed simp

lemma mesh_run_one: "mesh_step cr s ev s' \<Longrightarrow> mesh_run cr s [ev] s'"
  using run_snoc [OF run_nil] by fastforce

section \<open>A property of the shared store\<close>

text \<open>What no read, no wait and no time changes, planning and converging keep; what no put
  changes either, every step of every node keeps.\<close>

definition reads_stable :: "(mock_world \<Rightarrow> bool) \<Rightarrow> bool" where
  "reads_stable P \<longleftrightarrow>
     (\<forall>n key. P n \<longrightarrow> P (snd (get_op mock_ops key n))) \<and> (\<forall>n t. P n \<longrightarrow> P (snd (sleep_op mock_ops t n))) \<and>
     (\<forall>n t. P n \<longrightarrow> 0 \<le> t \<longrightarrow> P (n\<lparr>clock := clock n + t\<rparr>))"

definition store_stable :: "(mock_world \<Rightarrow> bool) \<Rightarrow> bool" where
  "store_stable P \<longleftrightarrow> reads_stable P \<and> (\<forall>n key v. P n \<longrightarrow> P (snd (put_op mock_ops key v n)))"

lemma reads_stable_reads:
  assumes "reads_stable P"
  shows "store_reads lab_store_ops (\<lambda>w. P (lab_net w))"
  using assms
  by unfold_locales
     (auto simp: reads_stable_def lab_store_ops_def on_net_def split: prod.splits, (metis snd_conv)+)

lemma store_stable_frame:
  assumes "store_stable P"
  shows "store_frame lab_store_ops (\<lambda>w. P (lab_net w))"
  using reads_stable_reads assms unfolding store_stable_def
  by (intro store_frame.intro store_frame_axioms.intro)
     (auto simp: lab_store_ops_def on_net_def split: prod.splits, (metis snd_conv)+)

lemma reads_stable_elapse: "reads_stable P \<Longrightarrow> P n \<Longrightarrow> 0 \<le> t \<Longrightarrow> P (n\<lparr>clock := clock n + t\<rparr>)"
  unfolding reads_stable_def by blast

lemma store_stable_reads: "store_stable P \<Longrightarrow> reads_stable P"
  by (simp add: store_stable_def)

lemma on_rt_net: "on_rt f w = (e, w') \<Longrightarrow> lab_net w' = lab_net w"
  by (auto simp: on_rt_def split: prod.splits)

lemma on_dev_net: "on_dev f w = (e, w') \<Longrightarrow> lab_net w' = lab_net w"
  by (auto simp: on_dev_def split: prod.splits)

lemma on_fs_net: "on_fs f w = (e, w') \<Longrightarrow> lab_net w' = lab_net w"
  by (auto simp: on_fs_def split: prod.splits)

lemma SaveSpokes_net: "SaveSpokes lab_fs_ops path ns w = (e, w') \<Longrightarrow> lab_net w' = lab_net w"
  by (auto simp: SaveSpokes_def lab_fs_ops_def split: if_splits prod.splits option.splits dest!: on_fs_net)

lemma reads_stable_reconciler:
  assumes "reads_stable P"
  shows "reconciler lab_env (\<lambda>w. P (lab_net w)) {} ids"
  using reads_stable_elapse [OF assms]
  by unfold_locales
     (auto simp: lab_env_def lab_dev_ops_def lab_router_ops_def dest: on_rt_net on_dev_net SaveSpokes_net)

lemma tick_publish_stable:
  assumes "store_stable P" "P (lab_net w)" "tick_publish cr lab_env dm w = (r, dm', w')"
  shows "P (lab_net w')"
proof -
  have p: "P (lab_net (snd (Publish lab_store_ops st key v w)))" for st key v
    using store_frame.Publish_frame [OF store_stable_frame [OF assms(1)] assms(2)] by (metis prod.collapse)
  from assms(2,3) show ?thesis
    by (auto simp: tick_publish_def Let_def lab_env_def split: sum.splits prod.splits) (metis p snd_conv)+
qed

lemma buildPlans_stable:
  assumes "reads_stable P" "P (lab_net w)" "buildPlans cr lab_env dm mine w = (r, w')"
  shows "P (lab_net w')"
proof -
  note f = store_reads.FetchStable_frame [OF reads_stable_reads [OF assms(1)] assms(2)]
  from assms(2,3) show ?thesis
    by (auto simp: buildPlans_def lab_env_def split: sum.splits prod.splits dest: f)
qed

lemma tick_apply_stable:
  assumes "reads_stable P" "P (lab_net w)" "tick_apply cr lab_env dm plans w = (e, dm', w')"
    "\<forall>p \<in> set plans. pd_Pub (pp_desire p) = pp_pub p"
  shows "P (lab_net w')"
  using reconciler.tick_apply_inv [OF reads_stable_reconciler [OF assms(1)] assms(3,2,4) _ refl] by simp

section \<open>The invariant of the nodes\<close>

text \<open>Every daemon of the mesh has its identity, and every plan the key it was made for.\<close>

definition node_ok :: "crypto \<Rightarrow> node \<Rightarrow> bool" where
  "node_ok cr nd \<longleftrightarrow> daemon_inv cr (nd_dm nd) \<and>
     (\<forall>plans. nd_phase nd = Planned plans \<longrightarrow> (\<forall>p \<in> set plans. pd_Pub (pp_desire p) = pp_pub p))"

definition nodes_ok :: "crypto \<Rightarrow> mesh \<Rightarrow> bool" where
  "nodes_ok cr s \<longleftrightarrow> (\<forall>nd \<in> set (mesh_nodes s). node_ok cr nd)"

lemma nodes_ok_set_node:
  "nodes_ok cr s \<Longrightarrow> node_ok cr \<lparr>nd_dm = dm, nd_lab = w, nd_phase = ph\<rparr> \<Longrightarrow> nodes_ok cr (set_node i dm ph w s)"
  by (auto simp: nodes_ok_def set_node_def dest!: set_update_subset_insert [THEN subsetD])

lemma nodes_ok_nth: "nodes_ok cr s \<Longrightarrow> i < length (mesh_nodes s) \<Longrightarrow> node_ok cr (mesh_nodes s ! i)"
  by (simp add: nodes_ok_def)

lemma daemon_inv_books: "daemon_inv cr dm \<Longrightarrow> books_ok dm"
  by (simp add: daemon_inv_def books_ok_def)

lemma plans_keyed:
  "nodes_ok cr s \<Longrightarrow> i < length (mesh_nodes s) \<Longrightarrow> nd_phase (mesh_nodes s ! i) = Planned plans \<Longrightarrow>
   \<forall>p \<in> set plans. pd_Pub (pp_desire p) = pp_pub p"
  using nodes_ok_nth by (fastforce simp: node_ok_def)

lemma tick_publish_inv: "tick_publish cr env dm w = (r, dm', w') \<Longrightarrow> daemon_inv cr dm \<Longrightarrow> daemon_inv cr dm'"
  by (blast dest: tick_publish_node daemon_inv_books intro: daemon_inv_same)

lemma tick_apply_daemon_inv:
  "tick_apply cr env dm plans w = (e, dm', w') \<Longrightarrow> daemon_inv cr dm \<Longrightarrow> daemon_inv cr dm'"
  by (blast dest: tick_apply_node daemon_inv_books intro: daemon_inv_same)

lemma mesh_step_ok: "mesh_step cr s ev s' \<Longrightarrow> nodes_ok cr s \<Longrightarrow> nodes_ok cr s'"
proof (induction rule: mesh_step.induct)
  case (step_join cfg d st w s dm)
  then show ?case by (auto simp: nodes_ok_def node_ok_def dest: NewDaemon_inv)
next
  case (step_restart i s cfg d st dm)
  then show ?case by (intro nodes_ok_set_node) (auto simp: node_ok_def dest: NewDaemon_inv)
next
  case (step_announce i s r dm' w')
  from nodes_ok_nth [OF step_announce.prems step_announce.hyps(1)] tick_publish_inv [OF step_announce.hyps(3)]
  show ?case by (intro nodes_ok_set_node [OF step_announce.prems]) (auto simp: node_ok_def split: sum.splits)
next
  case (step_plan i s mine r' w')
  from nodes_ok_nth [OF step_plan.prems step_plan.hyps(1)] buildPlans_pub step_plan.hyps(3)
  show ?case by (intro nodes_ok_set_node [OF step_plan.prems]) (auto simp: node_ok_def split: sum.splits)
next
  case (step_converge i s plans e dm' w')
  from nodes_ok_nth [OF step_converge.prems step_converge.hyps(1)] tick_apply_daemon_inv [OF step_converge.hyps(3)]
  show ?case by (intro nodes_ok_set_node [OF step_converge.prems]) (auto simp: node_ok_def)
next
  case (step_elapse t s)
  then show ?case by (simp add: nodes_ok_def)
next
  case (step_inject s key v)
  then show ?case by (simp add: nodes_ok_def)
next
  case (step_world i s w)
  from nodes_ok_nth [OF step_world.prems step_world.hyps] step_world.prems show ?case
    by (auto simp: nodes_ok_def node_ok_def dest!: set_update_subset_insert [THEN subsetD])
qed

lemma mesh_step_stable:
  assumes "mesh_step cr s ev s'" "nodes_ok cr s" "store_stable P" "P (mesh_net s)"
  shows "P (mesh_net s')"
proof -
  note rd = store_stable_reads [OF assms(3)]
  show ?thesis
    using assms(1,2,4)
  proof (induction rule: mesh_step.induct)
    case (step_announce i s r dm' w')
    then show ?case using tick_publish_stable [OF assms(3) _ step_announce.hyps(3)] by simp
  next
    case (step_plan i s mine r' w')
    then show ?case using buildPlans_stable [OF rd _ step_plan.hyps(3)] by simp
  next
    case (step_converge i s plans e dm' w')
    then show ?case using tick_apply_stable [OF rd _ step_converge.hyps(3) plans_keyed [OF step_converge.prems(1) step_converge.hyps(1,2)]] by simp
  next
    case (step_inject s key v)
    with assms(3) show ?case by (simp add: store_stable_def)
  qed (simp_all add: reads_stable_elapse [OF rd])
qed

lemma mesh_run_stable:
  assumes "mesh_run cr s evs s'" "nodes_ok cr s" "store_stable P" "P (mesh_net s)"
  shows "nodes_ok cr s' \<and> P (mesh_net s')"
  using assms by (induction rule: mesh_run.induct) (auto dest: mesh_step_ok mesh_step_stable)

lemma nodes_ok_empty: "nodes_ok cr (empty_mesh t0 life)"
  by (simp add: nodes_ok_def empty_mesh_def)

section \<open>What the store holds\<close>

text \<open>Until a given time a value is live under a key; the store is well-formed and no deadline
  is set.\<close>

definition held :: "string \<Rightarrow> bytes \<Rightarrow> time \<Rightarrow> mock_world \<Rightarrow> bool" where
  "held key v till n \<longleftrightarrow> mock_inv (mock n) \<and> deadline n = None \<and> till \<le> clock n + ttl (mock n) \<and>
     (clock n < till \<longrightarrow> (\<exists>e \<ge> till. live (clock n) (mock n) key v = Some e))"

lemma live_later:
  "mock_inv m \<Longrightarrow> live t m key v = Some e \<Longrightarrow> t \<le> u \<Longrightarrow> u < e \<Longrightarrow> live u m key v = Some e"
  by (auto simp: live_alt split: option.splits if_splits)

lemma held_elapse:
  assumes "held key v till n" "0 \<le> t"
  shows "held key v till (n\<lparr>clock := clock n + t\<rparr>)"
proof -
  have "\<exists>e \<ge> till. live (clock n + t) (mock n) key v = Some e" if l: "clock n + t < till"
  proof -
    obtain e where "till \<le> e" "live (clock n) (mock n) key v = Some e"
      using assms l by (auto simp: held_def)
    with live_later [OF _ this(2), of "clock n + t"] assms l show ?thesis by (auto simp: held_def)
  qed
  then show ?thesis using assms by (simp add: held_def)
qed

lemma held_put: "held key v till n \<Longrightarrow> held key v till (n\<lparr>mock := mock_Put (clock n) k u (mock n)\<rparr>)"
proof -
  have "ttl (mock_Put (clock n) k u (mock n)) = ttl (mock n)" by (simp add: mock_Put_def Let_def)
  then show "held key v till n \<Longrightarrow> ?thesis" by (auto simp: held_def mock_inv_put live_put)
qed

lemma held_get: 
  assumes "held key v till n" "mock_Get (clock n) k (mock n) = (vs, m)"
  shows "held key v till (n\<lparr>mock := m\<rparr>)"
proof -
  have "ttl m = ttl (mock n)" using assms(2) by (auto simp: mock_Get_def Let_def)
  with mock_Get_live [OF _ assms(2)] assms(1) show ?thesis by (simp add: held_def)
qed

lemma held_sleep: "held key v till n \<Longrightarrow> held key v till (snd (mock_sleep t n))"
  using held_elapse [of key v till n "max 0 t"] by (simp add: mock_sleep_def held_def)

lemma held_stable: "store_stable (held key v till)"
  unfolding store_stable_def reads_stable_def
  by (auto simp: mock_ops_def held_elapse held_put held_sleep split: prod.splits intro: held_get)

section \<open>Announcing, planning, converging\<close>

text \<open>On the store in memory announcing is one put of the sealed record and one get.\<close>

lemma tick_publish_put_get:
  assumes "tick_publish cr lab_env dm w = (r, dm', w')" "mock_inv (mock (lab_net w))"
  shows "\<exists>v w1 vs. sealRecord cr (Some (replicate 24 (CHR 0x07))) (dm_d dm)
       (Record_Sign cr (dm_id dm) (own_record lab_env dm (lab_own w @ lab_refl w) (dm_seq dm') w)) = Inr v \<and>
     put_op lab_store_ops (RosterKey cr (dm_d dm)) v w = (None, w1) \<and>
     get_op lab_store_ops (RosterKey cr (dm_d dm)) w1 = (Inr vs, w')"
proof -
  have rd: "lab_ready w" using assms(2) by (simp add: lab_ready_def mock_ready_def)
  obtain v st where v: "sealRecord cr (Some (replicate 24 (CHR 0x07))) (dm_d dm)
       (Record_Sign cr (dm_id dm) (own_record lab_env dm (lab_own w @ lab_refl w) (dm_seq dm') w)) = Inr v"
    "Publish lab_store_ops st (RosterKey cr (dm_d dm)) v w = (None, w')"
    using tick_publish_publishes [OF assms(1) rd] by blast
  with labkv.Publish_once [OF rd, of "RosterKey cr (dm_d dm)" v st] show ?thesis by auto
qed

text \<open>What a node announces is held for the life of a stored value.\<close>

lemma tick_publish_held:
  assumes "tick_publish cr lab_env dm w = (r, dm', w')" "mock_inv (mock (lab_net w))" "deadline (lab_net w) = None"
  shows "\<exists>v. sealRecord cr (Some (replicate 24 (CHR 0x07))) (dm_d dm)
       (Record_Sign cr (dm_id dm) (own_record lab_env dm (lab_own w @ lab_refl w) (dm_seq dm') w)) = Inr v \<and>
     held (RosterKey cr (dm_d dm)) v (clock (lab_net w) + ttl (mock (lab_net w))) (lab_net w')"
proof -
  let ?key = "RosterKey cr (dm_d dm)"
  obtain v s1 vs where v: "sealRecord cr (Some (replicate 24 (CHR 0x07))) (dm_d dm)
       (Record_Sign cr (dm_id dm) (own_record lab_env dm (lab_own w @ lab_refl w) (dm_seq dm') w)) = Inr v"
    and p: "put_op lab_store_ops ?key v w = (None, s1)" "get_op lab_store_ops ?key s1 = (Inr vs, w')"
    using tick_publish_put_get [OF assms(1,2)] by blast
  let ?n = "(lab_net w)\<lparr>mock := mock_Put (clock (lab_net w)) ?key v (mock (lab_net w))\<rparr>"
  have n1: "lab_net s1 = ?n" using p(1) by (auto simp: lab_store_ops_def on_net_def mock_ops_def)
  have "0 < ttl (mock (lab_net w))" using assms(2) by (simp add: mock_inv_def)
  then have "held ?key v (clock (lab_net w) + ttl (mock (lab_net w))) (lab_net s1)"
    using assms(2,3) by (simp add: held_def n1 mock_inv_put live_put) (simp add: mock_Put_def Let_def)
  then have "held ?key v (clock (lab_net w) + ttl (mock (lab_net w))) (lab_net w')"
    using store_reads.get_frame [OF reads_stable_reads [OF store_stable_reads [OF held_stable]] _ p(2)] by simp
  with v show ?thesis by blast
qed

definition net_ok :: "mock_world \<Rightarrow> bool" where
  "net_ok n \<longleftrightarrow> mock_inv (mock n) \<and> deadline n = None"

lemma net_ok_stable: "store_stable net_ok"
  unfolding store_stable_def reads_stable_def net_ok_def
  using mock_Get_live by (auto simp: mock_ops_def mock_sleep_def mock_inv_put split: prod.splits)

lemma net_ok_empty: "net_ok (mesh_net (empty_mesh t0 life))"
  by (simp add: net_ok_def empty_mesh_def mock_inv_new)

text \<open>What converging applies to the device is what was planned, up to the endpoints.\<close>

lemma tick_apply_applies_plans:
  assumes t: "tick_apply cr lab_env dm plans w = (e, dm', w')"
    and pub: "\<forall>p \<in> set plans. pd_Pub (pp_desire p) = pp_pub p"
  shows "\<exists>applied. History (lab_dev w') = History (lab_dev w) @ applied \<and>
     (ApplyErr (lab_dev w) = None \<longrightarrow> applied \<noteq> []) \<and>
     (\<forall>ps \<in> set applied. pd_ident ` set ps = set (plan_ids plans))"
proof (cases "ApplyErr (lab_dev w)")
  case (Some x)
  have "spared (History (lab_dev w)) {} (plan_ids plans) w'"
    by (rule labrec.tick_apply_inv [OF t _ pub _ refl]) (simp_all add: spared_def)
  then show ?thesis using Some by (auto simp: spared_def)
next
  case None
  define ps where "ps = map (initial_plan lab_env w) (map (mark_fresh lab_env dm w) plans)"
  have ok: "plans_ok {} ps" "plan_ids ps = plan_ids plans"
    using labrec.initial_plans_ok [OF pub _ refl, of "{}"] by (simp_all add: ps_def)
  let ?q = "sort_key pd_Name (map pp_desire ps)"
  obtain w1 where a: "dev_Apply (e_dev lab_env) (map pp_desire ps) w = (None, w1)"
    "History (lab_dev w1) = History (lab_dev w) @ [?q]"
    using None by (simp add: lab_env_def lab_dev_ops_def on_dev_def fake_dev_def fake_Apply_def)
  have q: "pd_ident ` set ?q = set (plan_ids plans)" using arg_cong [OF ok(2), of set] by (simp add: plan_ids_def image_image)
  have "spared (History (lab_dev w) @ [?q]) {} (plan_ids plans) w'"
    by (rule labrec.tick_apply_rest_inv [OF t ps_def a(1) _ ok]) (simp add: spared_def a(2))
  then obtain more where "History (lab_dev w') = (History (lab_dev w) @ [?q]) @ more"
    "\<forall>ps \<in> set more. pd_ident ` set ps = set (plan_ids plans)" by (auto simp: spared_def)
  with q show ?thesis by (intro exI [of _ "?q # more"]) auto
qed

text \<open>A plan step by a node that sees an announcement plans a peer for the announced node.\<close>

lemma plan_step_finds:
  assumes cr: "crypto_ok cr" and ok: "nodes_ok cr s2" and ia: "daemon_inv cr a" and ann: "announceable a w"
    and v: "sealRecord cr (Some (replicate 24 (CHR 0x07))) (dm_d a)
        (Record_Sign cr (dm_id a) (own_record lab_env a (lab_own w @ lab_refl w) sq w)) = Inr v"
    and h: "held (RosterKey cr (dm_d a)) v till (mesh_net s2)" "clock (mesh_net s2) < till"
      "clock (mesh_net s2) \<le> clock (lab_net w) + 24 * 3600 * sec"
    and p: "mesh_step cr s2 (Plan j) s3" and b: "b = nd_dm (mesh_nodes s2 ! j)"
    and same: "dm_d b = dm_d a" "cfg_CIDR (dm_cfg b) = cfg_CIDR (dm_cfg a)" "cfg_Name (dm_cfg a) \<noteq> cfg_Name (dm_cfg b)"
  shows "\<exists>plans. nd_phase (mesh_nodes s3 ! j) = Planned plans \<and>
     (\<exists>p \<in> set plans. pp_name p = cfg_Name (dm_cfg a) \<and> pd_Name (pp_desire p) = cfg_Name (dm_cfg a) \<and> pd_Pub (pp_desire p) = wg_public cr (dm_key a) \<and>
        host32 (dm_myIP a) \<in> set (pd_AllowedIPs (pp_desire p)))"
proof -
  obtain mine r' w' where 1:
    "s3 = set_node j (nd_dm (mesh_nodes s2 ! j)) (case r' of Inl _ \<Rightarrow> Idle | Inr plans \<Rightarrow> Planned plans) w' s2"
    "j < length (mesh_nodes s2)" "nd_phase (mesh_nodes s2 ! j) = Announced mine"
    "buildPlans cr lab_env (nd_dm (mesh_nodes s2 ! j)) mine (node_world s2 j) = (r', w')"
    using p by (rule planE) blast
  let ?w = "node_world s2 j"
  have ib: "daemon_inv cr b" using nodes_ok_nth [OF ok 1(2)] b by (simp add: node_ok_def)
  have seen: "lab_ready ?w" "v \<in> lab_visible ?w (RosterKey cr (dm_d a))" "deadline (lab_net ?w) = None"
    "clock (lab_net ?w) \<le> clock (lab_net w) + 24 * 3600 * sec"
    using h by (auto simp: held_def lab_ready_def lab_visible_def mock_ready_def mock_visible_def)
  from announcement_is_planned [OF cr ia ib same ann v seen, of mine] 1(4) b
  obtain plans where "r' = Inr plans"
    "\<exists>p \<in> set plans. pp_name p = cfg_Name (dm_cfg a) \<and> pd_Name (pp_desire p) = cfg_Name (dm_cfg a) \<and> pd_Pub (pp_desire p) = wg_public cr (dm_key a) \<and>
        host32 (dm_myIP a) \<in> set (pd_AllowedIPs (pp_desire p))" by auto
  then show ?thesis using 1(1,2) by simp
qed

text \<open>So does every plan step after an announcement, until it expires.\<close>

lemma announced_is_planned:
  assumes cr: "crypto_ok cr" and s: "nodes_ok cr s" "net_ok (mesh_net s)"
    and ann: "mesh_step cr s (Announce i) s1" "announceable a (node_world s i)" and run: "mesh_run cr s1 evs s2"
    and plan: "mesh_step cr s2 (Plan j) s3"
    and ab: "a = nd_dm (mesh_nodes s ! i)" "b = nd_dm (mesh_nodes s2 ! j)"
    and same: "dm_d b = dm_d a" "cfg_CIDR (dm_cfg b) = cfg_CIDR (dm_cfg a)" "cfg_Name (dm_cfg a) \<noteq> cfg_Name (dm_cfg b)"
    and time: "clock (mesh_net s2) < clock (mesh_net s) + ttl (mock (mesh_net s))"
      "clock (mesh_net s2) \<le> clock (mesh_net s) + 24 * 3600 * sec"
  shows "nodes_ok cr s3 \<and> net_ok (mesh_net s3) \<and> (\<exists>plans. nd_phase (mesh_nodes s3 ! j) = Planned plans \<and>
     (\<exists>p \<in> set plans. pp_name p = cfg_Name (dm_cfg a) \<and> pd_Name (pp_desire p) = cfg_Name (dm_cfg a) \<and>
        pd_Pub (pp_desire p) = wg_public cr (dm_key a) \<and> host32 (dm_myIP a) \<in> set (pd_AllowedIPs (pp_desire p))))"
proof -
  have "i < length (mesh_nodes s)" using ann(1) by (rule announceE)
  then have ia: "daemon_inv cr a" using nodes_ok_nth [OF s(1)] ab(1) by (simp add: node_ok_def)
  obtain r dm' w' where t: "tick_publish cr lab_env a (node_world s i) = (r, dm', w')" "mesh_net s1 = lab_net w'"
    using ann(1) by (rule announceE) (use ab(1) in auto)
  let ?till = "clock (mesh_net s) + ttl (mock (mesh_net s))"
  obtain v where v: "sealRecord cr (Some (replicate 24 (CHR 0x07))) (dm_d a)
      (Record_Sign cr (dm_id a) (own_record lab_env a (lab_own (node_world s i) @ lab_refl (node_world s i)) (dm_seq dm') (node_world s i))) = Inr v"
    "held (RosterKey cr (dm_d a)) v ?till (mesh_net s1)"
    using tick_publish_held [OF t(1)] s(2) t(2) by (auto simp: net_ok_def)
  have s2: "nodes_ok cr s2" "held (RosterKey cr (dm_d a)) v ?till (mesh_net s2)"
    using mesh_run_stable [OF run mesh_step_ok [OF ann(1) s(1)] held_stable v(2)] by simp_all
  note step = plan_step_finds [OF cr s2(1) ia ann(2) v(1) s2(2) time(1) _ plan ab(2) same]
  have "net_ok (mesh_net s2)" using s2(2) by (simp add: held_def net_ok_def)
  with step time(2) mesh_step_ok [OF plan s2(1)] mesh_step_stable [OF plan s2(1) net_ok_stable] show ?thesis by simp
qed

lemma converge_step_applies:
  assumes ok: "nodes_ok cr s4" and c: "mesh_step cr s4 (Converge j) s5"
    and p: "nd_phase (mesh_nodes s4 ! j) = Planned plans"
  shows "\<exists>applied. History (lab_dev (nd_lab (mesh_nodes s5 ! j))) = History (lab_dev (nd_lab (mesh_nodes s4 ! j))) @ applied \<and>
     (ApplyErr (lab_dev (nd_lab (mesh_nodes s4 ! j))) = None \<longrightarrow> applied \<noteq> []) \<and>
     (\<forall>ps \<in> set applied. pd_ident ` set ps = set (plan_ids plans))"
proof -
  obtain plans' e dm' w' where 1: "s5 = set_node j dm' Idle w' s4" "j < length (mesh_nodes s4)"
    "nd_phase (mesh_nodes s4 ! j) = Planned plans'"
    "tick_apply cr lab_env (nd_dm (mesh_nodes s4 ! j)) plans' (node_world s4 j) = (e, dm', w')"
    using c by (rule convergeE) blast
  note plans_keyed [OF ok 1(2) p]
  with 1 p tick_apply_applies_plans [of cr "nd_dm (mesh_nodes s4 ! j)" plans "node_world s4 j" e dm' w'] show ?thesis
    by (simp add: node_world_def)
qed

section \<open>Two nodes\<close>

text \<open>Two nodes of one secret: both join and announce themselves, and the second one plans.\<close>

lemma demo_two_nodes:
  obtains a b b' s s1 s2 s3 where
    "mesh_run demo_crypto (empty_mesh 0 0) ([Join] @ [Join]) s" "mesh_step demo_crypto s (Announce 0) s1"
    "mesh_step demo_crypto s1 (Announce 1) s2" "mesh_step demo_crypto s2 (Plan 1) s3"
    "a = nd_dm (mesh_nodes s ! 0)" "b = nd_dm (mesh_nodes s1 ! 1)" "b' = nd_dm (mesh_nodes s2 ! 1)" "b' = nd_dm (mesh_nodes s3 ! 1)"
    "node_world s 0 = demo_lab" "announceable a (node_world s 0)" "announceable b (node_world s1 1)"
    "dm_d a = demo_d" "dm_d b = demo_d" "dm_d b' = demo_d"
    "cfg_CIDR (dm_cfg a) = demo_cidr" "cfg_CIDR (dm_cfg b') = demo_cidr" "cfg_Name (dm_cfg a) = ''alpha''" "cfg_Name (dm_cfg b') = ''beta''"
    "mesh_net s = empty_world" "clock (mesh_net s2) = 0" "spokes b' = []" "length (mesh_nodes s3) = 2"
    "lab_dev (nd_lab (mesh_nodes s3 ! 1)) = NewFakeDevice"
proof -
  have net: "mesh_net (empty_mesh 0 0) = empty_world" by (simp add: empty_mesh_def empty_world_def)
  obtain a where a: "NewDaemon demo_crypto lab_env (demo_cfg ''Alpha '') demo_d NewReliable (demo_lab\<lparr>lab_net := empty_world\<rparr>) = Inr a"
    "dm_d a = demo_d" "dm_cfg a = (with_defaults (demo_cfg ''Alpha ''))\<lparr>cfg_Name := NormalizeName ''Alpha ''\<rparr>"
    using demo_daemon [OF demo_names(1)] by blast
  obtain b where b: "NewDaemon demo_crypto lab_env (demo_cfg ''beta'') demo_d NewReliable (demo_lab\<lparr>lab_net := empty_world\<rparr>) = Inr b"
    "dm_d b = demo_d" "dm_cfg b = (with_defaults (demo_cfg ''beta''))\<lparr>cfg_Name := NormalizeName ''beta''\<rparr>"
    using demo_daemon [OF demo_names(2)] by blast
  have n: "NormalizeName ''Alpha '' = ''alpha''" "NormalizeName ''beta'' = ''beta''" by code_simp+
  have c: "cfg_CIDR (with_defaults (demo_cfg m)) = demo_cidr" for m by (simp add: with_defaults_def demo_cfg_def)
  let ?nd = "\<lambda>dm. \<lparr>nd_dm = dm, nd_lab = demo_lab, nd_phase = Idle\<rparr>"
  let ?s = "\<lparr>mesh_net = empty_world, mesh_nodes = [?nd a, ?nd b]\<rparr>"
  have dl: "demo_lab\<lparr>lab_net := empty_world\<rparr> = demo_lab" by (simp add: demo_lab_def)
  have "mesh_step demo_crypto (empty_mesh 0 0) Join ((empty_mesh 0 0)\<lparr>mesh_nodes := [?nd a]\<rparr>)"
    using step_join [where s = "empty_mesh 0 0" and w = demo_lab and dm = a] a(1) by (simp add: net) (simp add: empty_mesh_def)
  moreover have "mesh_step demo_crypto ((empty_mesh 0 0)\<lparr>mesh_nodes := [?nd a]\<rparr>) Join ?s"
    using step_join [where s = "(empty_mesh 0 0)\<lparr>mesh_nodes := [?nd a]\<rparr>" and w = demo_lab and dm = b] b(1)
    by (simp add: net) (simp add: empty_mesh_def empty_world_def)
  ultimately have r: "mesh_run demo_crypto (empty_mesh 0 0) ([Join] @ [Join]) ?s"
    by (intro run_snoc [OF mesh_run_one])
  have wld: "node_world ?s 0 = demo_lab" by (simp add: node_world_def dl)
  obtain r1 a' w1 where t: "tick_publish demo_crypto lab_env a demo_lab = (r1, a', w1)" by (metis prod_cases3)
  then have t': "tick_publish demo_crypto lab_env (nd_dm (mesh_nodes ?s ! 0)) (node_world ?s 0) = (r1, a', w1)"
    using wld by simp
  obtain s1 where s1: "mesh_step demo_crypto ?s (Announce 0) s1" "mesh_net s1 = lab_net w1" "mesh_nodes s1 ! 1 = ?nd b"
      "length (mesh_nodes s1) = 2"
    using step_announce [OF _ _ t'] by (auto simp: set_node_def)
  have k1: "deadline (mesh_net s1) = None" "clock (mesh_net s1) = 0"
    using demo_tick_clock [OF t demo_ready] s1(2) by (simp_all add: demo_lab_def empty_world_def)
  have ok1: "nodes_ok demo_crypto s1" "net_ok (mesh_net s1)"
    using mesh_run_stable [OF run_snoc [OF r s1(1)] nodes_ok_empty net_ok_stable net_ok_empty] by simp_all
  obtain r2 b' w2 where u: "tick_publish demo_crypto lab_env b (node_world s1 1) = (r2, b', w2)" by (metis prod_cases3)
  then obtain mine where m: "r2 = Inr mine"
    by (auto simp: tick_publish_def Let_def lab_env_def sealRecord_def Seal_def sealRoom_def split: prod.splits)
  let ?s2 = "set_node 1 b' (Announced mine) w2 s1"
  have s2: "mesh_step demo_crypto s1 (Announce 1) ?s2"
    using step_announce [of 1 s1] u m s1(3,4) by fastforce
  have k2: "clock (mesh_net ?s2) = 0"
    using demo_tick_clock [OF u] ok1(2) k1 by (simp add: lab_ready_def mock_ready_def net_ok_def)
  obtain r3 w3 where v: "buildPlans demo_crypto lab_env b' mine w2 = (r3, w3)" by fastforce
  obtain ph where s3: "mesh_step demo_crypto ?s2 (Plan 1) (set_node 1 b' ph w3 s1)"
    using step_plan [of 1 ?s2 mine demo_crypto r3 w3] v s1(4) by auto
  let ?s3 = "set_node 1 b' ph w3 s1"
  have sb: "dm_d b' = dm_d b" "dm_cfg b' = dm_cfg b" using tick_publish_node [OF u] by (simp_all add: same_node_def)
  have nb: "nd_dm (mesh_nodes ?s2 ! 1) = b'" using s1(4) by simp
  have dev: "lab_dev w3 = NewFakeDevice"
    using buildPlans_dev [OF v] tick_publish_dev [OF u] s1(3) by (simp add: node_world_def demo_lab_def)
  have "spokes b = []"
    using b(1) by (auto simp: NewDaemon_def Let_def demo_cfg_def with_defaults_def LoadSpokes_def split: option.splits sum.splits if_splits)
  moreover have "reloadSpokes lab_env b w = b" for w by (simp add: reloadSpokes_def b(3) with_defaults_def demo_cfg_def)
  then have "spokes b' = spokes b"
    using u by (auto simp: tick_publish_def Let_def nextSeq_def split: sum.splits prod.splits if_splits)
  ultimately have bs: "spokes b' = []" by simp
  have "announceable b (node_world s1 1)"
    using demo_announceable [OF b(3)] s1(3) k1(2) by (simp add: announceable_def node_world_def demo_lab_def empty_world_def)
  note ann = this
  show thesis
  proof (rule that [OF r s1(1) s2 s3])
    show "a = nd_dm (mesh_nodes ?s ! 0)" "b = nd_dm (mesh_nodes s1 ! 1)" using s1(3) by simp_all
    show "b' = nd_dm (mesh_nodes ?s2 ! 1)" by (rule nb [symmetric])
    show "b' = nd_dm (mesh_nodes ?s3 ! 1)" "lab_dev (nd_lab (mesh_nodes ?s3 ! 1)) = NewFakeDevice" using s1(4) dev by simp_all
    show "announceable a (node_world ?s 0)" unfolding wld by (rule demo_announceable [OF a(3)])
  qed (use wld ann a(2,3) b(2,3) sb k2 bs s1(4) in \<open>simp_all add: n c\<close>)
qed

section \<open>Properties\<close>

text \<open>C2: discovery in a mesh of any number of nodes on one store. After a node has announced
  itself, and whatever steps the nodes then take, in any interleaving, with nodes joining,
  restarting and changing in their own worlds, and outsiders writing whatever they like into the
  store: a node of the same secret and range that plans
  before the announcement expires plans a peer for the announced one, under the public key of
  its private key and with its overlay address; and when that node converges, every peer set it
  applies to its device contains that peer, and it does apply one unless the device refuses.\<close>

theorem mesh_discovers:
  assumes cr: "crypto_ok cr" and reach: "mesh_run cr (empty_mesh t0 life) evs0 s"
    and ann: "mesh_step cr s (Announce i) s1" "announceable a (node_world s i)" and run: "mesh_run cr s1 evs s2"
    and plan: "mesh_step cr s2 (Plan j) s3"
    and ab: "a = nd_dm (mesh_nodes s ! i)" "b = nd_dm (mesh_nodes s2 ! j)"
    and same: "dm_d b = dm_d a" "cfg_CIDR (dm_cfg b) = cfg_CIDR (dm_cfg a)" "cfg_Name (dm_cfg a) \<noteq> cfg_Name (dm_cfg b)"
    and time: "clock (mesh_net s2) < clock (mesh_net s) + ttl (mock (mesh_net s))"
      "clock (mesh_net s2) \<le> clock (mesh_net s) + 24 * 3600 * sec"
  shows "\<exists>plans. nd_phase (mesh_nodes s3 ! j) = Planned plans \<and>
     (\<forall>evs' s4 s5. mesh_run cr s3 evs' s4 \<longrightarrow> nd_phase (mesh_nodes s4 ! j) = Planned plans \<longrightarrow>
        mesh_step cr s4 (Converge j) s5 \<longrightarrow>
        (\<exists>applied. History (lab_dev (nd_lab (mesh_nodes s5 ! j))) = History (lab_dev (nd_lab (mesh_nodes s4 ! j))) @ applied \<and>
           (ApplyErr (lab_dev (nd_lab (mesh_nodes s4 ! j))) = None \<longrightarrow> applied \<noteq> []) \<and>
           (\<forall>ps \<in> set applied. \<exists>d \<in> set ps. pd_Name d = cfg_Name (dm_cfg a) \<and>
              pd_Pub d = wg_public cr (dm_key a) \<and> host32 (dm_myIP a) \<in> set (pd_AllowedIPs d))))"
proof -
  have s: "nodes_ok cr s" "net_ok (mesh_net s)"
    using mesh_run_stable [OF reach nodes_ok_empty net_ok_stable net_ok_empty] by simp_all
  obtain plans p where s3: "nodes_ok cr s3" "net_ok (mesh_net s3)"
    and p: "nd_phase (mesh_nodes s3 ! j) = Planned plans" "p \<in> set plans" "pd_Name (pp_desire p) = cfg_Name (dm_cfg a)"
      "pd_Pub (pp_desire p) = wg_public cr (dm_key a)" "host32 (dm_myIP a) \<in> set (pd_AllowedIPs (pp_desire p))"
    using announced_is_planned [OF cr s ann run plan ab same time] by blast
  have m: "pd_ident (pp_desire p) \<in> set (plan_ids plans)" using p(2) by (simp add: plan_ids_def)
  have "\<exists>d \<in> set ps. pd_Name d = cfg_Name (dm_cfg a) \<and> pd_Pub d = wg_public cr (dm_key a) \<and>
      host32 (dm_myIP a) \<in> set (pd_AllowedIPs d)" if q: "pd_ident ` set ps = set (plan_ids plans)" for ps
  proof -
    obtain d where "d \<in> set ps" "pd_ident d = pd_ident (pp_desire p)"
      using m unfolding q [symmetric] by (metis imageE)
    with p(3-5) show ?thesis by (intro bexI [of _ d]) (simp_all add: pd_ident_def)
  qed
  note peer = this
  have "\<exists>applied. History (lab_dev (nd_lab (mesh_nodes s5 ! j))) = History (lab_dev (nd_lab (mesh_nodes s4 ! j))) @ applied \<and>
           (ApplyErr (lab_dev (nd_lab (mesh_nodes s4 ! j))) = None \<longrightarrow> applied \<noteq> []) \<and>
           (\<forall>ps \<in> set applied. \<exists>d \<in> set ps. pd_Name d = cfg_Name (dm_cfg a) \<and>
              pd_Pub d = wg_public cr (dm_key a) \<and> host32 (dm_myIP a) \<in> set (pd_AllowedIPs d))"
    if run': "mesh_run cr s3 evs' s4" and ph: "nd_phase (mesh_nodes s4 ! j) = Planned plans"
      and conv: "mesh_step cr s4 (Converge j) s5" for evs' s4 s5
  proof -
    have ok: "nodes_ok cr s4" using mesh_run_stable [OF run' s3(1) net_ok_stable s3(2)] by simp
    obtain applied where h: "History (lab_dev (nd_lab (mesh_nodes s5 ! j))) = History (lab_dev (nd_lab (mesh_nodes s4 ! j))) @ applied"
      "ApplyErr (lab_dev (nd_lab (mesh_nodes s4 ! j))) = None \<longrightarrow> applied \<noteq> []"
      "\<forall>ps \<in> set applied. pd_ident ` set ps = set (plan_ids plans)"
      using converge_step_applies [OF ok conv ph] by (elim exE conjE)
    show ?thesis by (rule exI [of _ applied]) (intro conjI ballI h(1,2) peer bspec [OF h(3)])
  qed
  with p(1) show ?thesis by (intro exI [of _ plans] conjI allI impI)
qed

theorem mesh_discovers_witness:
  "\<exists>evs s' ps d. mesh_run demo_crypto (empty_mesh 0 0) evs s' \<and>
     ps \<in> set (History (lab_dev (nd_lab (mesh_nodes s' ! 1)))) \<and> d \<in> set ps \<and> pd_Name d = ''alpha''"
proof (rule demo_two_nodes)
  fix a b b' s s1 s2 s3
  assume r: "mesh_run demo_crypto (empty_mesh 0 0) ([Join] @ [Join]) s" and st: "mesh_step demo_crypto s (Announce 0) s1"
    "mesh_step demo_crypto s1 (Announce 1) s2" "mesh_step demo_crypto s2 (Plan 1) s3"
    and ab: "a = nd_dm (mesh_nodes s ! 0)" "b' = nd_dm (mesh_nodes s2 ! 1)" "b' = nd_dm (mesh_nodes s3 ! 1)"
    and w: "node_world s 0 = demo_lab" "announceable a (node_world s 0)" "mesh_net s = empty_world" "clock (mesh_net s2) = 0"
    and f: "dm_d a = demo_d" "dm_d b' = demo_d" "cfg_CIDR (dm_cfg a) = demo_cidr" "cfg_CIDR (dm_cfg b') = demo_cidr"
      "cfg_Name (dm_cfg a) = ''alpha''" "cfg_Name (dm_cfg b') = ''beta''"
    and e: "length (mesh_nodes s3) = 2" "lab_dev (nd_lab (mesh_nodes s3 ! 1)) = NewFakeDevice"
  from mesh_discovers [OF crypto_ok_demo r st(1) w(2) mesh_run_one [OF st(2)] st(3) ab(1,2)] w f
  obtain plans where p: "nd_phase (mesh_nodes s3 ! 1) = Planned plans"
    and conv: "\<And>s5. mesh_step demo_crypto s3 (Converge 1) s5 \<Longrightarrow>
       \<exists>applied. History (lab_dev (nd_lab (mesh_nodes s5 ! 1))) = History (lab_dev (nd_lab (mesh_nodes s3 ! 1))) @ applied \<and>
           (ApplyErr (lab_dev (nd_lab (mesh_nodes s3 ! 1))) = None \<longrightarrow> applied \<noteq> []) \<and>
           (\<forall>ps \<in> set applied. \<exists>d \<in> set ps. pd_Name d = ''alpha'')"
    using run_nil [of demo_crypto s3] by (fastforce simp: empty_world_def NewMockStore_def sec_def)
  obtain e dm' w' where t: "tick_apply demo_crypto lab_env (nd_dm (mesh_nodes s3 ! 1)) plans (node_world s3 1) = (e, dm', w')"
    by (metis prod_cases3)
  have s5: "mesh_step demo_crypto s3 (Converge 1) (set_node 1 dm' Idle w' s3)"
    by (rule step_converge [OF _ p t]) (simp add: e(1))
  have "ApplyErr (lab_dev (nd_lab (mesh_nodes s3 ! 1))) = None" by (subst e(2)) (simp add: NewFakeDevice_def)
  with conv [OF s5] obtain ps d where "ps \<in> set (History (lab_dev (nd_lab (mesh_nodes (set_node 1 dm' Idle w' s3) ! 1))))"
    "d \<in> set ps" "pd_Name d = ''alpha''" by (fastforce simp: neq_Nil_conv)
  moreover note run_snoc [OF run_snoc [OF run_snoc [OF run_snoc [OF r st(1)] st(2)] st(3)] s5]
  ultimately show ?thesis by blast
qed

text \<open>The three steps of a node that nothing comes between are its \<open>Tick\<close>.\<close>

theorem tick_is_three_steps:
  assumes t: "Tick cr lab_env (nd_dm (mesh_nodes s ! i)) (node_world s i) = (e, dm', w')"
    and i: "i < length (mesh_nodes s)" "nd_phase (mesh_nodes s ! i) = Idle"
  shows "\<exists>evs. evs \<in> {[Announce i], [Announce i, Plan i], [Announce i, Plan i, Converge i]} \<and>
     mesh_run cr s evs (set_node i dm' Idle w' s)"
proof -
  obtain r dm1 w1 where p: "tick_publish cr lab_env (nd_dm (mesh_nodes s ! i)) (node_world s i) = (r, dm1, w1)"
    by (metis prod_cases3)
  note a = mesh_run_one [OF step_announce [OF i p]]
  show ?thesis
  proof (cases r)
    case (Inl x)
    then show ?thesis using t p a by (auto simp: Tick_def)
  next
    case (Inr mine)
    let ?s1 = "set_node i dm1 (Announced mine) w1 s"
    obtain r' w2 where b: "buildPlans cr lab_env dm1 mine w1 = (r', w2)" by fastforce
    let ?ph = "case r' of Inl _ \<Rightarrow> Idle | Inr plans \<Rightarrow> Planned plans"
    have a': "mesh_run cr s [Announce i] ?s1" using a Inr by simp
    have "mesh_step cr ?s1 (Plan i) (set_node i dm1 ?ph w2 s)"
      using step_plan [of i ?s1 mine cr r' w2] i b by simp
    then have b': "mesh_run cr s [Announce i, Plan i] (set_node i dm1 ?ph w2 s)"
      using run_snoc [OF a'] by fastforce
    show ?thesis
    proof (cases r')
      case (Inl x)
      then show ?thesis using t p \<open>r = Inr mine\<close> b b' by (auto simp: Tick_def)
    next
      case (Inr plans)
      let ?s2 = "set_node i dm1 (Planned plans) w2 s"
      have "tick_apply cr lab_env dm1 plans w2 = (e, dm', w')" using t p \<open>r = Inr mine\<close> b Inr by (simp add: Tick_def)
      then have "mesh_step cr ?s2 (Converge i) (set_node i dm' Idle w' s)"
        using step_converge [of i ?s2 plans cr e dm' w'] i by simp
      then have "mesh_run cr s [Announce i, Plan i, Converge i] (set_node i dm' Idle w' s)"
        using run_snoc [OF b'] Inr by fastforce
      then show ?thesis by blast
    qed
  qed
qed

end
