(* ===== verification/Provenance.thy ===== *)
theory Provenance
  imports Mesh
begin

text \<open>
  Where the peers of a mesh come from. Outsiders write into the store what they like, but not
  what opens under the box key of the mesh (they may replay what they have seen); nodes of
  other meshes share the store. Whatever happens, a node plans only peers for its own spokes
  and for nodes that hold the secret of the mesh and have announced themselves within the last
  day.
\<close>

section \<open>Announcements and outsiders\<close>

record announcement =
  an_dm :: Daemon
  an_at :: time
  an_value :: bytes

text \<open>The value a node puts into the store when it announces itself.\<close>

definition sealed_value :: "crypto \<Rightarrow> Daemon \<Rightarrow> lab \<Rightarrow> bytes" where
  "sealed_value cr dm w =
     (case tick_publish cr lab_env dm w of
        (_, dm', _) \<Rightarrow>
          (case sealRecord cr (Some (replicate 24 (CHR 0x07))) (dm_d dm)
              (Record_Sign cr (dm_id dm) (own_record lab_env dm (lab_own w @ lab_refl w) (dm_seq dm') w)) of
             Inl _ \<Rightarrow> []
           | Inr v \<Rightarrow> v))"

definition log_of :: "crypto \<Rightarrow> mesh \<Rightarrow> mesh_event \<Rightarrow> announcement list" where
  "log_of cr s ev =
     (case ev of
        Announce i \<Rightarrow> [\<lparr>an_dm = nd_dm (mesh_nodes s ! i), an_at = clock (mesh_net s),
                        an_value = sealed_value cr (nd_dm (mesh_nodes s ! i)) (node_world s i)\<rparr>]
      | _ \<Rightarrow> [])"

text \<open>A value that opens under the box key of a secret was announced by a node of that secret.\<close>

definition opens :: "crypto \<Rightarrow> Deriver \<Rightarrow> bytes \<Rightarrow> bool" where
  "opens cr dr v \<longleftrightarrow> (\<exists>plain. Open cr (RosterBoxKey cr dr) v = Inr plain)"

definition authentic :: "crypto \<Rightarrow> Deriver \<Rightarrow> announcement list \<Rightarrow> bytes \<Rightarrow> bool" where
  "authentic cr dr lg v \<longleftrightarrow> (opens cr dr v \<longrightarrow> (\<exists>a \<in> set lg. an_value a = v \<and> dm_d (an_dm a) = dr))"

text \<open>The secret is kept: what outsiders write, and what nodes of another secret announce, does
  not open under the box key; and the nodes of the secret have records that survive their
  JSON form.\<close>

definition secret_kept :: "crypto \<Rightarrow> Deriver \<Rightarrow> announcement list \<Rightarrow> mesh \<Rightarrow> mesh_event \<Rightarrow> bool" where
  "secret_kept cr dr lg s ev \<longleftrightarrow>
     (case ev of
        Inject key v \<Rightarrow> authentic cr dr lg v
      | Announce i \<Rightarrow>
          if dm_d (nd_dm (mesh_nodes s ! i)) = dr then announceable (nd_dm (mesh_nodes s ! i)) (node_world s i)
          else \<not> opens cr dr (sealed_value cr (nd_dm (mesh_nodes s ! i)) (node_world s i))
      | _ \<Rightarrow> True)"

inductive kept_run :: "crypto \<Rightarrow> Deriver \<Rightarrow> mesh \<Rightarrow> announcement list \<Rightarrow> mesh \<Rightarrow> bool" for cr dr s0 where
  kept_nil: "kept_run cr dr s0 [] s0"
| kept_step: "kept_run cr dr s0 lg s \<Longrightarrow> mesh_step cr s ev s' \<Longrightarrow> secret_kept cr dr lg s ev \<Longrightarrow>
    kept_run cr dr s0 (lg @ log_of cr s ev) s'"

section \<open>The store holds authentic values\<close>

definition stored :: "MockStore \<Rightarrow> string \<Rightarrow> bytes set" where
  "stored m key = fst ` set (entries m key)"

definition store_auth :: "crypto \<Rightarrow> Deriver \<Rightarrow> announcement list \<Rightarrow> mock_world \<Rightarrow> bool" where
  "store_auth cr dr lg n \<longleftrightarrow> (\<forall>key. \<forall>v \<in> stored (mock n) key. authentic cr dr lg v)"

lemma authentic_mono: "authentic cr dr lg v \<Longrightarrow> authentic cr dr (lg @ lg') v"
  by (auto simp: authentic_def)

lemma store_auth_mono: "store_auth cr dr lg n \<Longrightarrow> store_auth cr dr (lg @ lg') n"
  by (auto simp: store_auth_def authentic_mono)

lemma stored_purge: "stored (purgeLocked now key m) k \<subseteq> stored m k"
  by (auto simp: stored_def entries_purge)

lemma stored_Get:
  assumes "mock_Get now key m = (vs, m')"
  shows "set vs \<subseteq> stored m key" "stored m' k \<subseteq> stored m k"
  using assms stored_purge by (auto simp: mock_Get_def Let_def stored_def entries_purge split: if_splits)

lemma stored_Put: "stored (mock_Put now key v m) k \<subseteq> insert v (stored m k)"
proof -
  let ?p = "purgeLocked now key m"
  have "stored (mock_Put now key v m) k = (if k = key then insert v (stored ?p key) else stored ?p k)"
    by (simp add: mock_Put_def Let_def stored_def set_fst_refresh)
  then show ?thesis using stored_purge [of now key m k] by (cases "k = key") auto
qed

lemma store_auth_get:
  assumes "store_auth cr dr lg n" "mock_Get now key (mock n) = (vs, m')"
  shows "store_auth cr dr lg (n\<lparr>mock := m'\<rparr>)"
  using assms(1) stored_Get(2) [OF assms(2)] by (auto simp: store_auth_def)

lemma store_auth_clock: "store_auth cr dr lg (n\<lparr>clock := t\<rparr>) = store_auth cr dr lg n"
  by (simp add: store_auth_def)

lemma store_auth_reads: "reads_stable (store_auth cr dr lg)"
  unfolding reads_stable_def
  by (auto simp: mock_ops_def mock_sleep_def store_auth_clock split: prod.splits option.splits intro: store_auth_get)

lemma store_auth_put:
  "store_auth cr dr lg n \<Longrightarrow> authentic cr dr lg v \<Longrightarrow> store_auth cr dr lg (snd (put_op mock_ops key v n))"
  using stored_Put by (fastforce simp: store_auth_def mock_ops_def)

interpretation labauth: store_reads lab_store_ops "\<lambda>w. store_auth cr dr lg (lab_net w) \<and> t0 \<le> clock (lab_net w)"
  for cr dr lg t0
proof -
  have "reads_stable (\<lambda>n. store_auth cr dr lg n \<and> t0 \<le> clock n)"
    using store_auth_reads [of cr dr lg] unfolding reads_stable_def
    by (auto simp: mock_ops_def mock_sleep_def split: prod.splits option.splits)
  then show "store_reads lab_store_ops (\<lambda>w. store_auth cr dr lg (lab_net w) \<and> t0 \<le> clock (lab_net w))"
    by (rule reads_stable_reads)
qed

section \<open>Announced records\<close>

text \<open>What a node of the secret has announced: its own record, sealed.\<close>

definition announced_by :: "crypto \<Rightarrow> announcement \<Rightarrow> bool" where
  "announced_by cr a \<longleftrightarrow>
     (\<exists>w sq. daemon_inv cr (an_dm a) \<and> announceable (an_dm a) w \<and> clock (lab_net w) = an_at a \<and>
        sealRecord cr (Some (replicate 24 (CHR 0x07))) (dm_d (an_dm a))
          (Record_Sign cr (dm_id (an_dm a)) (own_record lab_env (an_dm a) (lab_own w @ lab_refl w) sq w)) = Inr (an_value a))"

definition log_ok :: "crypto \<Rightarrow> Deriver \<Rightarrow> announcement list \<Rightarrow> bool" where
  "log_ok cr dr lg \<longleftrightarrow> (\<forall>a \<in> set lg. dm_d (an_dm a) = dr \<longrightarrow> announced_by cr a)"

text \<open>A record accepted from an authentic value names a node that announced itself no longer ago
  than the bound of the roster.\<close>

lemma accepted_was_announced:
  assumes cr: "crypto_ok cr" and lg: "log_ok cr (ro_d ro) lg" and v: "authentic cr (ro_d ro) lg v"
    and acc: "accept cr ro fb v = Some r"
  shows "\<exists>a \<in> set lg. dm_d (an_dm a) = ro_d ro \<and> cfg_Name (dm_cfg (an_dm a)) = Name r \<and> fb \<le> unix_sec (an_at a)"
proof -
  obtain plain where o: "Open cr (RosterBoxKey cr (ro_d ro)) v = Inr plain" "DecodeRecord cr plain = Inr r" "fb \<le> TS r"
    using accept_SomeD [OF acc] by blast
  then obtain a where a: "a \<in> set lg" "an_value a = v" "dm_d (an_dm a) = ro_d ro"
    using v by (auto simp: authentic_def opens_def)
  then obtain w sq where w: "daemon_inv cr (an_dm a)" "announceable (an_dm a) w" "clock (lab_net w) = an_at a"
    and seal: "sealRecord cr (Some (replicate 24 (CHR 0x07))) (ro_d ro)
      (Record_Sign cr (dm_id (an_dm a)) (own_record lab_env (an_dm a) (lab_own w @ lab_refl w) sq w)) = Inr v"
    using lg by (auto simp: log_ok_def announced_by_def)
  let ?r = "own_record lab_env (an_dm a) (lab_own w @ lab_refl w) sq w"
  have "Open cr (RosterBoxKey cr (ro_d ro)) v = Inr (marshal (Record_Sign cr (dm_id (an_dm a)) ?r))"
    by (rule Open_Seal [OF _ _ seal [unfolded sealRecord_def]]) (use cr in \<open>simp_all add: crypto_ok_def\<close>)
  with o(1) have "marshal (Record_Sign cr (dm_id (an_dm a)) ?r) = plain" by simp
  with o(2) DecodeRecord_Sign [OF cr wire_ok_own [OF w(2,1), of sq], of "dm_id (an_dm a)"]
  have "r = ?r\<lparr>PK := PublicString cr (dm_id (an_dm a)), Sig := []\<rparr>" by simp
  then have "Name r = cfg_Name (dm_cfg (an_dm a))" "TS r = unix_sec (an_at a)"
    by (simp_all add: own_record_def) (simp add: lab_env_def w(3))
  with a o(3) show ?thesis by auto
qed

lemma lab_read_subset:
  assumes "Read lab_store_ops key w = (Inr vals, w')"
  shows "set vals \<subseteq> stored (mock (lab_net w)) key"
  using assms stored_Get(1)
  by (fastforce simp: Read_def lab_store_ops_def on_net_def mock_ops_def split: prod.splits)

text \<open>So every record of a fetched view does.\<close>

lemma view_was_announced:
  assumes cr: "crypto_ok cr" and lg: "log_ok cr (ro_d ro) lg" and st: "store_auth cr (ro_d ro) lg (lab_net w)"
    and f: "FetchStable cr lab_store_ops (\<lambda>w. clock (lab_net w)) ro n pause w = (Inr view, w')" and m: "map_of view x = Some r"
  shows "\<exists>a \<in> set lg. dm_d (an_dm a) = ro_d ro \<and> cfg_Name (dm_cfg (an_dm a)) = x \<and> x \<noteq> me ro \<and>
     freshBefore ro (clock (lab_net w)) \<le> unix_sec (an_at a)"
proof -
  let ?t = "clock (lab_net w)"
  define Q where "Q r \<longleftrightarrow> (\<exists>a \<in> set lg. dm_d (an_dm a) = ro_d ro \<and> cfg_Name (dm_cfg (an_dm a)) = Name r \<and> Name r \<noteq> me ro \<and>
     freshBefore ro ?t \<le> unix_sec (an_at a))" for r :: Record
  have step: "\<forall>n r. map_of m n = Some r \<longrightarrow> Q r"
    if i: "store_auth cr (ro_d ro) lg (lab_net u) \<and> ?t \<le> clock (lab_net u)"
      and g: "Fetch cr lab_store_ops ro (clock (lab_net u)) u = (Inr m, u')" for u m u'
  proof (intro allI impI)
    fix n r
    assume "map_of m n = Some r"
    then obtain vals v where v: "Read lab_store_ops (RosterKey cr (ro_d ro)) u = (Inr vals, u')" "v \<in> set vals"
      "accept cr ro (freshBefore ro (clock (lab_net u))) v = Some r"
      using g by (auto simp: Fetch_def map_of_fold_values set_accepted split: prod.splits sum.splits dest!: newest_SomeD)
    have "authentic cr (ro_d ro) lg v" using i lab_read_subset [OF v(1)] v(2) by (auto simp: store_auth_def)
    from accepted_was_announced [OF cr lg this v(3)] accept_SomeD [OF v(3)] obtain a where
      "a \<in> set lg" "dm_d (an_dm a) = ro_d ro" "cfg_Name (dm_cfg (an_dm a)) = Name r" "Name r \<noteq> me ro"
      "freshBefore ro (clock (lab_net u)) \<le> unix_sec (an_at a)" by (auto simp: genuine_def)
    moreover have "freshBefore ro ?t \<le> freshBefore ro (clock (lab_net u))"
      using i by (simp add: freshBefore_def unix_sec_def zdiv_mono1 sec_def)
    ultimately show "Q r" unfolding Q_def by force
  qed
  have "view_ok view \<and> (\<forall>n r. map_of view n = Some r \<longrightarrow> Q r)"
    by (rule labauth.stable_loop_invariant [OF step f [unfolded FetchStable_def]]) (use st in auto)
  with m show ?thesis unfolding Q_def view_ok_def by (auto dest!: map_of_SomeD)
qed

section \<open>A run\<close>

text \<open>The store holds what its announcements put there, in every run.\<close>

lemma tick_publish_auth:
  assumes t: "tick_publish cr lab_env dm w = (r, dm', w')" and inv: "mock_inv (mock (lab_net w))"
    and st: "store_auth cr dr lg (lab_net w)" and v: "authentic cr dr lg (sealed_value cr dm w)"
  shows "store_auth cr dr lg (lab_net w')"
proof -
  obtain v w1 vs where p: "sealRecord cr (Some (replicate 24 (CHR 0x07))) (dm_d dm)
       (Record_Sign cr (dm_id dm) (own_record lab_env dm (lab_own w @ lab_refl w) (dm_seq dm') w)) = Inr v"
    "put_op lab_store_ops (RosterKey cr (dm_d dm)) v w = (None, w1)"
    "get_op lab_store_ops (RosterKey cr (dm_d dm)) w1 = (Inr vs, w')"
    using tick_publish_put_get [OF t inv] by blast
  have "v = sealed_value cr dm w" using p(1) t by (simp add: sealed_value_def)
  then have "store_auth cr dr lg (lab_net w1)"
    using store_auth_put [OF st, of v "RosterKey cr (dm_d dm)"] v p(2)
    by (auto simp: lab_store_ops_def on_net_def split: prod.splits)
  then show ?thesis using store_reads.get_frame [OF reads_stable_reads [OF store_auth_reads] _ p(3)] by simp
qed

lemma tick_publish_announced:
  assumes t: "tick_publish cr lab_env dm w = (r, dm', w')" and inv: "mock_inv (mock (lab_net w))"
    and dm: "daemon_inv cr dm" "announceable dm w"
  shows "announced_by cr \<lparr>an_dm = dm, an_at = clock (lab_net w), an_value = sealed_value cr dm w\<rparr>"
  using tick_publish_put_get [OF t inv] dm t
  by (auto simp: announced_by_def sealed_value_def intro!: exI [of _ w] exI [of _ "dm_seq dm'"])

lemma kept_run_ok:
  assumes "kept_run cr dr s0 lg s" "nodes_ok cr s0" "net_ok (mesh_net s0)" "store_auth cr dr [] (mesh_net s0)"
  shows "nodes_ok cr s \<and> net_ok (mesh_net s) \<and> store_auth cr dr lg (mesh_net s) \<and> log_ok cr dr lg"
  using assms
proof (induction rule: kept_run.induct)
  case kept_nil
  then show ?case by (simp add: log_ok_def)
next
  case (kept_step lg s ev s')
  then have ok: "nodes_ok cr s" "net_ok (mesh_net s)" "store_auth cr dr lg (mesh_net s)" "log_ok cr dr lg" by simp_all
  let ?lg = "lg @ log_of cr s ev"
  have sa: "store_auth cr dr ?lg (mesh_net s)" using ok(3) by (rule store_auth_mono)
  have "store_auth cr dr ?lg (mesh_net s') \<and> log_ok cr dr ?lg"
    using kept_step.hyps(2)
  proof (cases rule: mesh_step.cases)
    case (step_announce i r dm' w')
    let ?dm = "nd_dm (mesh_nodes s ! i)" and ?w = "node_world s i"
    let ?a = "\<lparr>an_dm = ?dm, an_at = clock (mesh_net s), an_value = sealed_value cr ?dm ?w\<rparr>"
    have lg: "?lg = lg @ [?a]" using step_announce(1) by (simp add: log_of_def)
    have inv: "mock_inv (mock (lab_net ?w))" using ok(2) by (simp add: net_ok_def)
    have dmi: "daemon_inv cr ?dm" using nodes_ok_nth [OF ok(1) step_announce(3)] by (simp add: node_ok_def)
    have k: "if dm_d ?dm = dr then announceable ?dm ?w else \<not> opens cr dr (sealed_value cr ?dm ?w)"
      using kept_step.hyps(3) step_announce(1) by (simp add: secret_kept_def)
    then have "authentic cr dr ?lg (sealed_value cr ?dm ?w)"
      unfolding authentic_def lg by (auto split: if_splits)
    with tick_publish_auth [OF step_announce(5) inv, of dr ?lg] sa
    have "store_auth cr dr ?lg (mesh_net s')" using step_announce(2) by simp
    moreover have "log_ok cr dr ?lg"
      using ok(4) k tick_publish_announced [OF step_announce(5) inv dmi] unfolding log_ok_def lg by auto
    ultimately show ?thesis by blast
  next
    case (step_plan i mine r' w')
    with buildPlans_stable [OF store_auth_reads _ step_plan(5)] sa ok(4) show ?thesis by (simp add: log_of_def)
  next
    case (step_converge i plans e dm' w')
    with tick_apply_stable [OF store_auth_reads _ step_converge(5) plans_keyed [OF ok(1) step_converge(3,4)]] sa ok(4)
    show ?thesis by (simp add: log_of_def)
  next
    case (step_inject key v)
    with store_auth_put [of cr dr lg "mesh_net s" v key] ok(3,4) kept_step.hyps(3) show ?thesis
      by (simp add: log_of_def secret_kept_def)
  qed (use sa ok(4) in \<open>simp_all add: log_of_def store_auth_clock\<close>)
  then show ?case
    using mesh_step_ok [OF kept_step.hyps(2) ok(1)] mesh_step_stable [OF kept_step.hyps(2) ok(1) net_ok_stable ok(2)] by simp
qed

lemma kept_run_mesh_run: "kept_run cr dr s0 lg s \<Longrightarrow> \<exists>evs. mesh_run cr s0 evs s"
proof (induction rule: kept_run.induct)
  case kept_nil
  show ?case by (blast intro: run_nil)
next
  case (kept_step lg s ev s')
  then show ?case by (blast intro: run_snoc)
qed

section \<open>Properties\<close>

text \<open>C3: only announced nodes become peers. In a mesh whose store everyone may write to, but where
  nobody without the secret writes what opens under the box key of the mesh (replays of earlier
  announcements apart), and whose own nodes announce records that survive their JSON form, a node
  plans a peer that is not one of its spokes only for another node of the same secret that has
  announced itself under that name within the last day, to the second. So a node
  that falls silent disappears from every plan made more than a day later.\<close>

theorem planned_peers_announced_themselves:
  assumes cr: "crypto_ok cr" and run: "kept_run cr dr (empty_mesh t0 life) lg s"
    and plan: "mesh_step cr s (Plan j) s'" and b: "b = nd_dm (mesh_nodes s ! j)" "dm_d b = dr"
    and ph: "nd_phase (mesh_nodes s' ! j) = Planned plans" and p: "p \<in> set plans" "pp_name p \<notin> set (spokes b)"
  shows "\<exists>a \<in> set lg. dm_d (an_dm a) = dr \<and> cfg_Name (dm_cfg (an_dm a)) = pp_name p \<and>
     pp_name p \<noteq> cfg_Name (dm_cfg b) \<and> unix_sec (clock (mesh_net s) - 24 * 3600 * sec) \<le> unix_sec (an_at a)"
proof -
  have ok: "nodes_ok cr s" "store_auth cr dr lg (mesh_net s)" "log_ok cr dr lg"
    using kept_run_ok [OF run nodes_ok_empty net_ok_empty]
    by (simp_all add: store_auth_def stored_def empty_mesh_def NewMockStore_def entries_def)
  obtain mine r' w' where 1: "s' = set_node j b (case r' of Inl _ \<Rightarrow> Idle | Inr plans \<Rightarrow> Planned plans) w' s"
    "j < length (mesh_nodes s)" "buildPlans cr lab_env b mine (node_world s j) = (r', w')"
    using plan by (rule planE) (use b(1) in blast)
  have "r' = Inr plans" using ph 1(1,2) by (auto split: sum.splits)
  with 1(3) obtain ro peers where ro: "NewRoster (dm_d b) (cfg_Name (dm_cfg b)) (Some (cfg_CIDR (dm_cfg b))) = Inr ro"
    and f: "FetchStable cr lab_store_ops (\<lambda>w. clock (lab_net w)) ro 3 (400 * 1000000) (node_world s j) = (Inr peers, w')"
    and ps: "plans = plans_of cr lab_env b mine peers w'"
    by (auto simp: buildPlans_def split: sum.splits prod.splits) (auto simp: lab_env_def)
  have ib: "daemon_inv cr b" using nodes_ok_nth [OF ok(1) 1(2)] b(1) by (simp add: node_ok_def)
  then have rof: "ro_d ro = dr" "me ro = cfg_Name (dm_cfg b)" "maxAge ro = 24 * 3600 * sec"
    using ro b(2) by (auto simp: NewRoster_def daemon_inv_def NormalizeName_valid)
  have "e_range lab_env (spokes b) w' = spokes b" by (simp add: lab_env_def)
  with plans_of_name [OF p(1) [unfolded ps]] p(2) obtain r where "map_of peers (pp_name p) = Some r" by auto
  with view_was_announced [OF cr _ _ f this, of lg] ok(2,3) rof show ?thesis by (simp add: freshBefore_def)
qed

theorem planned_peers_announced_themselves_witness:
  "\<exists>lg s s' plans. kept_run demo_crypto demo_d (empty_mesh 0 0) lg s \<and> mesh_step demo_crypto s (Plan 1) s' \<and>
     nd_phase (mesh_nodes s' ! 1) = Planned plans \<and> plans \<noteq> [] \<and>
     (\<forall>p \<in> set plans. \<exists>a \<in> set lg. cfg_Name (dm_cfg (an_dm a)) = pp_name p)"
proof (rule demo_two_nodes)
  fix a b b' s s1 s2 s3
  assume r: "mesh_run demo_crypto (empty_mesh 0 0) ([Join] @ [Join]) s" and st: "mesh_step demo_crypto s (Announce 0) s1"
    "mesh_step demo_crypto s1 (Announce 1) s2" "mesh_step demo_crypto s2 (Plan 1) s3"
    and ab: "a = nd_dm (mesh_nodes s ! 0)" "b = nd_dm (mesh_nodes s1 ! 1)" "b' = nd_dm (mesh_nodes s2 ! 1)"
    and w: "announceable a (node_world s 0)" "announceable b (node_world s1 1)" "mesh_net s = empty_world" "clock (mesh_net s2) = 0"
    and f: "dm_d a = demo_d" "dm_d b = demo_d" "dm_d b' = demo_d" "cfg_CIDR (dm_cfg a) = demo_cidr" "cfg_CIDR (dm_cfg b') = demo_cidr"
      "cfg_Name (dm_cfg a) = ''alpha''" "cfg_Name (dm_cfg b') = ''beta''" "spokes b' = []"
  have joins: "\<exists>lg. kept_run cr dr s0 lg s \<and> lg = []" if "mesh_run cr s0 evs s" "set evs \<subseteq> {Join}" for cr dr s0 evs s
    using that
  proof (induction rule: mesh_run.induct)
    case (run_nil s)
    show ?case by (blast intro: kept_nil)
  next
    case (run_snoc s evs s1 ev s2)
    then have "kept_run cr dr s [] s1" "ev = Join" by auto
    with kept_step [OF this(1) run_snoc.hyps(2)] show ?case by (simp add: secret_kept_def log_of_def)
  qed
  have "kept_run demo_crypto demo_d (empty_mesh 0 0) [] s" using joins [OF r] by auto
  from kept_step [OF this st(1)] w(1) ab(1) have "kept_run demo_crypto demo_d (empty_mesh 0 0) (log_of demo_crypto s (Announce 0)) s1"
    by (simp add: secret_kept_def f(1) [unfolded ab(1)])
  moreover have "secret_kept demo_crypto demo_d (log_of demo_crypto s (Announce 0)) s1 (Announce 1)"
    using w(2) by (simp only: secret_kept_def mesh_event.case ab(2) [symmetric] f(2) if_True simp_thms)
  ultimately obtain lg where k: "kept_run demo_crypto demo_d (empty_mesh 0 0) lg s2" using kept_step [OF _ st(2)] by blast
  have ok: "nodes_ok demo_crypto s" "net_ok (mesh_net s)"
    using mesh_run_stable [OF r nodes_ok_empty net_ok_stable net_ok_empty] by simp_all
  have "cfg_Name (dm_cfg a) \<noteq> cfg_Name (dm_cfg b')" by (simp add: f)
  from announced_is_planned [OF crypto_ok_demo ok st(1) w(1) mesh_run_one [OF st(2)] st(3) ab(1,3) _ _ this] w(3,4) f
  obtain plans p where p: "nd_phase (mesh_nodes s3 ! 1) = Planned plans" "p \<in> set plans"
    by (auto simp: empty_world_def NewMockStore_def sec_def)
  have "\<forall>p \<in> set plans. \<exists>a \<in> set lg. cfg_Name (dm_cfg (an_dm a)) = pp_name p"
    using planned_peers_announced_themselves [OF crypto_ok_demo k st(3) ab(3) f(3) p(1)] f(8) by force
  with k st(3) p show ?thesis by (intro exI conjI) auto
qed

end
