(* ===== verification/Room.thy ===== *)
theory Room
  imports Store Json "HOL-Library.Product_Lexorder"
begin

text \<open>
  The chat room over the same store: signed and sealed envelopes
  (\<open>internal/engine/envelope.go\<close>), the rolling window (\<open>internal/engine/window.go\<close>) and the
  room with its reconcile step (\<open>internal/engine/engine.go\<close>).

  A reconcile step returns the callbacks it makes, in order. The range over the map of
  \<open>dedupeByID\<close> visits the keys in the order \<open>ord\<close> gives. A negative window size makes the
  slice expression of \<open>keepTop\<close> panic: \<open>None\<close>.
\<close>

section \<open>Envelopes\<close>

record wireEnvelope =
  we_V :: int
  we_Kind :: string
  we_PK :: string
  we_Name :: string
  we_Seq :: "64 word"
  we_TS :: int
  we_Room :: string
  we_Box :: string
  we_Sig :: string

definition uint_str :: "64 word \<Rightarrow> string" where
  "uint_str w = nat_str (unat w)"

definition SigningBytes :: "wireEnvelope \<Rightarrow> bytes" where
  "SigningBytes w = we_Kind w @ [CHR 0x00] @ we_PK w @ [CHR 0x00] @ we_Name w @ [CHR 0x00] @
     uint_str (we_Seq w) @ [CHR 0x00] @ int_str (we_TS w) @ [CHR 0x00] @ we_Room w @ [CHR 0x00] @ we_Box w"

definition NewEnvelope ::
  "crypto \<Rightarrow> bytes option \<Rightarrow> Identity \<Rightarrow> string \<Rightarrow> string \<Rightarrow> bytes \<Rightarrow> 64 word \<Rightarrow> int \<Rightarrow> bytes \<Rightarrow> wireEnvelope res" where
  "NewEnvelope cr rnd me name roomToken roomKey sq ts text =
     (case sealRoom cr rnd roomKey text of
        Inl e \<Rightarrow> Inl e
      | Inr sealed \<Rightarrow>
          (let w = \<lparr>we_V = 1, we_Kind = ''chat'', we_PK = PublicString cr me, we_Name = name, we_Seq = sq,
                    we_TS = ts, we_Room = roomToken, we_Box = b64 sealed, we_Sig = []\<rparr>
           in Inr (w\<lparr>we_Sig := b64 (Sign cr me (SigningBytes w))\<rparr>)))"

definition enc_envelope :: "wireEnvelope \<Rightarrow> json" where
  "enc_envelope w = JObj
     [(''v'', jint (we_V w)), (''kind'', JStr (we_Kind w)), (''pk'', JStr (we_PK w)), (''name'', JStr (we_Name w)),
      (''seq'', jint (uint (we_Seq w))), (''ts'', jint (we_TS w)), (''room'', JStr (we_Room w)),
      (''box'', JStr (we_Box w)), (''sig'', JStr (we_Sig w))]"

definition envelope_field :: "bytes \<Rightarrow> wireEnvelope \<Rightarrow> json \<Rightarrow> wireEnvelope option" where
  "envelope_field key w j =
     (if key_is ''v'' key then map_option (\<lambda>x. w\<lparr>we_V := x\<rparr>) (dec_i64 (we_V w) j)
      else if key_is ''kind'' key then map_option (\<lambda>x. w\<lparr>we_Kind := x\<rparr>) (dec_str (we_Kind w) j)
      else if key_is ''pk'' key then map_option (\<lambda>x. w\<lparr>we_PK := x\<rparr>) (dec_str (we_PK w) j)
      else if key_is ''name'' key then map_option (\<lambda>x. w\<lparr>we_Name := x\<rparr>) (dec_str (we_Name w) j)
      else if key_is ''seq'' key then map_option (\<lambda>x. w\<lparr>we_Seq := x\<rparr>) (dec_u64 (we_Seq w) j)
      else if key_is ''ts'' key then map_option (\<lambda>x. w\<lparr>we_TS := x\<rparr>) (dec_i64 (we_TS w) j)
      else if key_is ''room'' key then map_option (\<lambda>x. w\<lparr>we_Room := x\<rparr>) (dec_str (we_Room w) j)
      else if key_is ''box'' key then map_option (\<lambda>x. w\<lparr>we_Box := x\<rparr>) (dec_str (we_Box w) j)
      else if key_is ''sig'' key then map_option (\<lambda>x. w\<lparr>we_Sig := x\<rparr>) (dec_str (we_Sig w) j)
      else Some w)"

definition zero_envelope :: wireEnvelope where
  "zero_envelope = \<lparr>we_V = 0, we_Kind = [], we_PK = [], we_Name = [], we_Seq = 0, we_TS = 0, we_Room = [],
     we_Box = [], we_Sig = []\<rparr>"

definition unmarshal_envelope :: "bytes \<Rightarrow> wireEnvelope option" where
  "unmarshal_envelope b = (case parse_json b of None \<Rightarrow> None | Some j \<Rightarrow> dec_struct envelope_field zero_envelope j)"

definition DecodeEnvelope :: "crypto \<Rightarrow> bytes \<Rightarrow> bytes \<Rightarrow> wireEnvelope res" where
  "DecodeEnvelope cr roomKey b =
     (case unsealRoom cr roomKey b of
        Inl e \<Rightarrow> Inl e
      | Inr plain \<Rightarrow>
          (case unmarshal_envelope plain of None \<Rightarrow> Inl (Errorf ''json'') | Some w \<Rightarrow> Inr w))"

definition env_ID :: "wireEnvelope \<Rightarrow> string" where
  "env_ID w = we_PK w @ ''#'' @ uint_str (we_Seq w)"

definition SenderPK :: "wireEnvelope \<Rightarrow> bytes res" where
  "SenderPK w =
     (case b64dec (we_PK w) of
        None \<Rightarrow> Inl ErrInvalidPubKey
      | Some b \<Rightarrow> if length b \<noteq> 32 then Inl ErrInvalidPubKey else Inr b)"

definition env_Verify :: "crypto \<Rightarrow> wireEnvelope \<Rightarrow> bool res" where
  "env_Verify cr w =
     (case SenderPK w of
        Inl e \<Rightarrow> Inl e
      | Inr pk \<Rightarrow>
          (case b64dec (we_Sig w) of
             None \<Rightarrow> Inl (Errorf ''base64'')
           | Some sig \<Rightarrow> Inr (VerifySig cr pk (SigningBytes w) sig)))"

definition env_Open :: "crypto \<Rightarrow> bytes \<Rightarrow> wireEnvelope \<Rightarrow> bytes res" where
  "env_Open cr roomKey w =
     (case b64dec (we_Box w) of None \<Rightarrow> Inl (Errorf ''base64'') | Some sealed \<Rightarrow> unsealRoom cr roomKey sealed)"

definition env_Marshal :: "crypto \<Rightarrow> bytes \<Rightarrow> wireEnvelope \<Rightarrow> bytes" where
  "env_Marshal cr roomKey w = SealDeterministic cr roomKey (print_json (enc_envelope w))"

section \<open>The window\<close>

definition sortWindow :: "wireEnvelope list \<Rightarrow> wireEnvelope list" where
  "sortWindow envs = sort_key (\<lambda>w. (- we_TS w, - uint (we_Seq w))) envs"

definition keepTop :: "wireEnvelope list \<Rightarrow> int \<Rightarrow> wireEnvelope list option" where
  "keepTop envs n =
     (let s = sortWindow envs in
      if int (length s) > n then (if n < 0 then None else Some (take (nat n) s)) else Some s)"

definition age :: "wireEnvelope \<Rightarrow> int \<times> int" where
  "age w = (we_TS w, uint (we_Seq w))"

definition sortAscending :: "wireEnvelope list \<Rightarrow> wireEnvelope list" where
  "sortAscending envs = sort_key age envs"

definition id_index :: "wireEnvelope list \<Rightarrow> (string, wireEnvelope) gomap" where
  "id_index envs = foldl (\<lambda>m e. AList.update (env_ID e) e m) [] envs"

definition dedupeByID :: "(string list \<Rightarrow> string list) \<Rightarrow> wireEnvelope list \<Rightarrow> wireEnvelope list" where
  "dedupeByID ord envs = List.map_filter (map_of (id_index envs)) (ord (map fst (id_index envs)))"

section \<open>The room\<close>

record Message =
  m_ID :: string
  m_Kind :: string
  m_From :: bytes
  m_FromText :: string
  m_Name :: string
  m_Seq :: "64 word"
  m_TS :: int
  m_Text :: bytes
  m_Verified :: bool
  m_Mine :: bool

datatype event = OnContact bytes string | OnMessage Message

record Room =
  rm_token :: string
  rm_key :: string
  rm_roomKey :: bytes
  rm_me :: Identity
  rm_name :: string
  rm_store :: ReliableStore
  windowN :: int
  anyMember :: bool
  rm_seq :: int
  seen :: "(string, wireEnvelope) gomap"
  window :: "wireEnvelope list"
  contactSeen :: "bytes list"
  pollInterval :: duration
  hasOnMessage :: bool
  hasOnContact :: bool

definition NewRoom :: "crypto \<Rightarrow> time \<Rightarrow> string \<Rightarrow> Identity \<Rightarrow> string \<Rightarrow> ReliableStore \<Rightarrow> (Room \<Rightarrow> Room) list \<Rightarrow> Room" where
  "NewRoom cr now token me name store opts =
     foldl (\<lambda>r opt. opt r)
       \<lparr>rm_token = token, rm_key = roomKeyID cr token, rm_roomKey = DeriveRoomKey cr token, rm_me = me,
        rm_name = name, rm_store = store, windowN = 20, anyMember = True, rm_seq = i64 now, seen = [],
        window = [], contactSeen = [], pollInterval = 60 * sec, hasOnMessage = False, hasOnContact = False\<rparr> opts"

definition WithWindowSize :: "int \<Rightarrow> Room \<Rightarrow> Room" where
  "WithWindowSize n r = r\<lparr>windowN := n\<rparr>"

definition WithAnyMember :: "bool \<Rightarrow> Room \<Rightarrow> Room" where
  "WithAnyMember b r = r\<lparr>anyMember := b\<rparr>"

definition WithPollInterval :: "duration \<Rightarrow> Room \<Rightarrow> Room" where
  "WithPollInterval d r = r\<lparr>pollInterval := d\<rparr>"

text \<open>Of the callbacks only their presence matters.\<close>

definition WithEvents :: "bool \<Rightarrow> bool \<Rightarrow> Room \<Rightarrow> Room" where
  "WithEvents onMessage onContact r = r\<lparr>hasOnMessage := onMessage, hasOnContact := onContact\<rparr>"

definition SetEvents :: "bool \<Rightarrow> bool \<Rightarrow> Room \<Rightarrow> Room" where
  "SetEvents onMessage onContact r = r\<lparr>hasOnMessage := onMessage, hasOnContact := onContact\<rparr>"

definition shortAddr :: "bytes \<Rightarrow> string" where
  "shortAddr pk = [CHR 0xE2, CHR 0x80, CHR 0xA6] @ (let s = b64 pk in if length s > 8 then take 8 s else s)"

definition decode :: "crypto \<Rightarrow> Room \<Rightarrow> wireEnvelope \<Rightarrow> Message option" where
  "decode cr r e =
     (let verified = (case env_Verify cr e of Inl _ \<Rightarrow> False | Inr b \<Rightarrow> b) in
      case env_Open cr (rm_roomKey r) e of
        Inl _ \<Rightarrow> None
      | Inr text \<Rightarrow>
          (let pk = (case SenderPK e of Inl _ \<Rightarrow> replicate 32 (CHR 0x00) | Inr p \<Rightarrow> p) in
           Some \<lparr>m_ID = env_ID e, m_Kind = we_Kind e, m_From = pk, m_FromText = shortAddr pk, m_Name = we_Name e,
                 m_Seq = we_Seq e, m_TS = we_TS e, m_Text = text, m_Verified = verified,
                 m_Mine = (we_PK e = PublicString cr (rm_me r))\<rparr>))"

definition Send ::
  "crypto \<Rightarrow> 's store_ops \<Rightarrow> bytes option \<Rightarrow> time \<Rightarrow> Room \<Rightarrow> bytes \<Rightarrow> 's \<Rightarrow> string res \<times> Room \<times> 's" where
  "Send cr ops rnd now r text s =
     (let sq = i64 (rm_seq r + 1); r1 = r\<lparr>rm_seq := sq\<rparr> in
      case NewEnvelope cr rnd (rm_me r1) (rm_name r1) (rm_token r1) (rm_roomKey r1) (word_of_int sq) (unix_sec now) text of
        Inl e \<Rightarrow> (Inl e, r1, s)
      | Inr env \<Rightarrow>
          (case Publish ops (rm_store r1) (rm_key r1) (env_Marshal cr (rm_roomKey r1) env) s of
             (Some e, s1) \<Rightarrow> (Inl e, r1, s1)
           | (None, s1) \<Rightarrow> (Inr (env_ID env), r1, s1)))"

text \<open>The envelopes under the key, decoded and reduced to the window, oldest first.\<close>

definition decoded :: "crypto \<Rightarrow> bytes \<Rightarrow> bytes list \<Rightarrow> wireEnvelope list" where
  "decoded cr roomKey vals =
     List.map_filter (\<lambda>v. case DecodeEnvelope cr roomKey v of Inl _ \<Rightarrow> None | Inr e \<Rightarrow> Some e) vals"

definition top_window :: "(string list \<Rightarrow> string list) \<Rightarrow> int \<Rightarrow> wireEnvelope list \<Rightarrow> wireEnvelope list option" where
  "top_window ord n envs = map_option sortAscending (keepTop (dedupeByID ord envs) n)"

definition new_contacts :: "Room \<Rightarrow> wireEnvelope list \<Rightarrow> (bytes \<times> string) list" where
  "new_contacts r tops =
     List.map_filter (\<lambda>e. case SenderPK e of
        Inl _ \<Rightarrow> None | Inr pk \<Rightarrow> if pk \<in> set (contactSeen r) then None else Some (pk, we_Name e)) tops"

definition new_messages :: "Room \<Rightarrow> wireEnvelope list \<Rightarrow> wireEnvelope list" where
  "new_messages r tops = filter (\<lambda>e. map_of (seen r) (env_ID e) = None) tops"

definition commit :: "Room \<Rightarrow> wireEnvelope list \<Rightarrow> Room" where
  "commit r tops =
     r\<lparr>seen := foldl (\<lambda>m e. AList.update (env_ID e) e m) (seen r) tops, window := tops,
       contactSeen := foldl (\<lambda>cs (pk, n). List.insert pk cs) (contactSeen r) (new_contacts r tops)\<rparr>"

definition events_of :: "crypto \<Rightarrow> Room \<Rightarrow> wireEnvelope list \<Rightarrow> event list" where
  "events_of cr r tops =
     (if hasOnContact r then map (\<lambda>(pk, n). OnContact pk n) (new_contacts r tops) else []) @
     (if hasOnMessage r then map OnMessage (List.map_filter (decode cr r) (new_messages r tops)) else [])"

fun refresh_all :: "'s store_ops \<Rightarrow> ReliableStore \<Rightarrow> string \<Rightarrow> bytes list \<Rightarrow> 's \<Rightarrow> 's" where
  "refresh_all ops rs key [] s = s"
| "refresh_all ops rs key (v # vs) s = refresh_all ops rs key vs (snd (Publish ops rs key v s))"

definition Reconcile ::
  "crypto \<Rightarrow> 's store_ops \<Rightarrow> (string list \<Rightarrow> string list) \<Rightarrow> Room \<Rightarrow> 's
     \<Rightarrow> (goerr option \<times> event list \<times> Room \<times> 's) option" where
  "Reconcile cr ops ord r s =
     (case Read ops (rm_key r) s of
        (Inl e, s1) \<Rightarrow> Some (Some e, [], r, s1)
      | (Inr vals, s1) \<Rightarrow>
          (case top_window ord (windowN r) (decoded cr (rm_roomKey r) vals) of
             None \<Rightarrow> None
           | Some tops \<Rightarrow>
               (let toRefresh = (if anyMember r then tops
                                 else filter (\<lambda>e. we_PK e = PublicString cr (rm_me r)) tops)
                in Some (None, events_of cr r tops, commit r tops,
                     refresh_all ops (rm_store r) (rm_key r) (map (env_Marshal cr (rm_roomKey r)) toRefresh) s1))))"

text \<open>\<open>Run\<close> over the events of its select; each poll comes with the order in which it ranges over
  a map. The error of a poll is dropped.\<close>

datatype room_event = RoomDone | RoomTick "string list \<Rightarrow> string list"

fun room_Run ::
  "crypto \<Rightarrow> 's store_ops \<Rightarrow> room_event list \<Rightarrow> Room \<Rightarrow> 's \<Rightarrow> (event list \<times> Room \<times> 's) option" where
  "room_Run cr ops [] r s = Some ([], r, s)"
| "room_Run cr ops (RoomDone # es) r s = Some ([], r, s)"
| "room_Run cr ops (RoomTick ord # es) r s =
     (case Reconcile cr ops ord r s of
        None \<Rightarrow> None
      | Some (_, evs1, r1, s1) \<Rightarrow>
          (case room_Run cr ops es r1 s1 of None \<Rightarrow> None | Some (evs2, r2, s2) \<Rightarrow> Some (evs1 @ evs2, r2, s2)))"

definition Current :: "crypto \<Rightarrow> Room \<Rightarrow> Message list" where
  "Current cr r = List.map_filter (decode cr r) (window r)"

definition HasSeen :: "Room \<Rightarrow> string \<Rightarrow> bool" where
  "HasSeen r i \<longleftrightarrow> map_of (seen r) i \<noteq> None"

definition PublicKey :: "crypto \<Rightarrow> Room \<Rightarrow> bytes" where
  "PublicKey cr r = Public cr (rm_me r)"

definition ShortAddr :: "bytes \<Rightarrow> string" where
  "ShortAddr pk = shortAddr pk"

definition PubKeyString :: "bytes \<Rightarrow> string" where
  "PubKeyString pk = b64 pk"

section \<open>Laws of envelopes\<close>

definition envelope_ok :: "wireEnvelope \<Rightarrow> bool" where
  "envelope_ok w \<longleftrightarrow> list_all ascii [we_Kind w, we_PK w, we_Name w, we_Room w, we_Box w, we_Sig w] \<and>
     (\<forall>i \<in> {we_V w, we_TS w}. - 9223372036854775808 \<le> i \<and> i < 9223372036854775808)"

lemma unmarshal_envelope_print:
  assumes "envelope_ok w"
  shows "unmarshal_envelope (print_json (enc_envelope w)) = Some w"
proof -
  have ok: "json_ok (enc_envelope w)" using assms by (simp add: enc_envelope_def envelope_ok_def)
  have i: "dec_i64 x (jint (we_V w)) = Some (we_V w)" "dec_i64 x (jint (we_TS w)) = Some (we_TS w)" for x
    using assms by (auto simp: envelope_ok_def intro!: dec_i64_jint)
  have "dec_struct envelope_field zero_envelope (enc_envelope w) = Some w"
    by (simp add: enc_envelope_def dec_struct_def envelope_field_def zero_envelope_def key_is_def to_lower_def
        lower_char_def is_upper_def dec_str_def i dec_u64_jint)
  then show ?thesis by (simp add: unmarshal_envelope_def parse_print_json [OF ok])
qed

lemma DecodeEnvelope_Marshal:
  assumes "crypto_ok cr" "envelope_ok w"
  shows "DecodeEnvelope cr key (env_Marshal cr key w) = Inr w"
proof -
  have "Open cr key (env_Marshal cr key w) = Inr (print_json (enc_envelope w))"
    using assms(1) by (simp add: env_Marshal_def crypto_ok_def Open_SealDeterministic)
  then show ?thesis
    by (simp add: DecodeEnvelope_def Open_def unmarshal_envelope_print [OF assms(2)])
qed

lemma NewEnvelope_good:
  assumes "crypto_ok cr" "length nonce = 24" "ascii name" "ascii token"
    "- 9223372036854775808 \<le> ts" "ts < 9223372036854775808"
  obtains w where "NewEnvelope cr (Some nonce) me name token key sq ts text = Inr w" "envelope_ok w"
    "env_Verify cr w = Inr True" "env_Open cr key w = Inr text" "SenderPK w = Inr (Public cr me)"
    "env_ID w = PublicString cr me @ ''#'' @ uint_str sq"
proof -
  have laws: "lengths_ok cr" "signatures_ok cr" "boxes_ok cr" using assms(1) by (auto simp: crypto_ok_def)
  have pk: "length (Public cr me) = 32" using laws(1) by (simp add: Public_def lengths_ok_def)
  obtain sealed where s: "sealRoom cr (Some nonce) key text = Inr sealed" by (simp add: sealRoom_def)
  have o: "unsealRoom cr key sealed = Inr text"
    using Open_Seal [OF laws(3) assms(2)] s by (simp add: Seal_def Open_def)
  let ?w = "\<lparr>we_V = 1, we_Kind = ''chat'', we_PK = PublicString cr me, we_Name = name, we_Seq = sq,
      we_TS = ts, we_Room = token, we_Box = b64 sealed, we_Sig = []\<rparr>"
  let ?e = "?w\<lparr>we_Sig := b64 (Sign cr me (SigningBytes ?w))\<rparr>"
  have sb: "SigningBytes ?e = SigningBytes ?w" by (simp add: SigningBytes_def)
  show ?thesis
  proof (rule that [of ?e])
    show "NewEnvelope cr (Some nonce) me name token key sq ts text = Inr ?e" by (simp add: NewEnvelope_def s)
    show "envelope_ok ?e" using assms(3-6) by (simp add: envelope_ok_def PublicString_def ascii_b64)
    show p: "SenderPK ?e = Inr (Public cr me)" using pk by (simp add: SenderPK_def PublicString_def)
    show "env_Verify cr ?e = Inr True"
      using laws(2) p unfolding env_Verify_def sb
      by (simp add: VerifySig_def Sign_def Public_def signatures_ok_def)
    show "env_Open cr key ?e = Inr text" using o by (simp add: env_Open_def)
    show "env_ID ?e = PublicString cr me @ ''#'' @ uint_str sq" by (simp add: env_ID_def)
  qed
qed

section \<open>Laws of the window\<close>

text \<open>The order in which a map is visited.\<close>

definition visits :: "(string list \<Rightarrow> string list) \<Rightarrow> bool" where
  "visits ord \<longleftrightarrow> (\<forall>ks. distinct ks \<longrightarrow> mset (ord ks) = mset ks)"

abbreviation index_from :: "(string, wireEnvelope) gomap \<Rightarrow> wireEnvelope list \<Rightarrow> (string, wireEnvelope) gomap" where
  "index_from m envs \<equiv> foldl (\<lambda>m e. AList.update (env_ID e) e m) m envs"

lemma distinct_index: "distinct (map fst m) \<Longrightarrow> distinct (map fst (index_from m envs))"
  by (induction envs arbitrary: m) (simp_all add: distinct_update)

lemma index_keys: "fst ` set (index_from m envs) = fst ` set m \<union> env_ID ` set envs"
  by (induction envs arbitrary: m) (simp_all add: dom_update)

lemma index_values:
  "map_of (index_from m envs) i = Some e \<Longrightarrow> map_of m i = Some e \<or> e \<in> set envs \<and> env_ID e = i"
proof (induction envs arbitrary: m)
  case (Cons x envs)
  from Cons.IH [OF Cons.prems [simplified]] show ?case by (auto simp: update_conv' split: if_splits)
qed simp

lemma id_index_laws:
  "distinct (map fst (id_index envs))" "fst ` set (id_index envs) = env_ID ` set envs"
  "map_of (id_index envs) i = Some e \<Longrightarrow> e \<in> set envs \<and> env_ID e = i"
  using distinct_index [of "[]" envs] index_keys [of "[]" envs] index_values [of "[]" envs i e]
  by (simp_all add: id_index_def)

lemma dedupeByID_laws:
  assumes "visits ord"
  shows "distinct (map env_ID (dedupeByID ord envs)) \<and> set (dedupeByID ord envs) \<subseteq> set envs \<and>
     env_ID ` set (dedupeByID ord envs) = env_ID ` set envs"
proof -
  let ?m = "id_index envs"
  note l = id_index_laws [of envs]
  have m: "mset (ord (map fst ?m)) = mset (map fst ?m)" using assms l(1) by (simp add: visits_def)
  have k: "distinct (ord (map fst ?m))" "set (ord (map fst ?m)) = fst ` set ?m"
    using l(1) mset_eq_imp_distinct_iff [OF m] mset_eq_setD [OF m] by simp_all
  have "map env_ID (List.map_filter (map_of ?m) ks) = ks" if "set ks \<subseteq> fst ` set ?m" for ks
    using that
  proof (induction ks)
    case (Cons i ks)
    then have "map_of ?m i \<noteq> None" by (simp add: map_of_eq_None_iff)
    then obtain e where e: "map_of ?m i = Some e" by blast
    with Cons l(3) [OF e] show ?case by (simp add: map_filter_simps)
  qed (simp add: map_filter_simps)
  then have ids: "map env_ID (dedupeByID ord envs) = ord (map fst ?m)" using k by (simp add: dedupeByID_def)
  have "set (dedupeByID ord envs) \<subseteq> set envs"
  proof
    fix e assume "e \<in> set (dedupeByID ord envs)"
    then obtain i where "map_of ?m i = Some e" by (auto simp: dedupeByID_def List.map_filter_def)
    then show "e \<in> set envs" using l(3) by blast
  qed
  moreover have "env_ID ` set (dedupeByID ord envs) = env_ID ` set envs"
    using arg_cong [OF ids, of set] k(2) l(2) by simp
  ultimately show ?thesis using ids k(1) by simp
qed

text \<open>The window: oldest first, no id twice, at most \<open>n\<close> envelopes, and none left out that is
  newer than one kept.\<close>

lemma top_window_laws:
  assumes "visits ord" "top_window ord n envs = Some tops"
  shows "sorted (map age tops)" "distinct (map env_ID tops)" "set tops \<subseteq> set envs"
    "0 \<le> n \<Longrightarrow> length tops = min (nat n) (card (env_ID ` set envs))"
    "e \<in> set (dedupeByID ord envs) \<Longrightarrow> e \<notin> set tops \<Longrightarrow> w \<in> set tops \<Longrightarrow> age e \<le> age w"
proof -
  let ?d = "dedupeByID ord envs"
  note d = dedupeByID_laws [OF assms(1), of envs]
  obtain k where t: "tops = sortAscending (take k (sortWindow ?d))"
    and k: "(int (length ?d) > n \<and> 0 \<le> n \<and> k = nat n) \<or> (int (length ?d) \<le> n \<and> k = length ?d)"
    using assms(2) by (auto simp: top_window_def keepTop_def Let_def sortWindow_def split: if_splits)
  have m: "mset tops = mset (take k (sortWindow ?d))" by (simp add: t sortAscending_def)
  have p: "mset (take k (sortWindow ?d)) \<subseteq># mset ?d"
    by (metis append_take_drop_id mset_append mset_sort mset_subset_eq_add_left sortWindow_def)
  show "sorted (map age tops)" by (simp add: t sortAscending_def)
  have s: "set tops = set (take k (sortWindow ?d))" using m by (metis set_mset_mset)
  moreover have "set (sortWindow ?d) = set ?d" by (simp add: sortWindow_def)
  ultimately show "set tops \<subseteq> set envs" using d set_take_subset [of k "sortWindow ?d"] by blast
  have "distinct (map env_ID (sortWindow ?d))"
    using d mset_eq_imp_distinct_iff [of "map env_ID (sortWindow ?d)" "map env_ID ?d"]
    by (simp add: sortWindow_def)
  then have "distinct (map env_ID (take k (sortWindow ?d)))" by (metis distinct_take take_map)
  then show "distinct (map env_ID tops)"
    using m mset_eq_imp_distinct_iff [of "map env_ID tops" "map env_ID (take k (sortWindow ?d))"] by simp
  have "length ?d = card (env_ID ` set envs)"
    using d by (metis distinct_card length_map set_map)
  moreover have "length tops = min k (length ?d)"
    using m by (metis length_sort length_take min.commute size_mset sortWindow_def)
  ultimately show "length tops = min (nat n) (card (env_ID ` set envs))" if "0 \<le> n" using k that by auto
  show "age e \<le> age w" if e: "e \<in> set ?d" "e \<notin> set tops" and w: "w \<in> set tops" for e w
  proof -
    let ?neg = "\<lambda>w. (- we_TS w, - uint (we_Seq w))"
    have "e \<in> set (drop k (sortWindow ?d))"
      using e s by (metis Un_iff append_take_drop_id set_append set_sort sortWindow_def)
    moreover have "sorted (map ?neg (take k (sortWindow ?d) @ drop k (sortWindow ?d)))"
      by (simp add: sortWindow_def)
    ultimately have "?neg w \<le> ?neg e" using w s by (simp only: map_append sorted_append) auto
    then show ?thesis by (auto simp: age_def less_eq_prod_def)
  qed
qed

section \<open>No message twice\<close>

definition event_ids :: "event list \<Rightarrow> string list" where
  "event_ids evs = List.map_filter (\<lambda>ev. case ev of OnMessage m \<Rightarrow> Some (m_ID m) | _ \<Rightarrow> None) evs"

lemma event_ids_simps [simp]:
  "event_ids [] = []" "event_ids (OnMessage m # evs) = m_ID m # event_ids evs"
  "event_ids (OnContact pk n # evs) = event_ids evs" "event_ids (a @ b) = event_ids a @ event_ids b"
  by (simp_all add: event_ids_def map_filter_simps List.map_filter_def)

lemma event_ids_contacts [simp]: "event_ids (map (\<lambda>(pk, n). OnContact pk n) cs) = []"
  by (induction cs) auto

lemma decode_ID: "decode cr r e = Some m \<Longrightarrow> m_ID m = env_ID e"
  by (auto simp: decode_def Let_def split: sum.splits)

lemma event_ids_decode:
  "set (event_ids (map OnMessage (List.map_filter (decode cr r) es))) \<subseteq> env_ID ` set es \<and>
   (distinct (map env_ID es) \<longrightarrow> distinct (event_ids (map OnMessage (List.map_filter (decode cr r) es))))"
proof (induction es)
  case (Cons e es)
  then show ?case
    by (cases "decode cr r e") (auto simp: map_filter_simps decode_ID)
qed (simp add: map_filter_simps)

lemma Reconcile_events:
  assumes "visits ord" "Reconcile cr ops ord r s = Some (e, evs, r', s')"
  shows "distinct (event_ids evs)" "\<forall>i \<in> set (event_ids evs). \<not> HasSeen r i \<and> HasSeen r' i"
    "HasSeen r i \<Longrightarrow> HasSeen r' i"
proof -
  have seen': "HasSeen (commit r tops) i \<longleftrightarrow> HasSeen r i \<or> i \<in> env_ID ` set tops" for tops i
    using index_keys [of "seen r" tops] by (auto simp: HasSeen_def commit_def map_of_eq_None_iff)
  consider (err) "evs = []" "r' = r"
    | (ok) tops where "distinct (map env_ID tops)" "evs = events_of cr r tops" "r' = commit r tops"
  proof (cases "fst (Read ops (rm_key r) s)")
    case (Inl x)
    with assms(2) err show ?thesis by (auto simp: Reconcile_def split: prod.splits)
  next
    case (Inr vals)
    then obtain tops where t: "top_window ord (windowN r) (decoded cr (rm_roomKey r) vals) = Some tops"
      "evs = events_of cr r tops" "r' = commit r tops"
      using assms(2) by (auto simp: Reconcile_def Let_def split: prod.splits option.splits)
    with ok top_window_laws(2) [OF assms(1) t(1)] show ?thesis by blast
  qed
  then have "distinct (event_ids evs) \<and> (\<forall>i \<in> set (event_ids evs). \<not> HasSeen r i \<and> HasSeen r' i) \<and>
      (HasSeen r i \<longrightarrow> HasSeen r' i)"
  proof cases
    case (ok tops)
    let ?new = "new_messages r tops"
    have "distinct (map env_ID ?new)" using ok(1) by (simp add: new_messages_def distinct_map_filter)
    moreover have "\<forall>i \<in> env_ID ` set ?new. \<not> HasSeen r i \<and> i \<in> env_ID ` set tops"
      by (auto simp: new_messages_def HasSeen_def)
    ultimately show ?thesis
      using event_ids_decode [of cr r ?new] ok(2,3) by (auto simp: events_of_def seen')
  qed simp
  then show "distinct (event_ids evs)" "\<forall>i \<in> set (event_ids evs). \<not> HasSeen r i \<and> HasSeen r' i"
    "HasSeen r i \<Longrightarrow> HasSeen r' i" by auto
qed

text \<open>A run of reconcile steps, with its callbacks in order; the store may change between the
  steps.\<close>

inductive polls :: "crypto \<Rightarrow> 's store_ops \<Rightarrow> Room \<Rightarrow> event list \<Rightarrow> Room \<Rightarrow> bool" for cr ops where
  polls_none: "polls cr ops r [] r"
| polls_step: "polls cr ops r evs r1 \<Longrightarrow> visits ord \<Longrightarrow> Reconcile cr ops ord r1 s = Some (e, evs1, r2, s2) \<Longrightarrow>
    polls cr ops r (evs @ evs1) r2"

lemma polls_once:
  "polls cr ops r evs r' \<Longrightarrow>
   distinct (event_ids evs) \<and> (\<forall>i \<in> set (event_ids evs). \<not> HasSeen r i \<and> HasSeen r' i) \<and> (\<forall>i. HasSeen r i \<longrightarrow> HasSeen r' i)"
proof (induction rule: polls.induct)
  case (polls_step r evs r1 ord s e evs1 r2 s2)
  note R = Reconcile_events [OF polls_step.hyps(2,3)]
  show ?case using polls_step.IH R by (auto dest: R(3))
qed simp

lemma polls_trans: "polls cr ops r1 evs2 r2 \<Longrightarrow> polls cr ops r evs1 r1 \<Longrightarrow> polls cr ops r (evs1 @ evs2) r2"
proof (induction rule: polls.induct)
  case (polls_step r' evs r1' ord s e evs1' r2' s2)
  then show ?case using polls.polls_step [of cr ops r "evs1 @ evs" r1' ord s e evs1' r2' s2] by simp
qed simp

lemma room_Run_polls:
  "room_Run cr ops es r s = Some (evs, r', s') \<Longrightarrow> \<forall>ord. RoomTick ord \<in> set es \<longrightarrow> visits ord \<Longrightarrow> polls cr ops r evs r'"
proof (induction es arbitrary: r s evs)
  case (Cons x es)
  show ?case
  proof (cases x)
    case (RoomTick ord)
    then obtain e evs1 r1 s1 evs2 where "Reconcile cr ops ord r s = Some (e, evs1, r1, s1)"
      "room_Run cr ops es r1 s1 = Some (evs2, r', s')" "evs = evs1 @ evs2"
      using Cons.prems(1) by (auto split: option.splits)
    moreover from this have "polls cr ops r1 evs2 r'" using Cons by simp
    moreover have "visits ord" using Cons.prems(2) RoomTick by simp
    ultimately show ?thesis using polls_trans polls_step [OF polls_none] by (metis append_Nil)
  qed (use Cons.prems polls_none in auto)
qed (auto simp: polls_none)

text \<open>A running room delivers a message once.\<close>

lemma room_Run_once:
  assumes "room_Run cr ops es r s = Some (evs, r', s')" "\<forall>ord. RoomTick ord \<in> set es \<longrightarrow> visits ord"
  shows "distinct (event_ids evs) \<and> (\<forall>i \<in> set (event_ids evs). \<not> HasSeen r i)"
  using polls_once [OF room_Run_polls [OF assms]] by blast

section \<open>Delivery\<close>

lemma NewEnvelope_some: "\<exists>w. NewEnvelope cr (Some nonce) me name token key sq ts txt = Inr w"
  by (simp add: NewEnvelope_def sealRoom_def)

text \<open>When the window has room for every id under the key, an envelope whose id nothing else carries
  is in the window.\<close>

lemma top_window_complete:
  assumes "visits ord" "top_window ord n envs = Some tops" "0 \<le> n" "int (card (env_ID ` set envs)) \<le> n"
    and w: "w \<in> set envs" "\<forall>e \<in> set envs. env_ID e = env_ID w \<longrightarrow> e = w"
  shows "w \<in> set tops"
proof -
  note t = top_window_laws [OF assms(1,2)]
  have "card (env_ID ` set tops) = card (env_ID ` set envs)"
    using distinct_card [OF t(2)] t(4) [OF assms(3)] assms(4) by simp
  moreover have "env_ID ` set tops \<subseteq> env_ID ` set envs" using t(3) by blast
  ultimately have "env_ID ` set tops = env_ID ` set envs" by (simp add: card_subset_eq)
  then obtain e where "e \<in> set tops" "env_ID e = env_ID w" using w(1) by (metis imageE imageI)
  with w(2) t(3) show ?thesis by blast
qed

lemma top_window_some: "0 \<le> n \<Longrightarrow> \<exists>tops. top_window ord n envs = Some tops"
  by (simp add: top_window_def keepTop_def Let_def)

lemma decoded_set: "set (decoded cr key vals) = {e. \<exists>v \<in> set vals. DecodeEnvelope cr key v = Inr e}"
  by (induction vals) (auto simp: decoded_def map_filter_simps split: sum.splits)

lemma events_of_message:
  "w \<in> set tops \<Longrightarrow> \<not> HasSeen r (env_ID w) \<Longrightarrow> hasOnMessage r \<Longrightarrow> decode cr r w = Some m \<Longrightarrow>
   OnMessage m \<in> set (events_of cr r tops)"
  by (induction tops) (auto simp: events_of_def new_messages_def HasSeen_def map_filter_simps split: option.splits)

context kv_store
begin

lemma Reconcile_delivers:
  assumes s: "ready s" and v: "v \<in> visible s (rm_key r)" "DecodeEnvelope cr (rm_roomKey r) v = Inr w"
    and o: "env_Open cr (rm_roomKey r) w = Inr text"
    and uniq: "\<forall>u \<in> visible s (rm_key r). \<forall>e. DecodeEnvelope cr (rm_roomKey r) u = Inr e \<longrightarrow> env_ID e = env_ID w \<longrightarrow> e = w"
    and fit: "0 \<le> windowN r"
      "int (card (env_ID ` {e. \<exists>u \<in> visible s (rm_key r). DecodeEnvelope cr (rm_roomKey r) u = Inr e})) \<le> windowN r"
    and r: "\<not> HasSeen r (env_ID w)" "hasOnMessage r" "visits ord"
  shows "\<exists>evs r' s' m. Reconcile cr ops ord r s = Some (None, evs, r', s') \<and> decode cr r w = Some m \<and>
     OnMessage m \<in> set evs \<and> HasSeen r' (env_ID w)"
proof -
  obtain vals s1 where g: "get_op ops (rm_key r) s = (Inr vals, s1)" "set vals = visible s (rm_key r)"
    using get_ok [OF s, of "rm_key r"] by blast
  let ?envs = "decoded cr (rm_roomKey r) vals"
  have e: "set ?envs = {e. \<exists>u \<in> visible s (rm_key r). DecodeEnvelope cr (rm_roomKey r) u = Inr e}"
    using decoded_set g(2) by simp
  obtain tops where t: "top_window ord (windowN r) ?envs = Some tops" using top_window_some [OF fit(1)] by blast
  have w: "w \<in> set tops"
    by (rule top_window_complete [OF r(3) t fit(1)]) (use fit(2) v uniq in \<open>auto simp: e\<close>)
  obtain m where m: "decode cr r w = Some m" using o by (simp add: decode_def Let_def)
  have "HasSeen (commit r tops) (env_ID w)"
    using w index_keys [of "seen r" tops] by (auto simp: HasSeen_def commit_def map_of_eq_None_iff)
  moreover obtain s' where "Reconcile cr ops ord r s = Some (None, events_of cr r tops, commit r tops, s')"
    using t g(1) by (simp add: Reconcile_def Read_def Let_def)
  ultimately show ?thesis using m events_of_message [OF w r(1,2) m] by blast
qed

end

lemma Send_visible:
  assumes "mock_ready s" "Send cr mock_ops (Some nonce) now r txt s = (res, r', s1)"
  shows "\<exists>v. mock_visible s1 (rm_key r) = insert v (mock_visible s (rm_key r))"
proof -
  obtain w where w: "NewEnvelope cr (Some nonce) (rm_me r) (rm_name r) (rm_token r) (rm_roomKey r)
      (word_of_int (i64 (rm_seq r + 1))) (unix_sec now) txt = Inr w" using NewEnvelope_some by blast
  let ?v = "env_Marshal cr (rm_roomKey r) w"
  have "s1 = snd (Publish mock_ops (rm_store r) (rm_key r) ?v s)"
    using assms(2) w by (auto simp: Send_def Let_def split: prod.splits option.splits)
  with mock.Publish_visible [OF assms(1), of "rm_store r" "rm_key r" ?v] show ?thesis by auto
qed

section \<open>Properties\<close>

text \<open>An envelope built for a room is decoded from its stored form to itself, its signature
  verifies under the sender's key and it opens to the text; its id is the sender's key and the
  sequence number.\<close>

theorem envelope_roundtrip:
  assumes "crypto_ok cr" "length nonce = 24" "ascii name" "ascii token"
    "- 9223372036854775808 \<le> ts" "ts < 9223372036854775808"
  shows "\<exists>w. NewEnvelope cr (Some nonce) me name token key sq ts text = Inr w \<and>
     DecodeEnvelope cr key (env_Marshal cr key w) = Inr w \<and> env_Verify cr w = Inr True \<and>
     env_Open cr key w = Inr text \<and> env_ID w = PublicString cr me @ ''#'' @ uint_str sq"
  using NewEnvelope_good [OF assms] DecodeEnvelope_Marshal [OF assms(1)] by metis

theorem envelope_roundtrip_witness:
  "\<exists>w. NewEnvelope demo_crypto (Some (replicate 24 (CHR 0x00))) \<lparr>seed = ''s''\<rparr> ''ann'' ''room'' ''k'' 1 7 ''hi'' = Inr w \<and>
     env_Open demo_crypto ''k'' w = Inr ''hi''"
  using envelope_roundtrip [OF crypto_ok_demo, of "replicate 24 (CHR 0x00)" "''ann''" "''room''" 7
      "\<lparr>seed = ''s''\<rparr>" "''k''" 1 "''hi''"] by auto



text \<open>C24: over any run of reconcile steps, whatever the store returns between them, the message
  callback is made at most once per message id, and only for ids not seen before.\<close>

theorem messages_delivered_once:
  assumes "polls cr ops r evs r'"
  shows "distinct (event_ids evs) \<and> (\<forall>i \<in> set (event_ids evs). \<not> HasSeen r i \<and> HasSeen r' i)"
  using polls_once [OF assms] by simp

definition one_value :: "bytes \<Rightarrow> unit store_ops" where
  "one_value v = \<lparr>put_op = \<lambda>key x s. (None, s), get_op = \<lambda>key s. (Inr [v], s), sleep_op = \<lambda>d s. (None, s),
     ctx_op = \<lambda>s. None\<rparr>"

lemma Reconcile_one:
  assumes "DecodeEnvelope cr (rm_roomKey r) v = Inr w" "env_Open cr (rm_roomKey r) w = Inr text"
    "windowN r = 20" "hasOnMessage r" "seen r = []"
  shows "\<exists>evs r'. Reconcile cr (one_value v) id r () = Some (None, evs, r', ()) \<and> event_ids evs = [env_ID w]"
proof -
  have d: "decoded cr (rm_roomKey r) [v] = [w]" by (simp add: decoded_def map_filter_simps assms(1))
  have "dedupeByID id [w] = [w]" by (simp add: dedupeByID_def id_index_def map_filter_simps)
  then have t: "top_window id (windowN r) [w] = Some [w]"
    by (simp add: top_window_def keepTop_def sortWindow_def sortAscending_def Let_def assms(3))
  have n: "new_messages r [w] = [w]" by (simp add: new_messages_def assms(5))
  obtain m where m: "decode cr r w = Some m" using assms(2) by (simp add: decode_def Let_def)
  have "event_ids (events_of cr r [w]) = [env_ID w]"
    using decode_ID [OF m] by (simp add: events_of_def n assms(4) map_filter_simps m)
  then show ?thesis by (simp add: Reconcile_def Read_def one_value_def d t Let_def)
qed

theorem messages_delivered_once_witness:
  "\<exists>v r evs r'. polls demo_crypto (one_value v) r evs r' \<and> length (event_ids evs) = 1 \<and> distinct (event_ids evs)"
proof -
  let ?r = "(NewRoom demo_crypto 0 ''room'' \<lparr>seed = ''s''\<rparr> ''ann'' NewReliable [])\<lparr>hasOnMessage := True\<rparr>"
  let ?k = "rm_roomKey ?r"
  obtain w where w: "envelope_ok w" "env_Open demo_crypto ?k w = Inr ''hi''"
    by (rule NewEnvelope_good [OF crypto_ok_demo, of "replicate 24 (CHR 0x00)" "[]" "[]" 7
      "\<lparr>seed = ''s''\<rparr>" ?k 1 "''hi''"]) auto
  have "windowN ?r = 20" "hasOnMessage ?r" "seen ?r = []" by (simp_all add: NewRoom_def)
  from Reconcile_one [OF DecodeEnvelope_Marshal [OF crypto_ok_demo w(1)] w(2) this] obtain evs r' where
    c: "Reconcile demo_crypto (one_value (env_Marshal demo_crypto ?k w)) id ?r () = Some (None, evs, r', ())"
    and i: "event_ids evs = [env_ID w]" by blast
  have "visits id" by (simp add: visits_def)
  from polls_step [OF polls_none this c] have p: "polls demo_crypto (one_value (env_Marshal demo_crypto ?k w)) ?r evs r'" by simp
  with messages_delivered_once [OF p] i show ?thesis by force
qed


lemma roomlit: "ascii ''ann''" "ascii ''room''" by code_simp+


text \<open>Ids are deduplicated before any signature is looked at: an envelope that carries the id of
  another one displaces it, whoever signed it.\<close>

theorem forged_envelope_displaces_genuine:
  assumes "visits ord" "env_ID forged = env_ID genuine"
  shows "dedupeByID ord [genuine, forged] = [forged]"
proof -
  have i: "id_index [genuine, forged] = [(env_ID genuine, forged)]" by (simp add: id_index_def assms(2))
  have "mset (ord [env_ID genuine]) = mset [env_ID genuine]" using assms(1) by (simp add: visits_def)
  then have "ord [env_ID genuine] = [env_ID genuine]" by simp
  then show ?thesis by (simp add: dedupeByID_def i map_filter_simps)
qed

text \<open>The contact callback, unlike the message callback, is made once per envelope: a sender
  with two envelopes in the first window is announced twice.\<close>

theorem contact_announced_twice:
  assumes "SenderPK e = Inr pk" "pk \<notin> set (contactSeen r)"
  shows "new_contacts r [e, e\<lparr>we_Seq := q\<rparr>] = [(pk, we_Name e), (pk, we_Name e)]"
  using assms by (simp add: new_contacts_def map_filter_simps SenderPK_def)

theorem contact_announced_twice_witness:
  "\<exists>r. length (new_contacts r [zero_envelope\<lparr>we_PK := b64 (replicate 32 (CHR 0x00))\<rparr>,
      zero_envelope\<lparr>we_PK := b64 (replicate 32 (CHR 0x00))\<rparr>\<lparr>we_Seq := 1\<rparr>]) = 2"
proof -
  let ?e = "zero_envelope\<lparr>we_PK := b64 (replicate 32 (CHR 0x00))\<rparr>"
  let ?r = "NewRoom demo_crypto 0 [] \<lparr>seed = []\<rparr> [] NewReliable []"
  have "SenderPK ?e = Inr (replicate 32 (CHR 0x00))" by (simp add: SenderPK_def)
  moreover have "replicate 32 (CHR 0x00) \<notin> set (contactSeen ?r)" by (simp add: NewRoom_def)
  ultimately have "new_contacts ?r [?e, ?e\<lparr>we_Seq := 1\<rparr>] =
      [(replicate 32 (CHR 0x00), we_Name ?e), (replicate 32 (CHR 0x00), we_Name ?e)]"
    by (rule contact_announced_twice)
  then show ?thesis by (intro exI [of _ ?r]) simp
qed

end
