(* ===== verification/Stun.thy ===== *)
theory Stun
  imports Peers
begin

text \<open>
  One STUN query (\<open>srflxOne\<close> of \<open>internal/mesh/stun.go\<close>): the goroutine that runs the
  exchange, the channel of one place it reports on, and the select of the caller. The sockets
  and the STUN client are parameters: what dialing and making the client return, the events
  the client hands to the callback of \<open>Do\<close>, and the error of \<open>Do\<close> itself. The order in which
  the goroutine and the caller act is a step relation.
\<close>

section \<open>The goroutine\<close>

text \<open>An event of the client: an error, a message that does not parse (and what it left in
  \<open>xor\<close>), or a mapped address. The zero value of \<open>xor\<close> has a nil address.\<close>

datatype stun_event = EvError goerr | EvBad goerr ip int | EvMapped ip int

fun callback :: "stun_event \<Rightarrow> ip \<times> int \<Rightarrow> (ip \<times> int) \<times> string res list" where
  "callback (EvError e) xa = (xa, [Inl e])"
| "callback (EvBad e a p) xa = ((a, p), [Inl e])"
| "callback (EvMapped a p) xa = ((a, p), [])"

fun callbacks :: "stun_event list \<Rightarrow> ip \<times> int \<Rightarrow> (ip \<times> int) \<times> string res list" where
  "callbacks [] xa = (xa, [])"
| "callbacks (ev # evs) xa =
     (case callback ev xa of (xa1, out1) \<Rightarrow> (case callbacks evs xa1 of (xa2, out2) \<Rightarrow> (xa2, out1 @ out2)))"

text \<open>Everything the goroutine sends on the channel, in order: the outcomes of the callback, and
  one more when \<open>Do\<close> has returned.\<close>

definition srflx_sends :: "stun_event list \<Rightarrow> goerr option \<Rightarrow> string res list" where
  "srflx_sends evs doErr =
     (case callbacks evs ([], 0) of
        (xa, out) \<Rightarrow>
          out @ [case doErr of
                   Some e \<Rightarrow> Inl e
                 | None \<Rightarrow> if fst xa = [] then Inl ErrStunFailed
                           else Inr (join_host_port (ip_string (fst xa)) (int_str (snd xa)))])"

section \<open>The select\<close>

datatype wake = ByOutcome | ByCtx | ByTimer

record srflx =
  to_send :: "string res list"
  chan :: "string res option"
  returned :: "(wake \<times> string res) option"

definition srflx_start :: "stun_event list \<Rightarrow> goerr option \<Rightarrow> srflx" where
  "srflx_start evs doErr = \<lparr>to_send = srflx_sends evs doErr, chan = None, returned = None\<rparr>"

text \<open>The goroutine sends while the channel has room. The caller takes whichever of its three
  cases is ready; the timer can always have fired.\<close>

inductive srflx_step :: "goerr option \<Rightarrow> srflx \<Rightarrow> srflx \<Rightarrow> bool" for ctx where
  srflx_send: "to_send s = x # xs \<Longrightarrow> chan s = None \<Longrightarrow> srflx_step ctx s (s\<lparr>to_send := xs, chan := Some x\<rparr>)"
| srflx_recv: "returned s = None \<Longrightarrow> chan s = Some x \<Longrightarrow>
    srflx_step ctx s (s\<lparr>chan := None, returned := Some (ByOutcome, x)\<rparr>)"
| srflx_ctx: "returned s = None \<Longrightarrow> ctx = Some e \<Longrightarrow> srflx_step ctx s (s\<lparr>returned := Some (ByCtx, Inl e)\<rparr>)"
| srflx_timer: "returned s = None \<Longrightarrow> srflx_step ctx s (s\<lparr>returned := Some (ByTimer, Inl ErrStunFailed)\<rparr>)"

inductive_simps srflx_step_iff: "srflx_step ctx s s'"

text \<open>The results \<open>srflxOne\<close> can have.\<close>

definition srflxOne_result ::
  "goerr option \<Rightarrow> goerr option \<Rightarrow> goerr option \<Rightarrow> stun_event list \<Rightarrow> goerr option \<Rightarrow> string res \<Rightarrow> bool" where
  "srflxOne_result dialErr clientErr ctx evs doErr r \<longleftrightarrow>
     (case dialErr of
        Some e \<Rightarrow> r = Inl e
      | None \<Rightarrow>
          (case clientErr of
             Some e \<Rightarrow> r = Inl e
           | None \<Rightarrow> (\<exists>s k. (srflx_step ctx)\<^sup>*\<^sup>* (srflx_start evs doErr) s \<and> returned s = Some (k, r))))"

section \<open>Laws\<close>

text \<open>What has been received, what waits in the channel and what is still to be sent are the
  outcomes of the goroutine, in order.\<close>

definition srflx_inv :: "goerr option \<Rightarrow> string res list \<Rightarrow> srflx \<Rightarrow> bool" where
  "srflx_inv ctx outs s \<longleftrightarrow>
     (case returned s of
        Some (ByOutcome, x) \<Rightarrow> outs = x # (case chan s of None \<Rightarrow> [] | Some y \<Rightarrow> [y]) @ to_send s
      | q \<Rightarrow> outs = (case chan s of None \<Rightarrow> [] | Some y \<Rightarrow> [y]) @ to_send s \<and>
              (case q of Some (ByCtx, r) \<Rightarrow> (\<exists>e. ctx = Some e \<and> r = Inl e) | Some (ByTimer, r) \<Rightarrow> r = Inl ErrStunFailed
               | _ \<Rightarrow> True))"

lemma srflx_inv_step: "srflx_step ctx s s' \<Longrightarrow> srflx_inv ctx outs s \<Longrightarrow> srflx_inv ctx outs s'"
  by (induction rule: srflx_step.induct) (auto simp: srflx_inv_def split: option.splits wake.splits)

lemma srflx_inv_run:
  assumes "(srflx_step ctx)\<^sup>*\<^sup>* (srflx_start evs doErr) s"
  shows "srflx_inv ctx (srflx_sends evs doErr) s"
  using assms
proof (induction rule: rtranclp_induct)
  case base
  then show ?case by (simp add: srflx_inv_def srflx_start_def)
qed (rule srflx_inv_step)

text \<open>The exchange is over after finitely many steps.\<close>

definition srflx_left :: "srflx \<Rightarrow> nat" where
  "srflx_left s = length (to_send s) + (if returned s = None then 1 else 0)"

lemma srflx_step_left: "srflx_step ctx s s' \<Longrightarrow> srflx_left s' < srflx_left s"
  by (induction rule: srflx_step.induct) (auto simp: srflx_left_def)

lemma callbacks_silent:
  "snd (callbacks evs xa) = [] \<Longrightarrow> \<exists>as. evs = map (\<lambda>(a, p). EvMapped a p) as \<and> fst (callbacks evs xa) = last (xa # as)"
proof (induction evs arbitrary: xa)
  case (Cons ev evs)
  then obtain a p where ev: "ev = EvMapped a p" by (cases ev) (auto split: prod.splits)
  with Cons.prems have "snd (callbacks evs (a, p)) = []" by (auto split: prod.splits)
  from Cons.IH [OF this] obtain as where
    "evs = map (\<lambda>(a, p). EvMapped a p) as \<and> fst (callbacks evs (a, p)) = last ((a, p) # as)" by blast
  then show ?case by (intro exI [of _ "(a, p) # as"]) (auto simp: ev split: prod.splits)
qed simp

lemma callbacks_errors: "x \<in> set (snd (callbacks evs xa)) \<Longrightarrow> \<exists>e. x = Inl e"
proof (induction evs arbitrary: xa)
  case (Cons ev evs)
  obtain xa1 out1 where c: "callback ev xa = (xa1, out1)" by fastforce
  then have "\<forall>y \<in> set out1. \<exists>e. y = Inl e" by (cases ev) auto
  with Cons.prems Cons.IH [of xa1] c show ?case by (auto simp: case_prod_unfold)
qed simp

lemma srflx_sends_InrD:
  assumes "srflx_sends evs doErr = Inr addr # rest"
  shows "doErr = None \<and> rest = [] \<and> (\<exists>as a p. evs = map (\<lambda>(a, p). EvMapped a p) (as @ [(a, p)]) \<and> a \<noteq> [] \<and>
     addr = join_host_port (ip_string a) (int_str p))"
proof -
  obtain xa out where c: "callbacks evs ([], 0) = (xa, out)" by (cases "callbacks evs ([], 0)")
  have o: "out = []"
  proof (rule ccontr)
    assume "out \<noteq> []"
    then have "Inr addr \<in> set (snd (callbacks evs ([], 0)))"
      using assms c by (cases out) (auto simp: srflx_sends_def)
    with callbacks_errors [OF this] show False by simp
  qed
  then have s: "doErr = None" "fst xa \<noteq> []" "rest = []" "addr = join_host_port (ip_string (fst xa)) (int_str (snd xa))"
    using assms c by (auto simp: srflx_sends_def split: option.splits if_splits)
  from callbacks_silent [of evs "([], 0)"] c o obtain as where
    as: "evs = map (\<lambda>(a, p). EvMapped a p) as" "xa = last (([], 0) # as)" by auto
  have "as \<noteq> []" using as(2) s(2) by auto
  then obtain bs where "as = bs @ [xa]" using as(2) by (metis append_butlast_last_id last_ConsR)
  with s as(1) show ?thesis by (intro conjI exI [of _ bs] exI [of _ "fst xa"] exI [of _ "snd xa"]) auto
qed

section \<open>Properties\<close>

text \<open>C38: a STUN query reports an address only when the client mapped one: every event of the
  exchange was a mapped address, the last of them is the one reported, and no error occurred.
  Whatever the client does and however the goroutine and the caller interleave, every run ends
  within as many steps as there are outcomes and one, and the caller can return at any time.\<close>

theorem srflx_reports_mapped_address:
  "(srflxOne_result dialErr clientErr ctx evs doErr (Inr addr) \<longrightarrow>
      dialErr = None \<and> clientErr = None \<and> doErr = None \<and>
      (\<exists>as a p. evs = map (\<lambda>(a, p). EvMapped a p) (as @ [(a, p)]) \<and> a \<noteq> [] \<and>
         addr = join_host_port (ip_string a) (int_str p))) \<and>
   (srflx_step ctx s s' \<longrightarrow> srflx_left s' < srflx_left s) \<and>
   (returned s = None \<longrightarrow> (\<exists>s'. srflx_step ctx s s' \<and> returned s' \<noteq> None))"
proof (intro conjI impI)
  assume "srflxOne_result dialErr clientErr ctx evs doErr (Inr addr)"
  then obtain s k where d: "dialErr = None" "clientErr = None"
    and s: "(srflx_step ctx)\<^sup>*\<^sup>* (srflx_start evs doErr) s" "returned s = Some (k, Inr addr)"
    by (auto simp: srflxOne_result_def split: option.splits)
  from srflx_inv_run [OF s(1)] s(2) obtain rest where "srflx_sends evs doErr = Inr addr # rest"
    by (auto simp: srflx_inv_def split: wake.splits)
  from srflx_sends_InrD [OF this] d
  show "dialErr = None" "clientErr = None" "doErr = None"
    "\<exists>as a p. evs = map (\<lambda>(a, p). EvMapped a p) (as @ [(a, p)]) \<and> a \<noteq> [] \<and>
       addr = join_host_port (ip_string a) (int_str p)" by simp_all
next
  assume "srflx_step ctx s s'"
  then show "srflx_left s' < srflx_left s" by (rule srflx_step_left)
next
  assume "returned s = None"
  from srflx_timer [OF this, of ctx] show "\<exists>s'. srflx_step ctx s s' \<and> returned s' \<noteq> None" by fastforce
qed

theorem srflx_reports_mapped_address_witness:
  "srflxOne_result None None None [EvMapped ''abcd'' 7] None (Inr (join_host_port (ip_string ''abcd'') (int_str 7))) \<and>
   (\<exists>as a p. [EvMapped ''abcd'' 7] = map (\<lambda>(a, p). EvMapped a p) (as @ [(a, p)]) \<and> a \<noteq> [] \<and>
      (join_host_port (ip_string ''abcd'') (int_str 7)) = join_host_port (ip_string a) (int_str p)) \<and>
   (\<exists>s'. srflx_step None (srflx_start [EvMapped ''abcd'' 7] None) s' \<and> srflx_left s' < 2)"
proof -
  let ?s0 = "srflx_start [EvMapped ''abcd'' 7] None"
  let ?s1 = "?s0\<lparr>to_send := [], chan := Some (Inr (join_host_port (ip_string ''abcd'') (int_str 7)))\<rparr>"
  let ?s2 = "?s1\<lparr>chan := None, returned := Some (ByOutcome, Inr (join_host_port (ip_string ''abcd'') (int_str 7)))\<rparr>"
  have 1: "srflx_step None ?s0 ?s1" by (rule srflx_send) (simp_all add: srflx_start_def srflx_sends_def)
  have "srflx_step None ?s1 ?s2" by (rule srflx_recv) (simp_all add: srflx_start_def)
  with 1 have "(srflx_step None)\<^sup>*\<^sup>* ?s0 ?s2" by (meson r_into_rtranclp rtranclp.rtrancl_into_rtrancl)
  then have r: "srflxOne_result None None None [EvMapped ''abcd'' 7] None (Inr (join_host_port (ip_string ''abcd'') (int_str 7)))"
    unfolding srflxOne_result_def by (auto intro!: exI [of _ ?s2])
  have "srflx_left ?s0 = 2" by (simp add: srflx_left_def srflx_start_def srflx_sends_def)
  with srflx_reports_mapped_address [of None None None "[EvMapped ''abcd'' 7]" None "join_host_port (ip_string ''abcd'') (int_str 7)" ?s0 ?s1] r 1
  show ?thesis by (intro conjI exI [of _ ?s1]) simp_all
qed

text \<open>When the client ends an exchange by handing an error to the callback, the goroutine has two
  outcomes to send. If the caller has left by its timer, nobody receives: the first send fills
  the channel and the second one blocks for ever.\<close>

theorem stun_goroutine_blocks:
  "\<exists>s. (srflx_step ctx)\<^sup>*\<^sup>* (srflx_start [EvError e] None) s \<and> returned s = Some (ByTimer, Inl ErrStunFailed) \<and>
     to_send s \<noteq> [] \<and> (\<forall>s'. \<not> srflx_step ctx s s')"
proof -
  let ?s0 = "srflx_start [EvError e] None"
  let ?s1 = "?s0\<lparr>returned := Some (ByTimer, Inl ErrStunFailed)\<rparr>"
  let ?s2 = "?s1\<lparr>to_send := [Inl ErrStunFailed], chan := Some (Inl e)\<rparr>"
  have "srflx_step ctx ?s0 ?s1" by (rule srflx_timer) (simp add: srflx_start_def)
  moreover have "srflx_step ctx ?s1 ?s2" by (rule srflx_send) (simp_all add: srflx_start_def srflx_sends_def)
  ultimately have "(srflx_step ctx)\<^sup>*\<^sup>* ?s0 ?s2" by (meson r_into_rtranclp rtranclp.rtrancl_into_rtrancl)
  moreover have "\<not> srflx_step ctx ?s2 s'" for s' by (simp add: srflx_step_iff)
  ultimately show ?thesis by (intro exI [of _ ?s2]) simp
qed

text \<open>An exchange without an error event leaves no goroutine behind.\<close>

theorem stun_goroutine_ends:
  assumes "\<forall>ev \<in> set evs. \<exists>a p. ev = EvMapped a p" "(srflx_step ctx)\<^sup>*\<^sup>* (srflx_start evs doErr) s"
    "\<forall>s'. \<not> srflx_step ctx s s'"
  shows "to_send s = []"
proof -
  have "snd (callbacks evs xa) = []" for xa
    using assms(1) by (induction evs arbitrary: xa) (auto simp: case_prod_unfold)
  then have l: "length (srflx_sends evs doErr) = 1" by (simp add: srflx_sends_def case_prod_unfold)
  have "to_send s = [] \<or> chan s \<noteq> None"
    using assms(3) srflx_send [of s] by (metis neq_Nil_conv)
  then show ?thesis
    using l srflx_inv_run [OF assms(2)]
    by (auto simp: srflx_inv_def split: option.splits wake.splits) (metis wake.exhaust)
qed

end
